(* ===== verification/Prelude.thy ===== *)
theory Prelude
  imports Main "HOL-Library.Word" "HOL-Library.Multiset"
begin

text \<open>
  Shared vocabulary of the development: the Go types every component uses, the
  result type that carries a Go panic as a value, checked slice accesses, a fold that
  stops at the first panic, and the generic list facts the components share.

  \<^item> A Go string and a Go byte slice are both sequences of bytes, so both are the
    HOL type \<open>string\<close> (a \<open>char\<close> is a byte) and the conversions between
    them are the identity. Where the code tells a nil slice from an empty one, the
    model uses \<open>bytes option\<close>.
  \<^item> \<open>uint64\<close> is \<open>64 word\<close>. Go's \<open>int\<close> counters that are bounded by
    the length of a slice in memory are \<open>int\<close> or \<open>nat\<close>.
  \<^item> \<open>time.Time\<close> is the number of nanoseconds since the zero time, as an
    unbounded integer; the zero value is 0.
\<close>

type_synonym bytes = string
type_synonym address = string
type_synonym u64 = "64 word"
type_synonym time = int

named_theorems frame \<open>fields an operation leaves as they were\<close>
named_theorems res_simps \<open>inversion of the result combinators\<close>

section \<open>Panics as values\<close>

text \<open>
  The ways the modelled code can panic: \<open>log.Panic\<close>, an index or a slice bound out
  of range, a write to a nil map, a nil pointer, unlocking an unlocked mutex (a fatal
  error of the Go runtime), and an integer division by zero.
\<close>

datatype go_error =
    LogPanic
  | IndexRange
  | SliceBounds
  | NilMapWrite
  | NilDeref
  | UnlockOfUnlocked
  | DivideByZero

type_synonym 'a res = "go_error + 'a"

fun bindR :: "'a res \<Rightarrow> ('a \<Rightarrow> 'b res) \<Rightarrow> 'b res" where
  "bindR (Inl e) f = Inl e"
| "bindR (Inr x) f = f x"

lemma bindR_eq_Inr [res_simps]:
  "bindR m f = Inr y \<longleftrightarrow> (\<exists>x. m = Inr x \<and> f x = Inr y)"
  by (cases m) auto

lemma bindR_cong [fundef_cong]:
  "m = m' \<Longrightarrow> (\<And>x. m' = Inr x \<Longrightarrow> f x = g x) \<Longrightarrow> bindR m f = bindR m' g"
  by (cases m') auto

fun isOk :: "'a res \<Rightarrow> bool" where
  "isOk (Inl _) = False"
| "isOk (Inr _) = True"

lemma isOk_iff: "isOk m \<longleftrightarrow> (\<exists>x. m = Inr x)"
  by (cases m) auto

text \<open>\<open>ofOption e m\<close>: a nil or an absent value becomes the panic \<open>e\<close>.\<close>

fun ofOption :: "go_error \<Rightarrow> 'a option \<Rightarrow> 'a res" where
  "ofOption e None = Inl e"
| "ofOption e (Some x) = Inr x"

lemma ofOption_eq_Inr [res_simps]: "ofOption e m = Inr x \<longleftrightarrow> m = Some x"
  by (cases m) auto

section \<open>Checked slice accesses\<close>

text \<open>Go checks every index: reading or writing out of range panics.\<close>

definition nthR :: "'a list \<Rightarrow> nat \<Rightarrow> 'a res" where
  "nthR xs i = (if i < length xs then Inr (xs ! i) else Inl IndexRange)"

definition updR :: "'a list \<Rightarrow> nat \<Rightarrow> 'a \<Rightarrow> 'a list res" where
  "updR xs i x = (if i < length xs then Inr (xs[i := x]) else Inl IndexRange)"

text \<open>The same with a signed index, as Go's \<open>int\<close> is.\<close>

definition nthI :: "'a list \<Rightarrow> int \<Rightarrow> 'a res" where
  "nthI xs i = (if 0 \<le> i \<and> i < int (length xs) then Inr (xs ! nat i) else Inl IndexRange)"

definition updI :: "'a list \<Rightarrow> int \<Rightarrow> 'a \<Rightarrow> 'a list res" where
  "updI xs i x = (if 0 \<le> i \<and> i < int (length xs) then Inr (xs[nat i := x]) else Inl IndexRange)"

text \<open>\<open>xs[:n]\<close> with a signed bound; the capacity of the slice is taken to be its length.\<close>

definition sliceTo :: "'a list \<Rightarrow> int \<Rightarrow> 'a list res" where
  "sliceTo xs n = (if 0 \<le> n \<and> n \<le> int (length xs) then Inr (take (nat n) xs) else Inl SliceBounds)"

lemma nthR_eq_Inr [res_simps]: "nthR xs i = Inr x \<longleftrightarrow> i < length xs \<and> xs ! i = x"
  by (simp add: nthR_def)

lemma updR_eq_Inr [res_simps]: "updR xs i x = Inr ys \<longleftrightarrow> i < length xs \<and> ys = xs[i := x]"
  by (auto simp: updR_def)

lemma nthI_eq_Inr [res_simps]:
  "nthI xs i = Inr x \<longleftrightarrow> 0 \<le> i \<and> i < int (length xs) \<and> xs ! nat i = x"
  by (auto simp: nthI_def)

lemma updI_eq_Inr [res_simps]:
  "updI xs i x = Inr ys \<longleftrightarrow> 0 \<le> i \<and> i < int (length xs) \<and> ys = xs[nat i := x]"
  by (auto simp: updI_def)

section \<open>A fold that stops at the first panic\<close>

fun foldR :: "('s \<Rightarrow> 'a \<Rightarrow> 's res) \<Rightarrow> 's \<Rightarrow> 'a list \<Rightarrow> 's res" where
  "foldR f s [] = Inr s"
| "foldR f s (x # xs) = bindR (f s x) (\<lambda>s'. foldR f s' xs)"

lemma foldR_append:
  "foldR f s (xs @ ys) = bindR (foldR f s xs) (\<lambda>s'. foldR f s' ys)"
proof (induction xs arbitrary: s)
  case Nil
  then show ?case by simp
next
  case (Cons x xs)
  then show ?case by (cases "f s x") auto
qed

lemma foldR_snoc: "foldR f s (xs @ [x]) = bindR (foldR f s xs) (\<lambda>s'. f s' x)"
proof -
  have "bindR (f s' x) (\<lambda>t. Inr t) = f s' x" for s'
    by (cases "f s' x") auto
  then show ?thesis by (simp add: foldR_append)
qed

text \<open>An invariant of every step that returns is an invariant of the fold.\<close>

lemma foldR_invariant:
  assumes step: "\<And>s x s'. x \<in> set xs \<Longrightarrow> I s \<Longrightarrow> f s x = Inr s' \<Longrightarrow> I s'"
    and init: "I s" and run: "foldR f s xs = Inr t"
  shows "I t"
  using assms
proof (induction xs arbitrary: s)
  case Nil
  then show ?case by simp
next
  case (Cons x xs)
  from Cons.prems(3) obtain s' where s': "f s x = Inr s'" "foldR f s' xs = Inr t"
    by (auto simp: res_simps)
  have "I s'"
    using Cons.prems(1) [of x s s'] Cons.prems(2) s'(1) by simp
  moreover have "\<And>s x s'. x \<in> set xs \<Longrightarrow> I s \<Longrightarrow> f s x = Inr s' \<Longrightarrow> I s'"
    using Cons.prems(1) by (meson list.set_intros(2))
  ultimately show ?case
    using Cons.IH [of s'] s'(2) by blast
qed

text \<open>A fold whose every step returns, under an invariant, returns.\<close>

lemma foldR_total:
  assumes step: "\<And>s x. x \<in> set xs \<Longrightarrow> I s \<Longrightarrow> \<exists>s'. f s x = Inr s' \<and> I s'"
    and init: "I s"
  shows "\<exists>t. foldR f s xs = Inr t \<and> I t"
  using assms
proof (induction xs arbitrary: s)
  case Nil
  then show ?case by simp
next
  case (Cons x xs)
  from Cons.prems obtain s' where s': "f s x = Inr s'" "I s'"
    by (meson list.set_intros(1))
  have "\<exists>t. foldR f s' xs = Inr t \<and> I t"
    using Cons.IH [of s'] Cons.prems(1) s'(2) by (meson list.set_intros(2))
  with s'(1) show ?case by simp
qed

lemma foldR_pure: "foldR (\<lambda>s x. Inr (g s x)) s xs = Inr (foldl g s xs)"
  by (induction xs arbitrary: s) auto

lemma foldR_cong_set:
  "(\<And>s x. x \<in> set xs \<Longrightarrow> f s x = g s x) \<Longrightarrow> foldR f s xs = foldR g s xs"
proof (induction xs arbitrary: s)
  case Nil
  then show ?case by simp
next
  case (Cons x xs)
  then have "foldR f s' xs = foldR g s' xs" for s'
    by simp
  with Cons.prems show ?case by simp
qed

section \<open>Iterating over a Go map\<close>

text \<open>
  Go leaves the order of \<open>range\<close> over a map open. A definition that ranges over a
  map takes the order as an argument, and its theorems assume only that the order
  lists every key once.
\<close>

definition iter_order :: "'k list \<Rightarrow> 'k set \<Rightarrow> bool" where
  "iter_order ks K \<longleftrightarrow> distinct ks \<and> set ks = K"

lemma iter_orderD [dest]: "iter_order ks K \<Longrightarrow> distinct ks \<and> set ks = K"
  by (simp add: iter_order_def)

lemma iter_order_perm: "iter_order ks K \<Longrightarrow> iter_order ks' K \<Longrightarrow> mset ks = mset ks'"
  by (auto simp: iter_order_def set_eq_iff_mset_eq_distinct)

text \<open>Reading a missing key of a Go map gives the zero value.\<close>

definition getOr :: "'v \<Rightarrow> 'v option \<Rightarrow> 'v" where
  "getOr z m = (case m of None \<Rightarrow> z | Some v \<Rightarrow> v)"

lemma getOr_simps [simp]: "getOr z None = z" "getOr z (Some v) = v"
  by (simp_all add: getOr_def)

section \<open>Generic facts on words and lists\<close>

text \<open>The conversion to \<open>int32\<close>.\<close>

definition toInt32 :: "int \<Rightarrow> int" where
  "toInt32 i = sint (word_of_int i :: 32 word)"

lemma toInt32_id: "- (2 ^ 31) \<le> i \<Longrightarrow> i < 2 ^ 31 \<Longrightarrow> toInt32 i = i"
  by (simp add: toInt32_def signed_of_int signed_take_bit_int_eq_self)

lemma unat_bound: "unat (w :: u64) < 2 ^ 64"
  by (rule order_less_le_trans [OF unsigned_less]) simp

lemma sum_list_update_int:
  fixes xs :: "int list"
  shows "i < length xs \<Longrightarrow> sum_list (xs[i := x]) = sum_list xs - xs ! i + x"
proof (induction xs arbitrary: i)
  case Nil
  then show ?case by simp
next
  case (Cons y ys)
  then show ?case by (cases i) auto
qed

lemma foldl_add_int: "foldl (\<lambda>acc x. acc + f x) (a::int) xs = a + sum_list (map f xs)"
  by (induction xs arbitrary: a) auto

lemma filter_partition_mset: "mset (filter P xs) + mset (filter (\<lambda>x. \<not> P x) xs) = mset xs"
  by (induction xs) auto

end
