(* ===== verification/CoreTypes.thy ===== *)
theory CoreTypes
  imports Prelude
begin

text \<open>
  The data of core/ (account.go, transaction.go, block.go), of shard/nodes.go and of
  the message/ package, with the operations on them that are not tied to a store: the
  arithmetic of account balances, the construction of transactions and blocks, the
  framing of messages. Balances and values are \<open>big.Int\<close> and therefore \<open>int\<close>.
  Encoders (gob, JSON) and hashes are standard-library functions the code uses as black
  boxes; where an operation hashes its argument the hash is an argument of the model.
\<close>

section \<open>Accounts (core/account.go)\<close>

record Account =
  AcAddress :: address
  PublicKey :: bytes

record AccountState =
  as_AcAddress :: address
  as_Nonce :: u64
  Balance :: int
  StorageRoot :: bytes
  CodeHash :: bytes

text \<open>Go's \<open>Deduct\<close> returns whether it succeeded and updates the receiver.\<close>

definition Deduct :: "AccountState \<Rightarrow> int \<Rightarrow> bool \<times> AccountState" where
  "Deduct as val =
     (if Balance as < val then (False, as)
      else (True, as\<lparr>Balance := Balance as - val\<rparr>))"

definition Deposit :: "AccountState \<Rightarrow> int \<Rightarrow> AccountState" where
  "Deposit as val = as\<lparr>Balance := Balance as + val\<rparr>"

section \<open>Transactions (core/transaction.go)\<close>

text \<open>\<open>RawTxHash\<close> is compared with nil by the code, so nil is \<open>None\<close>.\<close>

record Transaction =
  Sender :: address
  Recipient :: address
  Nonce :: u64
  Signature :: bytes
  Value :: int
  TxHash :: bytes
  Time :: time
  Relayed :: bool
  HasBroker :: bool
  SenderIsBroker :: bool
  OriginalSender :: address
  FinalRecipient :: address
  RawTxHash :: "bytes option"

text \<open>The zero value of the struct.\<close>

definition zeroTx :: Transaction where
  "zeroTx = \<lparr>Sender = '''', Recipient = '''', Nonce = 0, Signature = '''', Value = 0, TxHash = '''',
     Time = 0, Relayed = False, HasBroker = False, SenderIsBroker = False,
     OriginalSender = '''', FinalRecipient = '''', RawTxHash = None\<rparr>"

text \<open>\<open>hash\<close> is SHA-256 of the gob encoding: it reads the fields set so far.\<close>

definition NewTransaction ::
  "(Transaction \<Rightarrow> bytes) \<Rightarrow> address \<Rightarrow> address \<Rightarrow> int \<Rightarrow> u64 \<Rightarrow> time \<Rightarrow> Transaction" where
  "NewTransaction hash sender recipient val nonce proposeTime =
     (let tx = zeroTx\<lparr>Sender := sender, Recipient := recipient, Value := val,
                      Nonce := nonce, Time := proposeTime\<rparr>;
          tx = tx\<lparr>TxHash := hash tx\<rparr>
      in tx\<lparr>Relayed := False, FinalRecipient := '''', OriginalSender := '''',
            RawTxHash := None, HasBroker := False, SenderIsBroker := False\<rparr>)"

section \<open>Blocks (core/block.go)\<close>

text \<open>The Bloom filter is kept in its serialised form; the bit set is a third-party package.\<close>

record BlockHeader =
  ParentBlockHash :: bytes
  StateRoot :: bytes
  TxRoot :: bytes
  Bloom :: bytes
  Number :: u64
  bh_Time :: time
  Miner :: "32 word"

record Block =
  Header :: BlockHeader
  Body :: "Transaction list"
  Hash :: bytes

definition NewBlock :: "BlockHeader \<Rightarrow> Transaction list \<Rightarrow> Block" where
  "NewBlock bh bb = \<lparr>Header = bh, Body = bb, Hash = ''''\<rparr>"

section \<open>Proofs of inclusion (chain/merkleproof.go, the data)\<close>

record TxProofResult =
  Found :: bool
  pr_BlockHash :: bytes
  pr_TxHash :: bytes
  pr_TxRoot :: bytes
  BlockHeight :: u64
  KeyList :: "bytes list"
  ValueList :: "bytes list"
  Error :: string

section \<open>Nodes and messages (shard/nodes.go, message/)\<close>

record Node =
  NodeID :: u64
  ShardID :: u64
  IPaddr :: string

datatype RequestType = BlockRequest | PartitionReq

record Request =
  reqType :: RequestType
  Content :: bytes
  ReqTime :: time

record PrePrepare =
  RequestMsg :: Request
  pp_Digest :: bytes
  pp_SeqID :: u64

record Prepare =
  p_Digest :: bytes
  p_SeqID :: u64
  p_SenderNode :: Node

record Commit =
  c_Digest :: bytes
  c_SeqID :: u64
  c_SenderNode :: Node

record RequestOldMessage =
  ro_SeqStartHeight :: u64
  ro_SeqEndHeight :: u64
  ServerNode :: Node
  ro_SenderNode :: Node

record SendOldMessage =
  SeqStartHeight :: u64
  SeqEndHeight :: u64
  OldRequest :: "Request list"
  so_SenderNode :: Node

record InjectTxs =
  it_Txs :: "Transaction list"
  ToShardID :: u64

record BlockInfoMsg =
  BlockBodyLength :: nat
  InnerShardTxs :: "Transaction list"
  Epoch :: int
  ProposeTime :: time
  CommitTime :: time
  SenderShardID :: u64
  Relay1Txs :: "Transaction list"
  Relay2Txs :: "Transaction list"
  Broker1Txs :: "Transaction list"
  Broker2Txs :: "Transaction list"

record SeqIDinfo =
  si_SenderShardID :: u64
  si_SenderSeq :: u64

record Relay =
  r_Txs :: "Transaction list"
  r_SenderShardID :: u64
  r_SenderSeq :: u64

record RelayWithProof =
  rwp_Txs :: "Transaction list"
  TxProofs :: "TxProofResult list"
  rwp_SenderShardID :: u64
  rwp_SenderSeq :: u64

record ViewChangeMsg =
  vc_CurView :: int
  vc_NextView :: int
  vc_SeqID :: u64
  vc_FromNode :: u64

record NewViewMsg =
  nv_CurView :: int
  nv_NextView :: int
  NewSeqID :: u64
  nv_FromNode :: u64

type_synonym partitionMap = "(address \<times> u64) list"

record AccountTransferMsg =
  atm_ModifiedMap :: partitionMap
  atm_Addrs :: "address list"
  atm_AccountState :: "AccountState list"
  ATid :: u64

record PartitionReadyMsg =
  FromShard :: u64
  NowSeqID :: u64

record AccountStateAndTx =
  ast_Addrs :: "address list"
  ast_AccountState :: "AccountState list"
  ast_Txs :: "Transaction list"
  ast_FromShard :: u64

section \<open>Message framing (message/message.go)\<close>

definition prefixMSGtypeLen :: nat where
  "prefixMSGtypeLen = 30"

text \<open>
  \<open>MergeMessage\<close> copies the type into a 30-byte zero-filled prefix; a longer type
  indexes past its end and panics.
\<close>

definition MergeMessage :: "string \<Rightarrow> bytes \<Rightarrow> bytes res" where
  "MergeMessage msgType content =
     bindR (foldR (\<lambda>b (i, v). updR b i v) (replicate prefixMSGtypeLen (CHR 0x00))
              (zip [0..<length msgType] msgType))
       (\<lambda>b. Inr (b @ content))"

text \<open>Slicing a message shorter than the prefix panics; every zero byte of the prefix is dropped.\<close>

definition SplitMessage :: "bytes \<Rightarrow> (string \<times> bytes) res" where
  "SplitMessage message =
     (if length message < prefixMSGtypeLen then Inl SliceBounds
      else let msgTypeBytes = take prefixMSGtypeLen message;
               msgType_pruned = filter (\<lambda>v. v \<noteq> CHR 0x00) msgTypeBytes;
               content = drop prefixMSGtypeLen message
           in Inr (msgType_pruned, content))"

text \<open>The message types of the program, in the order of the source files.\<close>

definition msgTypes :: "string list" where
  "msgTypes =
     [''preprepare'', ''prepare'', ''commit'', ''requestOldrequest'', ''sendOldrequest'', ''stop'',
      ''relay'', ''CRelay&Proof'', ''inject'', ''BlockInfo'', ''SequenceID'',
      ''AccountState&txs'', ''PartitionModifiedMap'', ''ready for partition'',
      ''brokerRawTx'', ''brokerConfirm1'', ''brokerConfirm2'', ''brokerType1'', ''brokerType2'',
      ''InjectTx_Broker'', ''BrokerTxMap'', ''BrokerAS_transfer'', ''innerShardTx_be_crossShard'',
      ''ViewChangePropose'', ''NewChange'']"

section \<open>Lemmas\<close>

lemma Deduct_success: "Deduct as v = (True, as') \<Longrightarrow> Balance as' = Balance as - v \<and> v \<le> Balance as"
  by (auto simp: Deduct_def split: if_splits)

lemma NewTransaction_fields:
  "Sender (NewTransaction h s r v n t) = s"
  "Recipient (NewTransaction h s r v n t) = r"
  "Value (NewTransaction h s r v n t) = v"
  "Nonce (NewTransaction h s r v n t) = n"
  "Time (NewTransaction h s r v n t) = t"
  "Relayed (NewTransaction h s r v n t) = False"
  "HasBroker (NewTransaction h s r v n t) = False"
  "RawTxHash (NewTransaction h s r v n t) = None"
  by (simp_all add: NewTransaction_def Let_def)

lemma foldR_write_prefix:
  assumes "k + length xs \<le> length b"
  shows "foldR (\<lambda>b (i, v). updR b i v) b (zip [k..<k + length xs] xs) =
         Inr (take k b @ xs @ drop (k + length xs) b)"
  using assms
proof (induction xs arbitrary: k b)
  case Nil
  then show ?case by simp
next
  case (Cons x xs)
  have zip: "zip [k..<k + length (x # xs)] (x # xs) = (k, x) # zip [Suc k..<Suc k + length xs] xs"
    by (simp add: upt_conv_Cons del: upt_Suc)
  have "foldR (\<lambda>b (i, v). updR b i v) (b[k := x]) (zip [Suc k..<Suc k + length xs] xs) =
        Inr (take (Suc k) (b[k := x]) @ xs @ drop (Suc k + length xs) (b[k := x]))"
    using Cons.IH [of "Suc k" "b[k := x]"] Cons.prems by simp
  also have "take (Suc k) (b[k := x]) = take k b @ [x]"
    using Cons.prems by (simp add: take_Suc_conv_app_nth)
  also have "drop (Suc k + length xs) (b[k := x]) = drop (k + length (x # xs)) b"
    by simp
  finally have rest: "foldR (\<lambda>b (i, v). updR b i v) (b[k := x]) (zip [Suc k..<Suc k + length xs] xs) =
      Inr (take k b @ (x # xs) @ drop (k + length (x # xs)) b)"
    by simp
  have step: "updR b k x = Inr (b[k := x])"
    using Cons.prems by (simp add: updR_def)
  show ?case
    by (simp only: zip foldR.simps prod.case step bindR.simps rest)
qed

lemma MergeMessage_fits:
  assumes "length msgType \<le> prefixMSGtypeLen"
  shows "MergeMessage msgType content =
         Inr (msgType @ replicate (prefixMSGtypeLen - length msgType) (CHR 0x00) @ content)"
  using foldR_write_prefix [of 0 msgType "replicate prefixMSGtypeLen (CHR 0x00)"] assms
  by (simp add: MergeMessage_def)

lemma msgTypes_fit: "list_all (\<lambda>t. length t \<le> prefixMSGtypeLen \<and> CHR 0x00 \<notin> set t) msgTypes"
  by (simp add: msgTypes_def prefixMSGtypeLen_def)

end
