(* ===== verification/Environment.thy ===== *)
theory Environment
  imports CoreTypes "HOL-Library.Countable"
begin

text \<open>
  What the program takes from outside the repository. Third-party objects (the
  Merkle-Patricia trie and its database of go-ethereum, the bit set, the bolt key-value
  store) are carried by type variables or in serialised form, and their operations are the
  fields of one record that every definition using them takes as an argument. The same
  record holds the black boxes of the standard library: the gob and JSON encoders and
  SHA-256. The documented behaviour the proofs rely on is stated by the predicates
  \<open>trie_laws\<close>, \<open>triedb_laws\<close>, \<open>account_codec\<close>, \<open>bolt_laws\<close>,
  \<open>bitset_laws\<close> and \<open>proof_laws\<close>, each a named hypothesis of the
  theorems that need it. The end of the theory builds one environment that satisfies all
  of them.
\<close>

text \<open>
  \<^item> \<open>toHash\<close>: \<open>common.BytesToHash(b).Bytes()\<close>.
  \<^item> \<open>trieNew root db\<close>: \<open>trie.New\<close>; \<open>None\<close> when the root is not in the database.
  \<^item> \<open>trieCommit\<close>: the new root and whether the returned node set is non-nil.
  \<^item> \<open>dbUpdate db t\<close>: \<open>triedb.Update\<close> with the node set of the committed trie \<open>t\<close>.
  \<^item> \<open>trieVerify root key proof\<close>: \<open>trie.VerifyProof\<close>; the outer \<open>None\<close>
    is an error, the inner one a nil value.
  \<^item> \<open>bucketGet\<close>, \<open>bucketPut\<close>: a bolt bucket; \<open>None\<close> of a put is an error.
\<close>

record ('t, 'd, 's) env =
  hashTx :: "Transaction \<Rightarrow> bytes"
  hashBH :: "BlockHeader \<Rightarrow> bytes"
  reqDigest :: "Request \<Rightarrow> bytes"
  encAS :: "AccountState \<Rightarrow> bytes"
  decAS :: "bytes \<Rightarrow> AccountState option"
  encB :: "Block \<Rightarrow> bytes"
  decB :: "bytes \<Rightarrow> Block option"
  encBH :: "BlockHeader \<Rightarrow> bytes"
  decBH :: "bytes \<Rightarrow> BlockHeader option"
  encATM :: "AccountTransferMsg \<Rightarrow> bytes"
  decATM :: "bytes \<Rightarrow> AccountTransferMsg option"
  toHash :: "bytes \<Rightarrow> bytes"
  bsNew :: "nat \<Rightarrow> bytes"
  bsSet :: "bytes \<Rightarrow> u64 \<Rightarrow> bytes"
  bsTest :: "bytes \<Rightarrow> u64 \<Rightarrow> bool"
  trieEmpty :: 't
  trieNew :: "bytes \<Rightarrow> 'd \<Rightarrow> 't option"
  trieGet :: "'t \<Rightarrow> bytes \<Rightarrow> bytes option"
  trieUpdate :: "'t \<Rightarrow> bytes \<Rightarrow> bytes \<Rightarrow> 't"
  trieHash :: "'t \<Rightarrow> bytes"
  trieCommit :: "'t \<Rightarrow> bytes \<times> bool"
  dbUpdate :: "'d \<Rightarrow> 't \<Rightarrow> 'd option"
  dbCommit :: "'d \<Rightarrow> bytes \<Rightarrow> 'd option"
  trieProve :: "'t \<Rightarrow> bytes \<Rightarrow> (bytes \<times> bytes) list option"
  trieVerify :: "bytes \<Rightarrow> bytes \<Rightarrow> (bytes \<times> bytes) list \<Rightarrow> bytes option option"
  bucketGet :: "'s \<Rightarrow> bytes \<Rightarrow> bytes \<Rightarrow> bytes option"
  bucketPut :: "'s \<Rightarrow> bytes \<Rightarrow> bytes \<Rightarrow> bytes \<Rightarrow> 's option"

text \<open>
  The global parameters of params/ an operation reads, and the per-node
  \<open>ChainConfig\<close> (params/static_config.go).
\<close>

record params =
  ShardNum :: int
  UseBlocksizeInBytes :: int
  BlocksizeInBytes :: int
  RelayWithMerkleProof :: int
  InjectSpeed :: int

record ChainConfig =
  cc_NodeID :: u64
  cc_ShardID :: u64
  Nodes_perShard :: u64
  ShardNums :: u64
  BlockSize :: u64

definition Init_Balance :: int where
  "Init_Balance = 10 ^ 44"

definition SupervisorShard :: u64 where
  "SupervisorShard = 2147483647"

section \<open>Documented behaviour of the environment\<close>

text \<open>An MPT is a map; storing an empty value would delete, so stored values are non-empty.\<close>

definition trie_laws :: "('t, 'd, 's) env \<Rightarrow> bool" where
  "trie_laws E \<longleftrightarrow>
     (\<forall>t k v k'. v \<noteq> [] \<longrightarrow>
        trieGet E (trieUpdate E t k v) k' = (if k' = k then Some v else trieGet E t k')) \<and>
     (\<forall>k. trieGet E (trieEmpty E) k = None)"

text \<open>\<open>reachT E t0 t\<close>: \<open>t\<close> comes from \<open>t0\<close> by updates with non-empty values.\<close>

definition reachT :: "('t, 'd, 's) env \<Rightarrow> 't \<Rightarrow> 't \<Rightarrow> bool" where
  "reachT E t0 t \<longleftrightarrow>
     (\<exists>kvs. (\<forall>x \<in> set kvs. snd x \<noteq> []) \<and> t = foldl (\<lambda>t x. trieUpdate E t (fst x) (snd x)) t0 kvs)"

text \<open>
  A committed trie can be opened at its root, and committing keeps the other roots. A nil
  node set is returned only for a clean trie, whose content is still that of the trie it
  came from: then the root can already be opened in the database. Roots are hashes, which \<open>BytesToHash\<close>
  leaves alone.
\<close>

definition triedb_laws :: "('t, 'd, 's) env \<Rightarrow> bool" where
  "triedb_laws E \<longleftrightarrow>
     (\<forall>t d d1 d2 rt. trieCommit E t = (rt, True) \<longrightarrow> dbUpdate E d t = Some d1 \<longrightarrow>
        dbCommit E d1 rt = Some d2 \<longrightarrow>
        (\<exists>t'. trieNew E rt d2 = Some t' \<and> trieGet E t' = trieGet E t) \<and>
        (\<forall>r. r \<noteq> rt \<longrightarrow> trieNew E r d2 = trieNew E r d)) \<and>
     (\<forall>r d t0 t rt. trieNew E r d = Some t0 \<longrightarrow> reachT E t0 t \<longrightarrow> trieCommit E t = (rt, False) \<longrightarrow>
        trieGet E t = trieGet E t0 \<and> (\<exists>t'. trieNew E rt d = Some t' \<and> trieGet E t' = trieGet E t)) \<and>
     (\<forall>b. toHash E (toHash E b) = toHash E b) \<and>
     (\<forall>t. toHash E (fst (trieCommit E t)) = fst (trieCommit E t))"

definition account_codec :: "('t, 'd, 's) env \<Rightarrow> bool" where
  "account_codec E \<longleftrightarrow> (\<forall>a. decAS E (encAS E a) = Some a \<and> encAS E a \<noteq> [])"

definition bolt_laws :: "('t, 'd, 's) env \<Rightarrow> bool" where
  "bolt_laws E \<longleftrightarrow>
     (\<forall>s b k v s' b' k'. bucketPut E s b k v = Some s' \<longrightarrow>
        bucketGet E s' b' k' = (if b' = b \<and> k' = k then Some v else bucketGet E s b' k'))"

definition bitset_laws :: "('t, 'd, 's) env \<Rightarrow> bool" where
  "bitset_laws E \<longleftrightarrow>
     (\<forall>i. \<not> bsTest E (bsNew E 2048) i) \<and>
     (\<forall>b i j. bsTest E (bsSet E b i) j = (j = i \<or> bsTest E b j))"

text \<open>A proof made from a trie verifies against the trie's root, with the value stored there.\<close>

definition proof_laws :: "('t, 'd, 's) env \<Rightarrow> bool" where
  "proof_laws E \<longleftrightarrow>
     (\<forall>t k p. trieProve E t k = Some p \<longrightarrow> trieVerify E (toHash E (trieHash E t)) k p = Some (trieGet E t k)) \<and>
     (\<forall>t. toHash E (trieHash E t) = trieHash E t)"

lemma trie_lawsD:
  "trie_laws E \<Longrightarrow> v \<noteq> [] \<Longrightarrow>
   trieGet E (trieUpdate E t k v) k' = (if k' = k then Some v else trieGet E t k')"
  "trie_laws E \<Longrightarrow> trieGet E (trieEmpty E) k = None"
  by (auto simp: trie_laws_def)

lemma account_codecD:
  "account_codec E \<Longrightarrow> decAS E (encAS E a) = Some a"
  "account_codec E \<Longrightarrow> encAS E a \<noteq> []"
  by (auto simp: account_codec_def)

lemma bolt_lawsD:
  "bolt_laws E \<Longrightarrow> bucketPut E s b k v = Some s' \<Longrightarrow>
   bucketGet E s' b' k' = (if b' = b \<and> k' = k then Some v else bucketGet E s b' k')"
  unfolding bolt_laws_def by blast

lemma bitset_lawsD:
  "bitset_laws E \<Longrightarrow> \<not> bsTest E (bsNew E 2048) i"
  "bitset_laws E \<Longrightarrow> bsTest E (bsSet E b i) j = (j = i \<or> bsTest E b j)"
  by (auto simp: bitset_laws_def)

lemma triedb_lawsD:
  "triedb_laws E \<Longrightarrow> trieCommit E t = (rt, True) \<Longrightarrow> dbUpdate E d t = Some d1 \<Longrightarrow> dbCommit E d1 rt = Some d2 \<Longrightarrow>
   \<exists>t'. trieNew E rt d2 = Some t' \<and> trieGet E t' = trieGet E t"
  "triedb_laws E \<Longrightarrow> trieCommit E t = (rt, True) \<Longrightarrow> dbUpdate E d t = Some d1 \<Longrightarrow> dbCommit E d1 rt = Some d2 \<Longrightarrow>
   r \<noteq> rt \<Longrightarrow> trieNew E r d2 = trieNew E r d"
  "triedb_laws E \<Longrightarrow> trieNew E r d = Some t0 \<Longrightarrow> reachT E t0 t \<Longrightarrow> trieCommit E t = (rt, False) \<Longrightarrow>
   trieGet E t = trieGet E t0 \<and> (\<exists>t'. trieNew E rt d = Some t' \<and> trieGet E t' = trieGet E t)"
  "triedb_laws E \<Longrightarrow> toHash E (toHash E b) = toHash E b"
  "triedb_laws E \<Longrightarrow> trieCommit E t = (rt, ns) \<Longrightarrow> toHash E rt = rt"
  unfolding triedb_laws_def by (blast, blast, blast, blast, metis fst_conv)

lemma proof_lawsD:
  "proof_laws E \<Longrightarrow> trieProve E t k = Some p \<Longrightarrow>
   trieVerify E (toHash E (trieHash E t)) k p = Some (trieGet E t k)"
  unfolding proof_laws_def by blast

lemma reachT_refl: "reachT E t t"
  unfolding reachT_def by (intro exI [of _ "[]"]) simp

lemma reachT_update: "reachT E t0 t \<Longrightarrow> v \<noteq> [] \<Longrightarrow> reachT E t0 (trieUpdate E t k v)"
  unfolding reachT_def
proof (elim exE conjE)
  fix kvs
  assume "v \<noteq> []" "\<forall>x \<in> set kvs. snd x \<noteq> []" "t = foldl (\<lambda>t x. trieUpdate E t (fst x) (snd x)) t0 kvs"
  then show "\<exists>kvs. (\<forall>x \<in> set kvs. snd x \<noteq> []) \<and>
      trieUpdate E t k v = foldl (\<lambda>t x. trieUpdate E t (fst x) (snd x)) t0 kvs"
    by (intro exI [of _ "kvs @ [(k, v)]"]) auto
qed

section \<open>An environment that satisfies the laws\<close>

text \<open>
  Tries are maps; the database is a map from roots to tries; a root is the list of the
  last writes, which is not injective but the database overwrites on a clash, as the law
  allows. Encoders are unary through the countability of the encoded tuples. The bit set
  is one byte per position, extended on demand.
\<close>

type_synonym mtrie = "(bytes \<times> bytes) list"

definition asTuple :: "AccountState \<Rightarrow> string \<times> u64 \<times> int \<times> string \<times> string" where
  "asTuple a = (as_AcAddress a, as_Nonce a, Balance a, StorageRoot a, CodeHash a)"

definition asUntuple :: "string \<times> u64 \<times> int \<times> string \<times> string \<Rightarrow> AccountState" where
  "asUntuple x = (case x of (a, n, b, s, c) \<Rightarrow>
     \<lparr>as_AcAddress = a, as_Nonce = n, Balance = b, StorageRoot = s, CodeHash = c\<rparr>)"

definition unary :: "nat \<Rightarrow> bytes" where
  "unary n = replicate (Suc n) (CHR 0x01)"

definition ununary :: "bytes \<Rightarrow> nat" where
  "ununary b = length b - 1"

lemma ununary_unary [simp]: "ununary (unary n) = n"
  by (simp add: unary_def ununary_def)

definition txTuple where
  "txTuple t = ((Sender t, Recipient t, Nonce t, Signature t, Value t, TxHash t),
     (Time t, Relayed t, HasBroker t, SenderIsBroker t, OriginalSender t, FinalRecipient t, RawTxHash t))"

definition txUntuple where
  "txUntuple x = (case x of ((s, r, n, g, v, h), (t, rl, hb, sb, os, fr, raw)) \<Rightarrow>
     \<lparr>Sender = s, Recipient = r, Nonce = n, Signature = g, Value = v, TxHash = h,
      Time = t, Relayed = rl, HasBroker = hb, SenderIsBroker = sb,
      OriginalSender = os, FinalRecipient = fr, RawTxHash = raw\<rparr>)"

definition bhTuple where
  "bhTuple h = (ParentBlockHash h, StateRoot h, TxRoot h, Bloom h, Number h, bh_Time h, Miner h)"

definition bhUntuple where
  "bhUntuple x = (case x of (p, s, t, b, n, tm, m) \<Rightarrow>
     \<lparr>ParentBlockHash = p, StateRoot = s, TxRoot = t, Bloom = b, Number = n, bh_Time = tm, Miner = m\<rparr>)"

definition blockTuple where
  "blockTuple b = (bhTuple (Header b), map txTuple (Body b), Hash b)"

definition blockUntuple where
  "blockUntuple x = (case x of (h, ts, k) \<Rightarrow>
     \<lparr>Header = bhUntuple h, Body = map txUntuple ts, Hash = k\<rparr>)"

lemma untuple_tuple [simp]:
  "asUntuple (asTuple a) = a" "txUntuple (txTuple t) = t" "bhUntuple (bhTuple h) = h"
  by (simp_all add: asTuple_def asUntuple_def txTuple_def txUntuple_def bhTuple_def bhUntuple_def)

lemma blockUntuple_tuple [simp]: "blockUntuple (blockTuple b) = b"
  by (simp add: blockTuple_def blockUntuple_def comp_def)

definition atmTuple where
  "atmTuple m = (atm_ModifiedMap m, atm_Addrs m, map asTuple (atm_AccountState m), ATid m)"

definition atmUntuple where
  "atmUntuple t = (case t of (m, ads, ss, i) \<Rightarrow>
     \<lparr>atm_ModifiedMap = m, atm_Addrs = ads, atm_AccountState = map asUntuple ss, ATid = i\<rparr>)"

lemma atmUntuple_tuple [simp]: "atmUntuple (atmTuple m) = m"
  by (simp add: atmTuple_def atmUntuple_def comp_def)

definition mHash :: "mtrie \<Rightarrow> bytes" where
  "mHash t = concat (map (\<lambda>(k, v). k @ CHR '':'' # v @ [CHR '';'']) t)"

definition modelEnv :: "(mtrie, bytes \<Rightarrow> mtrie option, bytes \<times> bytes \<Rightarrow> bytes option) env" where
  "modelEnv =
    \<lparr>hashTx = (\<lambda>t. Sender t @ CHR ''>'' # Recipient t),
     hashBH = (\<lambda>h. unary (unat (Number h))),
     reqDigest = (\<lambda>r. Content r),
     encAS = (\<lambda>a. unary (to_nat (asTuple a))),
     decAS = (\<lambda>b. Some (asUntuple (from_nat (ununary b)))),
     encB = (\<lambda>b. unary (to_nat (blockTuple b))),
     decB = (\<lambda>b. Some (blockUntuple (from_nat (ununary b)))),
     encBH = (\<lambda>h. unary (to_nat (bhTuple h))),
     decBH = (\<lambda>b. Some (bhUntuple (from_nat (ununary b)))),
     encATM = (\<lambda>m. unary (to_nat (atmTuple m))),
     decATM = (\<lambda>b. Some (atmUntuple (from_nat (ununary b)))),
     toHash = (\<lambda>b. b),
     bsNew = (\<lambda>n. replicate n (CHR 0x00)),
     bsSet = (\<lambda>b i. (b @ replicate (Suc (unat i) - length b) (CHR 0x00))[unat i := CHR 0x01]),
     bsTest = (\<lambda>b i. unat i < length b \<and> b ! unat i = CHR 0x01),
     trieEmpty = [],
     trieNew = (\<lambda>r d. d r),
     trieGet = map_of,
     trieUpdate = (\<lambda>t k v. (k, v) # t),
     trieHash = mHash,
     trieCommit = (\<lambda>t. (mHash t, True)),
     dbUpdate = (\<lambda>d t. Some (d(mHash t := Some t))),
     dbCommit = (\<lambda>d r. Some d),
     trieProve = (\<lambda>t k. Some (case map_of t k of None \<Rightarrow> [] | Some v \<Rightarrow> [(k, v)])),
     trieVerify = (\<lambda>r k p. Some (map_of p k)),
     bucketGet = (\<lambda>s b k. s (b, k)),
     bucketPut = (\<lambda>s b k v. Some (s((b, k) := Some v)))\<rparr>"

lemma modelEnv_trie: "trie_laws modelEnv"
  by (simp add: trie_laws_def modelEnv_def)

lemma modelEnv_triedb: "triedb_laws modelEnv"
  by (auto simp: triedb_laws_def modelEnv_def)

lemma modelEnv_account: "account_codec modelEnv"
  by (auto simp: account_codec_def modelEnv_def unary_def [of "to_nat _"] ununary_def)

lemma modelEnv_bolt: "bolt_laws modelEnv"
  by (auto simp: bolt_laws_def modelEnv_def)

lemma bits_set_test:
  fixes z o1 :: char and b :: bytes and i j :: nat
  assumes "z \<noteq> o1"
  defines "c \<equiv> (b @ replicate (Suc i - length b) z)[i := o1]"
  shows "(j < length c \<and> c ! j = o1) \<longleftrightarrow> (j = i \<or> (j < length b \<and> b ! j = o1))"
proof (cases "j = i")
  case True
  have "i < length c" by (simp add: c_def)
  with True show ?thesis by (simp add: c_def)
next
  case False
  then have "c ! j = (b @ replicate (Suc i - length b) z) ! j" by (simp add: c_def)
  moreover have "j < length c \<Longrightarrow> \<not> j < length b \<Longrightarrow> (b @ replicate (Suc i - length b) z) ! j = z"
    by (simp add: c_def nth_append)
  moreover have "j < length b \<Longrightarrow> j < length c" by (simp add: c_def)
  ultimately show ?thesis
    using False assms(1) by (auto simp: nth_append)
qed

lemma modelEnv_bitset: "bitset_laws modelEnv"
proof -
  have "bsTest modelEnv (bsSet modelEnv b i) j = (j = i \<or> bsTest modelEnv b j)" for b i j
    using bits_set_test [of "CHR 0x00" "CHR 0x01" "unat j" b "unat i"]
    by (simp add: modelEnv_def word_unat_eq_iff)
  moreover have "\<not> bsTest modelEnv (bsNew modelEnv 2048) i" for i
    using nth_replicate [of "unat i" 2048 "CHR 0x00"] by (auto simp: modelEnv_def simp del: nth_replicate)
  ultimately show ?thesis by (simp add: bitset_laws_def)
qed

lemma modelEnv_proof: "proof_laws modelEnv"
  by (auto simp: proof_laws_def modelEnv_def split: option.splits)

end
