(* ===== verification/BlockStorage.thy ===== *)
theory BlockStorage
  imports Environment
begin

text \<open>
  The block store (storage/storage.go): three buckets of a bolt database, the blocks by
  hash, the headers by hash, and the hash of the newest block under a single key. The
  interface \<open>block_store\<close> states what the chain relies on, and the walk back from the
  newest block along the parent hashes.
\<close>

definition blockBucket :: bytes where
  "blockBucket = ''block''"

definition blockHeaderBucket :: bytes where
  "blockHeaderBucket = ''blockHeader''"

definition newestBlockHashBucket :: bytes where
  "newestBlockHashBucket = ''newestBlockHash''"

definition newestKey :: bytes where
  "newestKey = ''OnlyNewestBlock''"

definition UpdateNewestBlock :: "('t, 'd, 's) env \<Rightarrow> bytes \<Rightarrow> 's \<Rightarrow> 's res" where
  "UpdateNewestBlock E newestbhash s =
     ofOption LogPanic (bucketPut E s newestBlockHashBucket newestKey newestbhash)"

definition AddBlockHeader :: "('t, 'd, 's) env \<Rightarrow> bytes \<Rightarrow> BlockHeader \<Rightarrow> 's \<Rightarrow> 's res" where
  "AddBlockHeader E blockhash bh s =
     ofOption LogPanic (bucketPut E s blockHeaderBucket blockhash (encBH E bh))"

definition storeBlock :: "('t, 'd, 's) env \<Rightarrow> Block \<Rightarrow> 's \<Rightarrow> 's res" where
  "storeBlock E b s =
     bindR (ofOption LogPanic (bucketPut E s blockBucket (Hash b) (encB E b))) (\<lambda>s.
     bindR (AddBlockHeader E (Hash b) (Header b) s) (\<lambda>s.
     UpdateNewestBlock E (Hash b) s))"

text \<open>A read returns Go's \<open>(value, error)\<close>: \<open>Inl\<close> the error, \<open>Inr\<close> the value;
  undecodable bytes panic.\<close>

definition GetBlockHeader :: "('t, 'd, 's) env \<Rightarrow> bytes \<Rightarrow> 's \<Rightarrow> (string + BlockHeader) res" where
  "GetBlockHeader E bhash s =
     (case bucketGet E s blockHeaderBucket bhash of
        None \<Rightarrow> Inr (Inl ''the block is not existed'')
      | Some bh_encoded \<Rightarrow> bindR (ofOption LogPanic (decBH E bh_encoded)) (\<lambda>bh. Inr (Inr bh)))"

definition GetBlock :: "('t, 'd, 's) env \<Rightarrow> bytes \<Rightarrow> 's \<Rightarrow> (string + Block) res" where
  "GetBlock E bhash s =
     (case bucketGet E s blockBucket bhash of
        None \<Rightarrow> Inr (Inl ''the block is not existed'')
      | Some b_encoded \<Rightarrow> bindR (ofOption LogPanic (decB E b_encoded)) (\<lambda>b. Inr (Inr b)))"

definition GetNewestBlockHash :: "('t, 'd, 's) env \<Rightarrow> 's \<Rightarrow> string + bytes" where
  "GetNewestBlockHash E s =
     (case bucketGet E s newestBlockHashBucket newestKey of
        None \<Rightarrow> Inl ''cannot find the newest block hash''
      | Some nhb \<Rightarrow> Inr nhb)"

section \<open>The interface\<close>

text \<open>\<open>Some b\<close> when the store returns the block \<open>b\<close> for a hash.\<close>

definition blockAt :: "('t, 'd, 's) env \<Rightarrow> 's \<Rightarrow> bytes \<Rightarrow> Block option" where
  "blockAt E s h = (case GetBlock E h s of Inr (Inr b) \<Rightarrow> Some b | _ \<Rightarrow> None)"

definition newestOf :: "('t, 'd, 's) env \<Rightarrow> 's \<Rightarrow> bytes option" where
  "newestOf E s = (case GetNewestBlockHash E s of Inr h \<Rightarrow> Some h | Inl _ \<Rightarrow> None)"

definition decodable :: "('t, 'd, 's) env \<Rightarrow> Block \<Rightarrow> bool" where
  "decodable E b \<longleftrightarrow> decB E (encB E b) = Some b"

text \<open>The \<open>n\<close> blocks met walking back from the hash \<open>h\<close> along the parent hashes.\<close>

fun walkBack :: "(bytes \<Rightarrow> Block option) \<Rightarrow> bytes \<Rightarrow> nat \<Rightarrow> Block list option" where
  "walkBack at h 0 = Some []"
| "walkBack at h (Suc n) =
     (case at h of
        None \<Rightarrow> None
      | Some b \<Rightarrow> map_option (Cons b) (walkBack at (ParentBlockHash (Header b)) n))"

lemma walkBack_upd:
  "at h' = None \<Longrightarrow> walkBack at h n = Some bs \<Longrightarrow> walkBack (at(h' \<mapsto> b)) h n = Some bs"
proof (induction n arbitrary: h bs)
  case 0
  then show ?case by simp
next
  case (Suc n)
  then show ?case by (auto split: option.splits)
qed

locale block_store =
  fixes lawful :: bool
    and ok :: "Block \<Rightarrow> bool"
    and put :: "Block \<Rightarrow> 's \<Rightarrow> 's res"
    and at :: "'s \<Rightarrow> bytes \<Rightarrow> Block option"
    and newest :: "'s \<Rightarrow> bytes option"
  assumes at_put: "lawful \<Longrightarrow> ok b \<Longrightarrow> put b s = Inr s' \<Longrightarrow> at s' = (at s)(Hash b \<mapsto> b)"
    and newest_put: "lawful \<Longrightarrow> put b s = Inr s' \<Longrightarrow> newest s' = Some (Hash b)"
begin

lemma put_extends_walk:
  assumes "lawful" and "ok b" and "put b s = Inr s'" and "at s (Hash b) = None"
    and "walkBack (at s) (ParentBlockHash (Header b)) n = Some bs"
  shows "walkBack (at s') (Hash b) (Suc n) = Some (b # bs)"
proof -
  have at': "at s' = (at s)(Hash b \<mapsto> b)"
    using at_put assms(1-3) by blast
  have "walkBack (at s') (ParentBlockHash (Header b)) n = Some bs"
    unfolding at' using assms(4,5) by (rule walkBack_upd)
  then show ?thesis
    by (simp add: at')
qed

lemma put_keeps_walk:
  assumes "lawful" and "ok b" and "put b s = Inr s'" and "at s (Hash b) = None"
    and "walkBack (at s) h n = Some bs"
  shows "walkBack (at s') h n = Some bs"
proof -
  have at': "at s' = (at s)(Hash b \<mapsto> b)"
    using at_put assms(1-3) by blast
  show ?thesis
    unfolding at' using assms(4,5) by (rule walkBack_upd)
qed

end

lemma buckets_distinct [simp]:
  "blockHeaderBucket \<noteq> blockBucket" "newestBlockHashBucket \<noteq> blockBucket"
  "blockBucket \<noteq> blockHeaderBucket" "blockBucket \<noteq> newestBlockHashBucket"
  "newestBlockHashBucket \<noteq> blockHeaderBucket" "blockHeaderBucket \<noteq> newestBlockHashBucket"
  by (simp_all add: blockBucket_def blockHeaderBucket_def newestBlockHashBucket_def)

lemma storeBlock_buckets:
  assumes "bolt_laws E" and "storeBlock E b s = Inr s'"
  shows "bucketGet E s' blockBucket h =
           (if h = Hash b then Some (encB E b) else bucketGet E s blockBucket h)"
    and "bucketGet E s' blockHeaderBucket h =
           (if h = Hash b then Some (encBH E (Header b)) else bucketGet E s blockHeaderBucket h)"
    and "bucketGet E s' newestBlockHashBucket newestKey = Some (Hash b)"
proof -
  from assms(2) obtain s1 s2 where
    s1: "bucketPut E s blockBucket (Hash b) (encB E b) = Some s1" and
    s2: "bucketPut E s1 blockHeaderBucket (Hash b) (encBH E (Header b)) = Some s2" and
    s3: "bucketPut E s2 newestBlockHashBucket newestKey (Hash b) = Some s'"
    by (auto simp: storeBlock_def AddBlockHeader_def UpdateNewestBlock_def res_simps)
  note laws = bolt_lawsD [OF assms(1) s3] bolt_lawsD [OF assms(1) s2] bolt_lawsD [OF assms(1) s1]
  show "bucketGet E s' blockBucket h =
           (if h = Hash b then Some (encB E b) else bucketGet E s blockBucket h)"
    by (simp add: laws)
  show "bucketGet E s' blockHeaderBucket h =
           (if h = Hash b then Some (encBH E (Header b)) else bucketGet E s blockHeaderBucket h)"
    by (simp add: laws)
  show "bucketGet E s' newestBlockHashBucket newestKey = Some (Hash b)"
    by (simp add: laws)
qed

interpretation bst: block_store "bolt_laws E" "decodable E" "storeBlock E" "blockAt E" "newestOf E" for E
proof (unfold_locales, goal_cases)
  case (1 b s s')
  show ?case
  proof
    fix h
    show "blockAt E s' h = ((blockAt E s)(Hash b \<mapsto> b)) h"
      using storeBlock_buckets(1) [OF 1(1,3), of h] 1(2)
      by (simp add: blockAt_def GetBlock_def decodable_def)
  qed
next
  case (2 b s s')
  then show ?case
    using storeBlock_buckets(3) [OF 2(1,2)] by (simp add: newestOf_def GetNewestBlockHash_def)
qed

end
