(* ===== verification/TxPools.thy ===== *)
theory TxPools
  imports CoreTypes
begin

text \<open>
  The transaction pool (core/txpool.go): a queue of transactions and one relay queue per
  destination shard. Every exported operation is a critical section of the pool's mutex,
  so it is one step of the model; \<open>GetLocked\<close> and \<open>GetUnlocked\<close> open and close
  a longer section for the account-transfer code. \<open>ClearRelayPool\<close> leaves the relay
  map nil, a state of its own in Go, hence the \<open>option\<close>.

  The interface \<open>fifo_pool\<close> says what the block producer relies on: whatever the order
  of arrivals and packings, transactions leave in the order they came, none lost and none
  invented. It is interpreted on both packing operations of the code.
\<close>

record TxPool =
  TxQueue :: "Transaction list"
  RelayPool :: "(u64 \<rightharpoonup> Transaction list) option"
  poolLocked :: bool

definition NewTxPool :: TxPool where
  "NewTxPool = \<lparr>TxQueue = [], RelayPool = Some Map.empty, poolLocked = False\<rparr>"

text \<open>A transaction with no time stamp is given the current time.\<close>

definition stampTx :: "time \<Rightarrow> Transaction \<Rightarrow> Transaction" where
  "stampTx now tx = (if Time tx = 0 then tx\<lparr>Time := now\<rparr> else tx)"

definition AddTx2Pool :: "time \<Rightarrow> Transaction \<Rightarrow> TxPool \<Rightarrow> TxPool" where
  "AddTx2Pool now tx txpool = txpool\<lparr>TxQueue := TxQueue txpool @ [stampTx now tx]\<rparr>"

text \<open>\<open>clk i\<close> is the time read while the i-th transaction is handled.\<close>

definition AddTxs2Pool :: "(nat \<Rightarrow> time) \<Rightarrow> Transaction list \<Rightarrow> TxPool \<Rightarrow> TxPool" where
  "AddTxs2Pool clk txs txpool =
     foldl (\<lambda>p (i, tx). p\<lparr>TxQueue := TxQueue p @ [stampTx (clk i) tx]\<rparr>) txpool (enumerate 0 txs)"

definition AddTxs2Pool_Head :: "Transaction list \<Rightarrow> TxPool \<Rightarrow> TxPool" where
  "AddTxs2Pool_Head txs txpool = txpool\<lparr>TxQueue := txs @ TxQueue txpool\<rparr>"

definition PackTxs :: "u64 \<Rightarrow> TxPool \<Rightarrow> Transaction list \<times> TxPool" where
  "PackTxs max_txs txpool =
     (let txNum = (if word_of_nat (length (TxQueue txpool)) < max_txs
                   then word_of_nat (length (TxQueue txpool)) else max_txs)
      in (take (unat txNum) (TxQueue txpool),
          txpool\<lparr>TxQueue := drop (unat txNum) (TxQueue txpool)\<rparr>))"

text \<open>
  \<open>unsafe.Sizeof(*tx)\<close> is the size of the struct on a 64-bit machine, whatever the
  strings and slices in it hold: four strings of 16 bytes, three slices of 24, the nonce
  and the value pointer of 8, the time of 24 and three booleans padded to 8.
\<close>

definition txSize :: int where
  "txSize = 4 * 16 + 3 * 24 + 2 * 8 + 24 + 8"

fun packScan :: "int \<Rightarrow> int \<Rightarrow> nat \<Rightarrow> Transaction list \<Rightarrow> nat" where
  "packScan max_bytes currentSize tx_idx [] = tx_idx"
| "packScan max_bytes currentSize tx_idx (tx # txs) =
     (let currentSize = currentSize + txSize in
      if currentSize > max_bytes then tx_idx
      else packScan max_bytes currentSize (Suc tx_idx) txs)"

definition PackTxsWithBytes :: "int \<Rightarrow> TxPool \<Rightarrow> Transaction list \<times> TxPool" where
  "PackTxsWithBytes max_bytes txpool =
     (let txNum = packScan max_bytes 0 0 (TxQueue txpool)
      in (take txNum (TxQueue txpool), txpool\<lparr>TxQueue := drop txNum (TxQueue txpool)\<rparr>))"

text \<open>Reading a nil map finds nothing; writing to it panics.\<close>

definition relayLookup :: "TxPool \<Rightarrow> u64 \<Rightarrow> Transaction list option" where
  "relayLookup txpool sid = (case RelayPool txpool of None \<Rightarrow> None | Some m \<Rightarrow> m sid)"

definition AddRelayTx :: "Transaction \<Rightarrow> u64 \<Rightarrow> TxPool \<Rightarrow> TxPool res" where
  "AddRelayTx tx shardID txpool =
     (case RelayPool txpool of
        None \<Rightarrow> Inl NilMapWrite
      | Some m \<Rightarrow>
          let m = (if m shardID = None then m(shardID \<mapsto> []) else m)
          in Inr (txpool\<lparr>RelayPool := Some (m(shardID \<mapsto> getOr [] (m shardID) @ [tx]))\<rparr>))"

definition GetTxQueueLen :: "TxPool \<Rightarrow> nat" where
  "GetTxQueueLen txpool = length (TxQueue txpool)"

definition ClearRelayPool :: "TxPool \<Rightarrow> TxPool" where
  "ClearRelayPool txpool = txpool\<lparr>RelayPool := None\<rparr>"

text \<open>\<open>GetLocked\<close> waits while the mutex is held: \<open>None\<close> is "still waiting".\<close>

definition GetLocked :: "TxPool \<Rightarrow> TxPool option" where
  "GetLocked txpool = (if poolLocked txpool then None else Some (txpool\<lparr>poolLocked := True\<rparr>))"

definition GetUnlocked :: "TxPool \<Rightarrow> TxPool res" where
  "GetUnlocked txpool =
     (if poolLocked txpool then Inr (txpool\<lparr>poolLocked := False\<rparr>) else Inl UnlockOfUnlocked)"

definition PackRelayTxs :: "u64 \<Rightarrow> u64 \<Rightarrow> u64 \<Rightarrow> TxPool \<Rightarrow> (Transaction list \<times> bool) \<times> TxPool" where
  "PackRelayTxs shardID minRelaySize maxRelaySize txpool =
     (case relayLookup txpool shardID of
        None \<Rightarrow> (([], False), txpool)
      | Some q \<Rightarrow>
          if int (length q) < sint minRelaySize then (([], False), txpool)
          else
            let txNum = (if word_of_nat (length q) < maxRelaySize
                         then word_of_nat (length q) else maxRelaySize)
            in ((take (unat txNum) q, True),
                txpool\<lparr>RelayPool := map_option (\<lambda>m. m(shardID \<mapsto> drop (unat txNum) q)) (RelayPool txpool)\<rparr>))"

text \<open>\<open>TransferTxs\<close> ranges over the relay map in the order \<open>ks\<close>.\<close>

fun transferScan ::
  "address \<Rightarrow> Transaction list \<Rightarrow> Transaction list \<times> Transaction list \<Rightarrow> Transaction list \<times> Transaction list" where
  "transferScan addr [] acc = acc"
| "transferScan addr (tx # txs) (transferred, kept) =
     (if Sender tx = addr then transferScan addr txs (transferred @ [tx], kept)
      else transferScan addr txs (transferred, kept @ [tx]))"

fun transferRelay ::
  "address \<Rightarrow> (u64 \<rightharpoonup> Transaction list) \<Rightarrow> u64 list \<Rightarrow> Transaction list \<times> (u64 \<rightharpoonup> Transaction list)
     \<Rightarrow> Transaction list \<times> (u64 \<rightharpoonup> Transaction list)" where
  "transferRelay addr pool [] acc = acc"
| "transferRelay addr pool (sid # sids) (transferred, newPool) =
     (let (transferred', kept) = transferScan addr (getOr [] (pool sid)) (transferred, []);
          newPool' = (if kept = [] then newPool else newPool(sid \<mapsto> kept))
      in transferRelay addr pool sids (transferred', newPool'))"

definition TransferTxs :: "u64 list \<Rightarrow> address \<Rightarrow> TxPool \<Rightarrow> Transaction list \<times> TxPool" where
  "TransferTxs ks addr txpool =
     (let (txTransfered, newTxQueue) = transferScan addr (TxQueue txpool) ([], []);
          (txTransfered, newRelayPool) =
            transferRelay addr (getOr Map.empty (RelayPool txpool)) ks (txTransfered, Map.empty)
      in (txTransfered, txpool\<lparr>TxQueue := newTxQueue, RelayPool := Some newRelayPool\<rparr>))"

section \<open>What the operations do to the queue\<close>

definition untimed :: "Transaction \<Rightarrow> Transaction" where
  "untimed tx = tx\<lparr>Time := 0\<rparr>"

definition poolItems :: "TxPool \<Rightarrow> Transaction list" where
  "poolItems p = map untimed (TxQueue p)"

lemma untimed_stampTx [simp]: "untimed (stampTx now tx) = untimed tx"
  by (simp add: untimed_def stampTx_def)

lemma AddTxs2Pool_fold:
  "foldl (\<lambda>p (i, tx). p\<lparr>TxQueue := TxQueue p @ [stampTx (clk i) tx]\<rparr>) txpool (enumerate k txs) =
   txpool\<lparr>TxQueue := TxQueue txpool @ map (\<lambda>(i, tx). stampTx (clk i) tx) (enumerate k txs)\<rparr>"
  by (induction txs arbitrary: k txpool) auto

lemma AddTxs2Pool_queue:
  "AddTxs2Pool clk txs txpool =
   txpool\<lparr>TxQueue := TxQueue txpool @ map (\<lambda>(i, tx). stampTx (clk i) tx) (enumerate 0 txs)\<rparr>"
  by (simp add: AddTxs2Pool_def AddTxs2Pool_fold)

lemma map_enumerate_untimed:
  "map (\<lambda>x. untimed (case x of (i, tx) \<Rightarrow> stampTx (clk i) tx)) (enumerate k txs) = map untimed txs"
  by (induction txs arbitrary: k) auto

lemma poolItems_AddTxs2Pool: "poolItems (AddTxs2Pool clk txs p) = poolItems p @ map untimed txs"
  by (simp add: AddTxs2Pool_queue poolItems_def comp_def map_enumerate_untimed)

lemma AddTxs2Pool_frame [frame]:
  "RelayPool (AddTxs2Pool clk txs p) = RelayPool p"
  "poolLocked (AddTxs2Pool clk txs p) = poolLocked p"
  by (simp_all add: AddTxs2Pool_queue)

lemma AddTxs2Pool_Nil [simp]: "AddTxs2Pool clk [] p = p"
  by (simp add: AddTxs2Pool_def)

lemma stampTx_stamped: "0 < now \<Longrightarrow> Time (stampTx now tx) \<noteq> 0"
  by (simp add: stampTx_def)

lemma stampTx_keeps: "Time tx \<noteq> 0 \<Longrightarrow> stampTx now tx = tx"
  by (simp add: stampTx_def)

lemma AddTxs2Pool_stamped:
  assumes "\<forall>i. 0 < clk i" and "\<forall>t \<in> set (TxQueue p). Time t \<noteq> 0"
  shows "\<forall>t \<in> set (TxQueue (AddTxs2Pool clk txs p)). Time t \<noteq> 0"
proof
  fix t
  assume t: "t \<in> set (TxQueue (AddTxs2Pool clk txs p))"
  then consider "t \<in> set (TxQueue p)" | i tx where "t = stampTx (clk i) tx"
    by (auto simp: AddTxs2Pool_queue)
  then show "Time t \<noteq> 0"
    using assms by cases (auto simp: stampTx_stamped)
qed

text \<open>Packing by number takes the first \<open>max_txs\<close> transactions, or all of them.\<close>

lemma PackTxs_eq:
  assumes "length (TxQueue p) < 2 ^ 64"
  shows "PackTxs n p =
    (take (unat n) (TxQueue p), p\<lparr>TxQueue := drop (unat n) (TxQueue p)\<rparr>)"
proof -
  have len: "unat (word_of_nat (length (TxQueue p)) :: u64) = length (TxQueue p)"
    using assms by (simp add: unat_of_nat take_bit_nat_eq_self)
  show ?thesis
    by (auto simp: PackTxs_def Let_def len word_less_nat_alt)
qed

lemma PackTxs_split: "PackTxs n p = (ys, q) \<Longrightarrow> ys @ TxQueue q = TxQueue p"
  by (auto simp: PackTxs_def Let_def)

lemma PackTxs_frame [frame]:
  "RelayPool (snd (PackTxs n p)) = RelayPool p" "poolLocked (snd (PackTxs n p)) = poolLocked p"
  by (simp_all add: PackTxs_def Let_def)

lemma packScan_eq:
  assumes "0 \<le> max_bytes - cur"
  shows "packScan max_bytes cur idx txs =
         idx + min (length txs) (nat ((max_bytes - cur) div txSize))"
  using assms
proof (induction txs arbitrary: cur idx)
  case Nil
  then show ?case by simp
next
  case (Cons tx txs)
  show ?case
  proof (cases "cur + txSize > max_bytes")
    case True
    then have "(max_bytes - cur) div txSize = 0"
      using Cons.prems by (intro div_pos_pos_trivial) auto
    with True show ?thesis by simp
  next
    case False
    then have le: "0 \<le> max_bytes - (cur + txSize)" by simp
    have "(max_bytes - cur) div txSize = (max_bytes - (cur + txSize)) div txSize + 1"
      using div_add_self2 [of txSize "max_bytes - (cur + txSize)"]
      by (simp add: txSize_def algebra_simps)
    moreover have "0 \<le> (max_bytes - (cur + txSize)) div txSize"
      using le by (simp add: txSize_def pos_imp_zdiv_nonneg_iff)
    ultimately show ?thesis
      using False Cons.IH [OF le, of "Suc idx"] by (simp add: nat_add_distrib)
  qed
qed

lemma packScan_negative: "max_bytes < 0 \<Longrightarrow> packScan max_bytes 0 idx txs = idx"
  by (cases txs) (auto simp: txSize_def)

definition byteCap :: "int \<Rightarrow> nat" where
  "byteCap max_bytes = nat (max_bytes div txSize)"

lemma packScan_byteCap: "packScan max_bytes 0 0 txs = min (length txs) (byteCap max_bytes)"
proof (cases "0 \<le> max_bytes")
  case True
  then show ?thesis by (simp add: packScan_eq byteCap_def)
next
  case False
  then have "max_bytes div txSize < 0" by (simp add: txSize_def div_neg_pos_less0)
  with False show ?thesis by (simp add: packScan_negative byteCap_def)
qed

lemma take_min_length: "take (min (length xs) n) xs = take n xs"
  by (simp add: min_def)

lemma drop_min_length: "drop (min (length xs) n) xs = drop n xs"
  by (simp add: min_def)

lemma PackTxsWithBytes_eq:
  "PackTxsWithBytes m p =
   (take (byteCap m) (TxQueue p), p\<lparr>TxQueue := drop (byteCap m) (TxQueue p)\<rparr>)"
  by (simp add: PackTxsWithBytes_def Let_def packScan_byteCap take_min_length drop_min_length)

section \<open>The pool as a FIFO\<close>

text \<open>\<open>Some xs\<close> is an arrival of the transactions \<open>xs\<close>, \<open>None\<close> a packing.\<close>

fun drive ::
  "('a list \<Rightarrow> 'q \<Rightarrow> 'q) \<Rightarrow> ('q \<Rightarrow> 'a list \<times> 'q) \<Rightarrow> 'a list option list \<Rightarrow> 'q \<Rightarrow> 'a list \<times> 'q" where
  "drive add pack [] q = ([], q)"
| "drive add pack (Some xs # es) q = drive add pack es (add xs q)"
| "drive add pack (None # es) q =
     (let (ys, q') = pack q; (zs, q'') = drive add pack es q' in (ys @ zs, q''))"

fun arrivals :: "'a list option list \<Rightarrow> 'a list" where
  "arrivals [] = []"
| "arrivals (Some xs # es) = xs @ arrivals es"
| "arrivals (None # es) = arrivals es"

locale fifo_pool =
  fixes proj :: "'a \<Rightarrow> 'b"
    and items :: "'q \<Rightarrow> 'b list"
    and add :: "'a list \<Rightarrow> 'q \<Rightarrow> 'q"
    and pack :: "'q \<Rightarrow> 'a list \<times> 'q"
  assumes items_add: "items (add xs q) = items q @ map proj xs"
    and pack_split: "pack q = (ys, q') \<Longrightarrow> map proj ys @ items q' = items q"
begin

lemma drive_conserves:
  "drive add pack es q = (out, q') \<Longrightarrow>
   map proj out @ items q' = items q @ map proj (arrivals es)"
proof (induction es arbitrary: q out q')
  case Nil
  then show ?case by simp
next
  case (Cons e es)
  show ?case
  proof (cases e)
    case None
    obtain ys q1 zs q2 where p: "pack q = (ys, q1)" "drive add pack es q1 = (zs, q2)"
      by (metis surj_pair)
    with Cons.prems None have "out = ys @ zs" "q' = q2" by auto
    moreover from Cons.IH [OF p(2)] have "map proj zs @ items q2 = items q1 @ map proj (arrivals es)" .
    moreover from pack_split [OF p(1)] have "map proj ys @ items q1 = items q" .
    ultimately show ?thesis using None by (metis append.assoc arrivals.simps(3) map_append)
  next
    case (Some xs)
    with Cons.prems have "drive add pack es (add xs q) = (out, q')" by simp
    from Cons.IH [OF this] show ?thesis using Some by (simp add: items_add)
  qed
qed

end

text \<open>A pool whose packing takes exactly \<open>cap\<close> transactions when there are that many.\<close>

locale capped_pool = fifo_pool +
  fixes cap :: nat
  assumes pack_length: "pack q = (ys, q') \<Longrightarrow> length ys = min cap (length (items q))"
begin

lemma drain:
  "drive add pack (replicate m None) q = (out, q') \<Longrightarrow>
   map proj out = take (m * cap) (items q) \<and> items q' = drop (m * cap) (items q)"
proof (induction m arbitrary: q out q')
  case 0
  then show ?case by simp
next
  case (Suc m)
  obtain ys q1 zs q2 where p: "pack q = (ys, q1)" "drive add pack (replicate m None) q1 = (zs, q2)"
    by (metis surj_pair)
  with Suc.prems have out: "out = ys @ zs" "q' = q2" by auto
  have sp: "map proj ys @ items q1 = items q" using pack_split [OF p(1)] .
  have len: "length ys = min cap (length (items q))" using pack_length [OF p(1)] .
  have ys: "map proj ys = take cap (items q)"
    using sp len by (metis append_eq_conv_conj length_map min.commute take_all take_take linorder_le_cases)
  have q1: "items q1 = drop cap (items q)"
    using sp ys by (metis append_take_drop_id same_append_eq)
  from Suc.IH [OF p(2)] have "map proj zs = take (m * cap) (items q1)" "items q2 = drop (m * cap) (items q1)"
    by auto
  with out ys q1 show ?case
    by (simp add: take_add add.commute)
qed

lemma drain_empties:
  assumes "drive add pack (replicate m None) q = (out, q')" and "length (items q) \<le> m * cap"
  shows "items q' = [] \<and> map proj out = items q"
  using drain [OF assms(1)] assms(2) by simp

end

interpretation countp: fifo_pool untimed poolItems "AddTxs2Pool clk" "PackTxs n" for clk n
proof (unfold_locales, goal_cases)
  case (1 xs q)
  show ?case by (rule poolItems_AddTxs2Pool)
next
  case (2 q ys q')
  then have "ys @ TxQueue q' = TxQueue q" by (rule PackTxs_split)
  then show ?case by (metis map_append poolItems_def)
qed

interpretation bytep: capped_pool untimed poolItems "AddTxs2Pool clk" "PackTxsWithBytes m" "byteCap m"
  for clk m
proof (unfold_locales, goal_cases)
  case (1 xs q)
  show ?case by (rule poolItems_AddTxs2Pool)
next
  case (2 q ys q')
  then show ?case
    by (auto simp: PackTxsWithBytes_eq poolItems_def map_append [symmetric] simp del: map_append)
next
  case (3 q ys q')
  then show ?case by (auto simp: PackTxsWithBytes_eq poolItems_def)
qed

section \<open>The relay queues\<close>

lemma AddRelayTx_lookup:
  assumes "AddRelayTx tx sid p = Inr p'"
  shows "relayLookup p' s = (if s = sid then Some (getOr [] (relayLookup p sid) @ [tx]) else relayLookup p s)"
  using assms by (auto simp: AddRelayTx_def relayLookup_def Let_def getOr_def split: option.splits if_splits)

lemma AddRelayTx_ok: "RelayPool p \<noteq> None \<Longrightarrow> \<exists>p'. AddRelayTx tx sid p = Inr p' \<and> RelayPool p' \<noteq> None"
  by (auto simp: AddRelayTx_def Let_def)

lemma AddRelayTx_frame [frame]:
  "AddRelayTx tx sid p = Inr p' \<Longrightarrow> TxQueue p' = TxQueue p \<and> poolLocked p' = poolLocked p"
  by (auto simp: AddRelayTx_def Let_def split: option.splits)

lemma ClearRelayPool_then_AddRelayTx: "AddRelayTx tx sid (ClearRelayPool p) = Inl NilMapWrite"
  by (simp add: AddRelayTx_def ClearRelayPool_def)

lemma transferScan_eq:
  "transferScan addr txs (a, b) =
   (a @ filter (\<lambda>t. Sender t = addr) txs, b @ filter (\<lambda>t. Sender t \<noteq> addr) txs)"
  by (induction txs arbitrary: a b) auto

lemma transferRelay_eq:
  "distinct ks \<Longrightarrow> transferRelay addr pool ks (a, m) =
   (a @ concat (map (\<lambda>k. filter (\<lambda>t. Sender t = addr) (getOr [] (pool k))) ks),
    (\<lambda>k. if k \<in> set ks \<and> filter (\<lambda>t. Sender t \<noteq> addr) (getOr [] (pool k)) \<noteq> []
         then Some (filter (\<lambda>t. Sender t \<noteq> addr) (getOr [] (pool k))) else m k))"
proof (induction ks arbitrary: a m)
  case Nil
  then show ?case by simp
next
  case (Cons k ks)
  then show ?case by (simp add: transferScan_eq Let_def) (auto simp: fun_eq_iff)
qed

end
