(* ===== verification/Addressing.thy ===== *)
theory Addressing
  imports Prelude
begin

text \<open>
  The static placement of accounts (utils/utils_partition.go): \<open>Addr2Shard\<close> reads the
  last eight characters of an address as a hexadecimal number and takes it modulo the
  number of shards; \<open>ModBytes\<close> reduces a hash, read as a big-endian number. Of the
  standard library, \<open>strconv.ParseUint\<close> in base 16 and \<open>big.Int.SetBytes\<close>
  are written out.
\<close>

section \<open>Numbers in the standard library\<close>

definition hexDigit :: "char \<Rightarrow> nat option" where
  "hexDigit c =
     (let n = of_char c :: nat in
      if 48 \<le> n \<and> n \<le> 57 then Some (n - 48)
      else if 97 \<le> n \<and> n \<le> 102 then Some (n - 87)
      else if 65 \<le> n \<and> n \<le> 70 then Some (n - 55)
      else None)"

fun parseHexFrom :: "nat \<Rightarrow> string \<Rightarrow> nat option" where
  "parseHexFrom acc [] = Some acc"
| "parseHexFrom acc (c # cs) =
     (case hexDigit c of
        None \<Rightarrow> None
      | Some d \<Rightarrow> if 2 ^ 64 \<le> 16 * acc + d then None else parseHexFrom (16 * acc + d) cs)"

text \<open>\<open>strconv.ParseUint(s, 16, 64)\<close>; \<open>None\<close> is a non-nil error.\<close>

definition ParseUint16 :: "string \<Rightarrow> nat option" where
  "ParseUint16 s = (if s = [] then None else parseHexFrom 0 s)"

text \<open>Go's remainder truncates towards zero and panics on a zero divisor.\<close>

definition goRem :: "int \<Rightarrow> int \<Rightarrow> int res" where
  "goRem a b = (if b = 0 then Inl DivideByZero else Inr (sgn a * (\<bar>a\<bar> mod \<bar>b\<bar>)))"

text \<open>\<open>new(big.Int).SetBytes(data)\<close>\<close>

definition bigSetBytes :: "bytes \<Rightarrow> nat" where
  "bigSetBytes data = foldl (\<lambda>acc c. 256 * acc + of_char c) 0 data"

section \<open>Addr2Shard and ModBytes\<close>

definition last8 :: "address \<Rightarrow> string" where
  "last8 addr = (if length addr > 8 then drop (length addr - 8) addr else addr)"

text \<open>\<open>params.ShardNum\<close>, a global variable of the program, is the first argument.\<close>

definition Addr2Shard :: "int \<Rightarrow> address \<Rightarrow> int res" where
  "Addr2Shard ShardNum addr =
     (let last8_addr = (if length addr > 8 then drop (length addr - 8) addr else addr) in
      case ParseUint16 last8_addr of
        None \<Rightarrow> Inl LogPanic
      | Some num \<Rightarrow> goRem (int num) ShardNum)"

definition ModBytes :: "bytes \<Rightarrow> u64 \<Rightarrow> u64 res" where
  "ModBytes data m =
     (let num = int (bigSetBytes data); y = sint m in
      if y = 0 then Inl DivideByZero
      else Inr (word_of_int (num mod \<bar>y\<bar>)))"

section \<open>Lemmas\<close>

lemma hexDigit_less: "hexDigit c = Some d \<Longrightarrow> d < 16"
  by (auto simp: hexDigit_def Let_def split: if_splits)

lemma parseHexFrom_bound:
  "parseHexFrom acc s = Some n \<Longrightarrow> n < (acc + 1) * 16 ^ length s"
proof (induction s arbitrary: acc)
  case Nil
  then show ?case by simp
next
  case (Cons c cs)
  from Cons.prems obtain d where d: "hexDigit c = Some d"
    and rec: "parseHexFrom (16 * acc + d) cs = Some n"
    by (auto split: option.splits if_splits)
  have "n < (16 * acc + d + 1) * 16 ^ length cs"
    using Cons.IH [OF rec] by simp
  also have "\<dots> \<le> (16 * acc + 16) * 16 ^ length cs"
    using hexDigit_less [OF d] by (intro mult_le_mono1) linarith
  also have "\<dots> = (acc + 1) * 16 ^ length (c # cs)"
    by (simp add: algebra_simps)
  finally show ?case .
qed

lemma parseHexFrom_total:
  assumes "\<forall>c \<in> set s. hexDigit c \<noteq> None" and "(acc + 1) * 16 ^ length s \<le> 2 ^ 64"
  shows "\<exists>n. parseHexFrom acc s = Some n"
  using assms
proof (induction s arbitrary: acc)
  case Nil
  then show ?case by simp
next
  case (Cons c cs)
  from Cons.prems(1) obtain d where d: "hexDigit c = Some d" by auto
  have dl: "d < 16" using hexDigit_less [OF d] .
  have le: "(16 * acc + d + 1) * 16 ^ length cs \<le> 2 ^ 64"
  proof -
    have "(16 * acc + d + 1) * 16 ^ length cs \<le> (16 * acc + 16) * 16 ^ length cs"
      using dl by (intro mult_le_mono1) linarith
    also have "\<dots> = (acc + 1) * 16 ^ length (c # cs)" by (simp add: algebra_simps)
    finally show ?thesis using Cons.prems(2) by linarith
  qed
  have "16 * acc + d < (16 * acc + d + 1) * 16 ^ length cs"
  proof -
    have "1 \<le> (16::nat) ^ length cs" by simp
    then have "(16 * acc + d + 1) * 1 \<le> (16 * acc + d + 1) * 16 ^ length cs"
      by (rule mult_le_mono2)
    then show ?thesis by simp
  qed
  with le have "16 * acc + d < 2 ^ 64" by linarith
  moreover have "\<exists>n. parseHexFrom (16 * acc + d) cs = Some n"
    using Cons.IH [of "16 * acc + d"] Cons.prems(1) le by simp
  ultimately show ?case using d by simp
qed

lemma parseHexFrom_digits:
  "parseHexFrom acc s = Some n \<Longrightarrow> \<forall>c \<in> set s. hexDigit c \<noteq> None"
  by (induction s arbitrary: acc) (auto split: option.splits if_splits)

lemma length_last8: "length (last8 addr) \<le> 8"
  by (simp add: last8_def)

lemma Addr2Shard_alt:
  "Addr2Shard ShardNum addr =
     (case ParseUint16 (last8 addr) of None \<Rightarrow> Inl LogPanic | Some num \<Rightarrow> goRem (int num) ShardNum)"
  by (simp add: Addr2Shard_def last8_def)

lemma goRem_range: "goRem (int n) b = Inr r \<Longrightarrow> 0 \<le> r \<and> r < \<bar>b\<bar>"
  by (auto simp: goRem_def sgn_if split: if_splits)

lemma last8_suffix: "length s = 8 \<Longrightarrow> last8 (p @ s) = s"
  by (simp add: last8_def)

text \<open>\<open>ParseUint\<close> accepts what \<open>Addr2Shard\<close> hands it exactly when it is
  non-empty and hexadecimal: eight digits cannot overflow.\<close>

lemma ParseUint16_last8_iff:
  "(\<exists>n. ParseUint16 (last8 addr) = Some n) \<longleftrightarrow>
   last8 addr \<noteq> [] \<and> (\<forall>c \<in> set (last8 addr). hexDigit c \<noteq> None)"
proof
  assume "\<exists>n. ParseUint16 (last8 addr) = Some n"
  then show "last8 addr \<noteq> [] \<and> (\<forall>c \<in> set (last8 addr). hexDigit c \<noteq> None)"
    using parseHexFrom_digits by (auto simp: ParseUint16_def split: if_splits)
next
  assume hex: "last8 addr \<noteq> [] \<and> (\<forall>c \<in> set (last8 addr). hexDigit c \<noteq> None)"
  have "(16::nat) ^ length (last8 addr) \<le> 16 ^ 8"
    using length_last8 [of addr] by (intro power_increasing) auto
  then have "(0 + 1) * (16::nat) ^ length (last8 addr) \<le> 2 ^ 64"
    by simp
  then have "\<exists>n. parseHexFrom 0 (last8 addr) = Some n"
    using hex parseHexFrom_total by blast
  then show "\<exists>n. ParseUint16 (last8 addr) = Some n"
    using hex by (simp add: ParseUint16_def)
qed

lemma Addr2Shard_range:
  assumes "Addr2Shard n a = Inr s" and "0 < n"
  shows "0 \<le> s \<and> s < n"
  using assms by (auto simp: Addr2Shard_alt split: option.splits dest!: goRem_range)

lemma bigSetBytes_snoc: "bigSetBytes (xs @ [c]) = 256 * bigSetBytes xs + of_char c"
  by (simp add: bigSetBytes_def)

lemma bigSetBytes_append_two:
  "bigSetBytes (xs @ [c, d]) mod 2048 = bigSetBytes [c, d] mod 2048"
proof -
  have "bigSetBytes (xs @ [c, d]) = 65536 * bigSetBytes xs + bigSetBytes [c, d]"
    using bigSetBytes_snoc [of "xs @ [c]" d] bigSetBytes_snoc [of xs c]
    by (simp add: bigSetBytes_def)
  also have "\<dots> = 2048 * (32 * bigSetBytes xs) + bigSetBytes [c, d]" by simp
  finally show ?thesis by (simp only: mod_mult_self4)
qed

lemma ModBytes_2048:
  "ModBytes data 2048 = Inr (word_of_int (int (bigSetBytes data) mod 2048))"
  by (simp add: ModBytes_def Let_def)

end
