(* ===== verification/StateTrie.thy ===== *)
theory StateTrie
  imports BlockStorage TxPools Addressing
begin

text \<open>
  Transaction execution on the state trie (chain/blockchain.go, the state part): the
  chain's record, the partition map, and \<open>GetUpdateStatusTrie\<close>, which executes the
  half of each transaction that belongs to this shard. The second half of the theory is
  its abstract specification, a ledger of balances in which every account starts with
  \<open>Init_Balance\<close>, and the refinement of the one to the other.
\<close>

record ('d, 's) BlockChain =
  triedb :: 'd
  ChainCfg :: ChainConfig
  CurrentBlock :: Block
  Storage :: 's
  Txpool :: TxPool
  PartitionMap :: "address \<rightharpoonup> u64"

section \<open>The partition map\<close>

definition Update_PartitionMap ::
  "address \<Rightarrow> u64 \<Rightarrow> ('d, 's) BlockChain \<Rightarrow> ('d, 's) BlockChain" where
  "Update_PartitionMap key val bc = bc\<lparr>PartitionMap := (PartitionMap bc)(key \<mapsto> val)\<rparr>"

definition Get_PartitionMap :: "params \<Rightarrow> ('d, 's) BlockChain \<Rightarrow> address \<Rightarrow> u64 res" where
  "Get_PartitionMap cfg bc key =
     (case PartitionMap bc key of
        None \<Rightarrow> bindR (Addr2Shard (ShardNum cfg) key) (\<lambda>s. Inr (word_of_int s))
      | Some v \<Rightarrow> Inr v)"

section \<open>GetUpdateStatusTrie\<close>

text \<open>A missing account is created with the initial balance and the index as its nonce.\<close>

definition newAccount :: "nat \<Rightarrow> AccountState" where
  "newAccount i = \<lparr>as_AcAddress = '''', as_Nonce = word_of_nat i, Balance = Init_Balance,
     StorageRoot = '''', CodeHash = ''''\<rparr>"

definition loadAccount :: "('t, 'd, 's) env \<Rightarrow> nat \<Rightarrow> 't \<Rightarrow> address \<Rightarrow> AccountState res" where
  "loadAccount E i st addr =
     (case trieGet E st addr of
        None \<Rightarrow> Inr (newAccount i)
      | Some enc \<Rightarrow> ofOption LogPanic (decAS E enc))"

text \<open>
  The sender's half: \<open>None\<close> is the \<open>continue\<close> of the code. The partition map is
  read only when the transaction is not relayed.
\<close>

definition senderHalf ::
  "('t, 'd, 's) env \<Rightarrow> params \<Rightarrow> ('d, 's) BlockChain \<Rightarrow> nat \<Rightarrow> Transaction \<Rightarrow> 't \<times> nat \<Rightarrow> ('t \<times> nat) option res" where
  "senderHalf E cfg bc i tx stc =
     (if Relayed tx then Inr (Some stc)
      else bindR (Get_PartitionMap cfg bc (Sender tx)) (\<lambda>sid.
        if sid = cc_ShardID (ChainCfg bc) \<or> HasBroker tx then
          bindR (loadAccount E i (fst stc) (Sender tx)) (\<lambda>s_state.
            if Balance s_state < Value tx then Inr None
            else Inr (Some (trieUpdate E (fst stc) (Sender tx) (encAS E (snd (Deduct s_state (Value tx)))),
                            Suc (snd stc))))
        else Inr (Some stc)))"

definition recipientHalf ::
  "('t, 'd, 's) env \<Rightarrow> params \<Rightarrow> ('d, 's) BlockChain \<Rightarrow> nat \<Rightarrow> Transaction \<Rightarrow> 't \<times> nat \<Rightarrow> ('t \<times> nat) res" where
  "recipientHalf E cfg bc i tx stc =
     bindR (Get_PartitionMap cfg bc (Recipient tx)) (\<lambda>rid.
       if rid = cc_ShardID (ChainCfg bc) \<or> HasBroker tx then
         bindR (loadAccount E i (fst stc) (Recipient tx)) (\<lambda>r_state.
           Inr (trieUpdate E (fst stc) (Recipient tx) (encAS E (Deposit r_state (Value tx))),
                Suc (snd stc)))
       else Inr stc)"

definition execTx ::
  "('t, 'd, 's) env \<Rightarrow> params \<Rightarrow> ('d, 's) BlockChain \<Rightarrow> 't \<times> nat \<Rightarrow> nat \<times> Transaction \<Rightarrow> ('t \<times> nat) res" where
  "execTx E cfg bc stc itx =
     bindR (senderHalf E cfg bc (fst itx) (snd itx) stc) (\<lambda>r.
       case r of
         None \<Rightarrow> Inr stc
       | Some stc' \<Rightarrow> recipientHalf E cfg bc (fst itx) (snd itx) stc')"

definition execTxs ::
  "('t, 'd, 's) env \<Rightarrow> params \<Rightarrow> ('d, 's) BlockChain \<Rightarrow> Transaction list \<Rightarrow> 't \<Rightarrow> ('t \<times> nat) res" where
  "execTxs E cfg bc txs st = foldR (execTx E cfg bc) (st, 0) (enumerate 0 txs)"

text \<open>Committing writes the trie's node set, if any, to the database.\<close>

definition commitTrie :: "('t, 'd, 's) env \<Rightarrow> 't \<Rightarrow> 'd \<Rightarrow> (bytes \<times> bool \<times> 'd) res" where
  "commitTrie E st db =
     (let (rt, ns) = trieCommit E st in
      if ns then
        bindR (ofOption LogPanic (dbUpdate E db st)) (\<lambda>db.
        bindR (ofOption LogPanic (dbCommit E db rt)) (\<lambda>db. Inr (rt, True, db)))
      else Inr (rt, False, db))"

definition GetUpdateStatusTrie ::
  "('t, 'd, 's) env \<Rightarrow> params \<Rightarrow> Transaction list \<Rightarrow> ('d, 's) BlockChain \<Rightarrow> (bytes \<times> ('d, 's) BlockChain) res" where
  "GetUpdateStatusTrie E cfg txs bc =
     (let root = toHash E (StateRoot (Header (CurrentBlock bc))) in
      if txs = [] then Inr (root, bc)
      else case trieNew E root (triedb bc) of
        None \<Rightarrow> Inl LogPanic
      | Some st \<Rightarrow>
          bindR (execTxs E cfg bc txs st) (\<lambda>(st, cnt).
            if cnt = 0 then Inr (root, bc)
            else bindR (commitTrie E st (triedb bc)) (\<lambda>(rt, ns, db).
                   Inr (rt, bc\<lparr>triedb := db\<rparr>))))"

section \<open>Accounts moved between shards\<close>

definition addAccountStep ::
  "('t, 'd, 's) env \<Rightarrow> params \<Rightarrow> ('d, 's) BlockChain \<Rightarrow> AccountState list \<Rightarrow> 't \<Rightarrow> nat \<times> address \<Rightarrow> 't res" where
  "addAccountStep E cfg bc as st iaddr =
     bindR (Get_PartitionMap cfg bc (snd iaddr)) (\<lambda>sid.
       if sid = cc_ShardID (ChainCfg bc) then
         bindR (nthR as (fst iaddr)) (\<lambda>a.
           Inr (trieUpdate E st (snd iaddr)
                  (encAS E \<lparr>as_AcAddress = '''', as_Nonce = as_Nonce a, Balance = Balance a,
                            StorageRoot = '''', CodeHash = ''''\<rparr>)))
       else Inr st)"

definition addAccountsTrie ::
  "('t, 'd, 's) env \<Rightarrow> params \<Rightarrow> ('d, 's) BlockChain \<Rightarrow> address list \<Rightarrow> AccountState list \<Rightarrow> 't \<Rightarrow> 't res" where
  "addAccountsTrie E cfg bc ac as st = foldR (addAccountStep E cfg bc as) st (enumerate 0 ac)"

definition FetchAccounts ::
  "('t, 'd, 's) env \<Rightarrow> ('d, 's) BlockChain \<Rightarrow> address list \<Rightarrow> AccountState list res" where
  "FetchAccounts E bc addrs =
     (case trieNew E (toHash E (StateRoot (Header (CurrentBlock bc)))) (triedb bc) of
        None \<Rightarrow> Inl LogPanic
      | Some st \<Rightarrow>
          foldR (\<lambda>res addr. bindR (loadAccount E 0 st addr) (\<lambda>a. Inr (res @ [a]))) [] addrs)"

section \<open>The abstract ledger\<close>

text \<open>The balance the program sees: an absent account has the initial balance.\<close>

definition balOf :: "('t, 'd, 's) env \<Rightarrow> 't \<Rightarrow> address \<Rightarrow> int" where
  "balOf E st a =
     (case trieGet E st a of
        None \<Rightarrow> Init_Balance
      | Some enc \<Rightarrow> (case decAS E enc of None \<Rightarrow> 0 | Some s \<Rightarrow> Balance s))"

definition wfTrie :: "('t, 'd, 's) env \<Rightarrow> 't \<Rightarrow> bool" where
  "wfTrie E st \<longleftrightarrow> (\<forall>a enc. trieGet E st a = Some enc \<longrightarrow> decAS E enc \<noteq> None)"

text \<open>
  The specification: \<open>home\<close> gives the shard of an account. A transaction that is not
  relayed first debits its sender, if the sender is local (or a broker is involved), and
  is dropped whole if the balance is short; then it credits its recipient, if local.
\<close>

definition debits :: "(address \<Rightarrow> bool) \<Rightarrow> Transaction \<Rightarrow> bool" where
  "debits home tx \<longleftrightarrow> \<not> Relayed tx \<and> (home (Sender tx) \<or> HasBroker tx)"

definition credits :: "(address \<Rightarrow> bool) \<Rightarrow> Transaction \<Rightarrow> bool" where
  "credits home tx \<longleftrightarrow> home (Recipient tx) \<or> HasBroker tx"

definition debit :: "(address \<Rightarrow> bool) \<Rightarrow> (address \<Rightarrow> int) \<Rightarrow> Transaction \<Rightarrow> address \<Rightarrow> int" where
  "debit home L tx = (if debits home tx then L(Sender tx := L (Sender tx) - Value tx) else L)"

definition credit :: "(address \<Rightarrow> bool) \<Rightarrow> (address \<Rightarrow> int) \<Rightarrow> Transaction \<Rightarrow> address \<Rightarrow> int" where
  "credit home L tx = (if credits home tx then L(Recipient tx := L (Recipient tx) + Value tx) else L)"

definition ledgerStep :: "(address \<Rightarrow> bool) \<Rightarrow> (address \<Rightarrow> int) \<Rightarrow> Transaction \<Rightarrow> address \<Rightarrow> int" where
  "ledgerStep home L tx =
     (if debits home tx \<and> L (Sender tx) < Value tx then L
      else credit home (debit home L tx) tx)"

definition isHome :: "params \<Rightarrow> ('d, 's) BlockChain \<Rightarrow> address \<Rightarrow> bool" where
  "isHome cfg bc a \<longleftrightarrow> Get_PartitionMap cfg bc a = Inr (cc_ShardID (ChainCfg bc))"

section \<open>Refinement\<close>

lemma loadAccount_balance:
  assumes "loadAccount E i st a = Inr s"
  shows "Balance s = balOf E st a"
  using assms by (auto simp: loadAccount_def balOf_def newAccount_def res_simps split: option.splits)

lemma loadAccount_ok: "wfTrie E st \<Longrightarrow> \<exists>s. loadAccount E i st a = Inr s"
  unfolding loadAccount_def wfTrie_def by (cases "trieGet E st a") force+

lemma balOf_update:
  assumes "trie_laws E" and "account_codec E"
  shows "balOf E (trieUpdate E st k (encAS E s)) = (balOf E st)(k := Balance s)"
  using assms by (auto simp: balOf_def trie_lawsD account_codecD fun_eq_iff)

lemma wfTrie_update:
  assumes "trie_laws E" and "account_codec E" and "wfTrie E st"
  shows "wfTrie E (trieUpdate E st k (encAS E s))"
  using assms by (auto simp: wfTrie_def trie_lawsD account_codecD)

lemma wfTrie_empty: "trie_laws E \<Longrightarrow> wfTrie E (trieEmpty E)"
  by (simp add: wfTrie_def trie_lawsD)

text \<open>Under \<open>trieLawful\<close> an execution step is a step of the ledger.\<close>

definition trieLawful :: "('t, 'd, 's) env \<Rightarrow> bool" where
  "trieLawful E \<longleftrightarrow> trie_laws E \<and> account_codec E"

lemma trieLawfulD: "trieLawful E \<Longrightarrow> trie_laws E" "trieLawful E \<Longrightarrow> account_codec E"
  by (simp_all add: trieLawful_def)

lemmas trie_update_facts = balOf_update [OF trieLawfulD] wfTrie_update [OF trieLawfulD]

lemma senderHalf_ledger:
  assumes "trieLawful E" and "wfTrie E (fst stc)" and "senderHalf E cfg bc i tx stc = Inr r"
  shows "case r of
           None \<Rightarrow> debits (isHome cfg bc) tx \<and> balOf E (fst stc) (Sender tx) < Value tx
         | Some stc' \<Rightarrow>
             \<not> (debits (isHome cfg bc) tx \<and> balOf E (fst stc) (Sender tx) < Value tx) \<and>
             balOf E (fst stc') = debit (isHome cfg bc) (balOf E (fst stc)) tx \<and> wfTrie E (fst stc')"
proof (cases "Relayed tx")
  case True
  with assms show ?thesis by (auto simp: senderHalf_def debits_def debit_def)
next
  case False
  with assms(3) obtain sid where sid: "Get_PartitionMap cfg bc (Sender tx) = Inr sid"
    by (auto simp: senderHalf_def res_simps)
  have home: "isHome cfg bc (Sender tx) \<longleftrightarrow> sid = cc_ShardID (ChainCfg bc)"
    using sid by (simp add: isHome_def)
  show ?thesis
  proof (cases "sid = cc_ShardID (ChainCfg bc) \<or> HasBroker tx")
    case local: True
    then have deb: "debits (isHome cfg bc) tx" using False home by (simp add: debits_def)
    obtain s where s: "loadAccount E i (fst stc) (Sender tx) = Inr s"
      using loadAccount_ok [OF assms(2)] by blast
    have bal: "Balance s = balOf E (fst stc) (Sender tx)" using loadAccount_balance [OF s] .
    show ?thesis
    proof (cases "Balance s < Value tx")
      case True
      then have "r = None" using assms(3) False local sid s by (auto simp: senderHalf_def)
      with deb bal True show ?thesis by simp
    next
      case enough: False
      then have "r = Some (trieUpdate E (fst stc) (Sender tx) (encAS E (s\<lparr>Balance := Balance s - Value tx\<rparr>)), Suc (snd stc))"
        using assms(3) False local sid s by (auto simp: senderHalf_def Deduct_def)
      with deb bal enough assms(1,2) show ?thesis
        by (simp add: trie_update_facts debit_def)
    qed
  next
    case False
    then have "r = Some stc" using assms(3) \<open>\<not> Relayed tx\<close> sid by (auto simp: senderHalf_def)
    moreover have "\<not> debits (isHome cfg bc) tx" using False home by (simp add: debits_def)
    ultimately show ?thesis using assms(2) by (simp add: debit_def)
  qed
qed

lemma recipientHalf_ledger:
  assumes "trieLawful E" and "wfTrie E (fst stc)" and "recipientHalf E cfg bc i tx stc = Inr stc'"
  shows "balOf E (fst stc') = credit (isHome cfg bc) (balOf E (fst stc)) tx \<and> wfTrie E (fst stc')"
proof -
  from assms(3) obtain rid where rid: "Get_PartitionMap cfg bc (Recipient tx) = Inr rid"
    by (auto simp: recipientHalf_def res_simps)
  have home: "isHome cfg bc (Recipient tx) \<longleftrightarrow> rid = cc_ShardID (ChainCfg bc)"
    using rid by (simp add: isHome_def)
  show ?thesis
  proof (cases "rid = cc_ShardID (ChainCfg bc) \<or> HasBroker tx")
    case True
    obtain s where s: "loadAccount E i (fst stc) (Recipient tx) = Inr s"
      using loadAccount_ok [OF assms(2)] by blast
    have "fst stc' = trieUpdate E (fst stc) (Recipient tx) (encAS E (Deposit s (Value tx)))"
      using assms(3) rid True s by (auto simp: recipientHalf_def)
    with True home assms(1,2) loadAccount_balance [OF s] show ?thesis
      by (simp add: trie_update_facts credit_def credits_def Deposit_def)
  next
    case False
    then have "stc' = stc" using assms(3) rid by (auto simp: recipientHalf_def)
    with False home assms(2) show ?thesis by (simp add: credit_def credits_def)
  qed
qed

lemma execTx_ledger:
  assumes "trieLawful E" and "wfTrie E (fst stc)" and "execTx E cfg bc stc itx = Inr stc'"
  shows "balOf E (fst stc') = ledgerStep (isHome cfg bc) (balOf E (fst stc)) (snd itx) \<and> wfTrie E (fst stc')"
proof -
  from assms(3) obtain r where r: "senderHalf E cfg bc (fst itx) (snd itx) stc = Inr r"
    and rest: "(case r of None \<Rightarrow> Inr stc | Some s \<Rightarrow> recipientHalf E cfg bc (fst itx) (snd itx) s) = Inr stc'"
    by (auto simp: execTx_def res_simps)
  note snd = senderHalf_ledger [OF assms(1,2) r]
  show ?thesis
  proof (cases r)
    case None
    with snd rest assms(2) show ?thesis by (simp add: ledgerStep_def)
  next
    case (Some s)
    with snd have s: "wfTrie E (fst s)"
      "balOf E (fst s) = debit (isHome cfg bc) (balOf E (fst stc)) (snd itx)"
      "\<not> (debits (isHome cfg bc) (snd itx) \<and> balOf E (fst stc) (Sender (snd itx)) < Value (snd itx))"
      by auto
    have "recipientHalf E cfg bc (fst itx) (snd itx) s = Inr stc'" using rest Some by simp
    note recipientHalf_ledger [OF assms(1) s(1) this]
    moreover have "ledgerStep (isHome cfg bc) (balOf E (fst stc)) (snd itx) =
        credit (isHome cfg bc) (balOf E (fst s)) (snd itx)"
      using s(2,3) by (auto simp: ledgerStep_def)
    ultimately show ?thesis by simp
  qed
qed

lemma foldR_execTx_ledger:
  assumes "trieLawful E" and "wfTrie E (fst stc)"
    and "foldR (execTx E cfg bc) stc (enumerate k txs) = Inr stc'"
  shows "balOf E (fst stc') = foldl (ledgerStep (isHome cfg bc)) (balOf E (fst stc)) txs \<and> wfTrie E (fst stc')"
  using assms
proof (induction txs arbitrary: k stc)
  case Nil
  then show ?case by simp
next
  case (Cons tx txs)
  from Cons.prems(3) obtain s where s: "execTx E cfg bc stc (k, tx) = Inr s"
    "foldR (execTx E cfg bc) s (enumerate (Suc k) txs) = Inr stc'"
    by (auto simp: res_simps)
  from execTx_ledger [OF Cons.prems(1,2) s(1)]
  have "balOf E (fst s) = ledgerStep (isHome cfg bc) (balOf E (fst stc)) tx" "wfTrie E (fst s)"
    by auto
  with Cons.IH [OF Cons.prems(1) _ s(2)] show ?case by simp
qed

lemma execTxs_ledger:
  assumes "trieLawful E" and "wfTrie E st" and "execTxs E cfg bc txs st = Inr (st', cnt)"
  shows "balOf E st' = foldl (ledgerStep (isHome cfg bc)) (balOf E st) txs" and "wfTrie E st'"
  using foldR_execTx_ledger [of E "(st, 0)" cfg bc 0 txs "(st', cnt)"] assms
  by (auto simp: execTxs_def)

section \<open>Facts on the ledger\<close>

lemma ledgerStep_other:
  "a \<noteq> Sender tx \<Longrightarrow> a \<noteq> Recipient tx \<Longrightarrow> ledgerStep home L tx a = L a"
  by (simp add: ledgerStep_def debit_def credit_def)

lemma ledgerStep_nonneg:
  assumes "\<forall>a. 0 \<le> L a" and "0 \<le> Value tx"
  shows "0 \<le> ledgerStep home L tx a"
proof -
  have "0 \<le> debit home L tx b" if "\<not> (debits home tx \<and> L (Sender tx) < Value tx)" for b
    using assms that by (auto simp: debit_def)
  with assms show ?thesis by (auto simp: ledgerStep_def credit_def)
qed

lemma foldl_ledgerStep_nonneg:
  "\<forall>a. 0 \<le> L a \<Longrightarrow> \<forall>tx \<in> set txs. 0 \<le> Value tx \<Longrightarrow> 0 \<le> foldl (ledgerStep home) L txs a"
  by (induction txs arbitrary: L) (auto simp: ledgerStep_nonneg)

text \<open>What a transaction adds to the total of a set of accounts that holds both its ends.\<close>

definition minted :: "(address \<Rightarrow> bool) \<Rightarrow> (address \<Rightarrow> int) \<Rightarrow> Transaction \<Rightarrow> int" where
  "minted home L tx =
     (if debits home tx \<and> L (Sender tx) < Value tx then 0
      else (if credits home tx then Value tx else 0) - (if debits home tx then Value tx else 0))"

lemma sum_fun_upd:
  fixes L :: "address \<Rightarrow> int"
  assumes "finite A" and "k \<in> A"
  shows "sum (L(k := v)) A = sum L A - L k + v"
proof -
  have "sum (L(k := v)) A = v + sum (L(k := v)) (A - {k})"
    using assms by (simp add: sum.remove)
  also have "sum (L(k := v)) (A - {k}) = sum L (A - {k})"
    by (rule sum.cong) auto
  also have "sum L (A - {k}) = sum L A - L k"
    using assms by (simp add: sum_diff1)
  finally show ?thesis by simp
qed

lemma ledgerStep_sum:
  assumes "finite A" and "Sender tx \<in> A" and "Recipient tx \<in> A"
  shows "sum (ledgerStep home L tx) A = sum L A + minted home L tx"
  by (simp add: ledgerStep_def minted_def credit_def debit_def
        sum_fun_upd [OF assms(1,2)] sum_fun_upd [OF assms(1,3)] del: fun_upd_apply)

lemma minted_inner: "debits home tx = credits home tx \<Longrightarrow> minted home L tx = 0"
  by (simp add: minted_def)

lemma foldl_ledgerStep_conserves:
  assumes "finite A"
    and "\<forall>tx \<in> set txs. Sender tx \<in> A \<and> Recipient tx \<in> A \<and> debits home tx = credits home tx"
  shows "sum (foldl (ledgerStep home) L txs) A = sum L A"
  using assms
proof (induction txs arbitrary: L)
  case Nil
  then show ?case by simp
next
  case (Cons tx txs)
  then show ?case by (simp add: ledgerStep_sum minted_inner)
qed

section \<open>States in the database\<close>

text \<open>The balances the database holds under a root.\<close>

definition stateAt :: "('t, 'd, 's) env \<Rightarrow> 'd \<Rightarrow> bytes \<Rightarrow> (address \<Rightarrow> int) option" where
  "stateAt E d root = map_option (balOf E) (trieNew E root d)"

definition wfDb :: "('t, 'd, 's) env \<Rightarrow> 'd \<Rightarrow> bool" where
  "wfDb E d \<longleftrightarrow> (\<forall>r t. trieNew E r d = Some t \<longrightarrow> wfTrie E t)"

lemma balOf_cong: "trieGet E t = trieGet E t' \<Longrightarrow> balOf E t = balOf E t'"
  by (simp add: balOf_def fun_eq_iff)

lemma wfTrie_cong: "trieGet E t = trieGet E t' \<Longrightarrow> wfTrie E t = wfTrie E t'"
  by (simp add: wfTrie_def)

lemma commitTrie_state:
  assumes laws: "triedb_laws E" and open0: "trieNew E r d = Some t0" and reach: "reachT E t0 t"
    and wf: "wfTrie E t" "wfDb E d" and run: "commitTrie E t d = Inr (rt, ns, d')"
  shows "stateAt E d' rt = Some (balOf E t) \<and> wfDb E d' \<and> toHash E rt = rt"
proof -
  obtain ns0 where c: "trieCommit E t = (rt, ns0)" and ns: "ns0 = ns"
    using run by (cases "trieCommit E t") (auto simp: commitTrie_def res_simps split: if_splits)
  have rt: "toHash E rt = rt" using triedb_lawsD(5) [OF laws c] .
  show ?thesis
  proof (cases ns)
    case True
    with run c ns obtain d1 where d1: "dbUpdate E d t = Some d1" "dbCommit E d1 rt = Some d'"
      by (auto simp: commitTrie_def res_simps)
    have c': "trieCommit E t = (rt, True)" using c ns True by simp
    obtain t' where t': "trieNew E rt d' = Some t'" "trieGet E t' = trieGet E t"
      using triedb_lawsD(1) [OF laws c' d1] by blast
    have "wfTrie E u" if "trieNew E q d' = Some u" for q u
    proof (cases "q = rt")
      case True
      with that t' have "u = t'" by simp
      with wf(1) wfTrie_cong [OF t'(2)] show ?thesis by simp
    next
      case False
      then have "trieNew E q d = Some u" using triedb_lawsD(2) [OF laws c' d1] that by simp
      with wf(2) show ?thesis by (auto simp: wfDb_def)
    qed
    with t' rt show ?thesis
      by (simp add: stateAt_def wfDb_def balOf_cong [OF t'(2)])
  next
    case False
    with run c ns have "d' = d" by (auto simp: commitTrie_def)
    moreover have "trieCommit E t = (rt, False)" using c ns False by simp
    then obtain t' where "trieNew E rt d = Some t'" "trieGet E t' = trieGet E t"
      using triedb_lawsD(3) [OF laws open0 reach] by blast
    ultimately show ?thesis
      using wf(2) rt by (simp add: stateAt_def balOf_cong [of E t' t])
  qed
qed

text \<open>What a run of the transactions keeps: reachability, and no change while the count is 0.\<close>

definition grown :: "('t, 'd, 's) env \<Rightarrow> 't \<Rightarrow> 't \<times> nat \<Rightarrow> bool" where
  "grown E t0 stc \<longleftrightarrow> reachT E t0 (fst stc) \<and> (snd stc = 0 \<longrightarrow> fst stc = t0)"

lemma grown_update: "trieLawful E \<Longrightarrow> grown E t0 stc \<Longrightarrow> grown E t0 (trieUpdate E (fst stc) k (encAS E a), Suc n)"
  using account_codecD(2) [OF trieLawfulD(2), of E] by (simp add: grown_def reachT_update)

lemma senderHalf_cases:
  assumes "senderHalf E cfg bc i tx stc = Inr (Some q)"
  shows "q = stc \<or> (\<exists>k a. q = (trieUpdate E (fst stc) k (encAS E a), Suc (snd stc)))"
proof (cases "Relayed tx")
  case True
  with assms show ?thesis by (simp add: senderHalf_def)
next
  case False
  with assms obtain sid where sid: "Get_PartitionMap cfg bc (Sender tx) = Inr sid"
    by (auto simp: senderHalf_def res_simps)
  show ?thesis
  proof (cases "sid = cc_ShardID (ChainCfg bc) \<or> HasBroker tx")
    case True
    with assms False sid obtain s where "loadAccount E i (fst stc) (Sender tx) = Inr s"
      by (cases "loadAccount E i (fst stc) (Sender tx)") (simp_all add: senderHalf_def)
    with assms True False sid have
      "q = (trieUpdate E (fst stc) (Sender tx) (encAS E (snd (Deduct s (Value tx)))), Suc (snd stc))"
      by (simp add: senderHalf_def split: if_splits)
    then show ?thesis by blast
  next
    case False
    with assms \<open>\<not> Relayed tx\<close> sid show ?thesis by (simp add: senderHalf_def)
  qed
qed

lemma recipientHalf_cases:
  assumes "recipientHalf E cfg bc i tx stc = Inr q"
  shows "q = stc \<or> (\<exists>k a. q = (trieUpdate E (fst stc) k (encAS E a), Suc (snd stc)))"
  using assms by (auto simp: recipientHalf_def res_simps split: if_splits)

lemma execTx_reach:
  assumes "trieLawful E" and "execTx E cfg bc stc itx = Inr stc'" and "grown E t0 stc"
  shows "grown E t0 stc'"
proof -
  from assms(2) obtain r where r: "senderHalf E cfg bc (fst itx) (snd itx) stc = Inr r"
    and rest: "(case r of None \<Rightarrow> Inr stc | Some s \<Rightarrow> recipientHalf E cfg bc (fst itx) (snd itx) s) = Inr stc'"
    by (auto simp: execTx_def res_simps)
  show ?thesis
  proof (cases r)
    case None
    with rest assms(3) show ?thesis by simp
  next
    case (Some s)
    then have "grown E t0 s"
      using senderHalf_cases r grown_update [OF assms(1,3)] assms(3) by blast
    moreover have "recipientHalf E cfg bc (fst itx) (snd itx) s = Inr stc'"
      using Some rest by simp
    ultimately show ?thesis
      using recipientHalf_cases grown_update [OF assms(1)] by metis
  qed
qed

lemma execTxs_reach:
  assumes "trieLawful E" and "execTxs E cfg bc txs t0 = Inr (t, cnt)"
  shows "reachT E t0 t \<and> (cnt = 0 \<longrightarrow> t = t0)"
proof -
  have "grown E t0 (t, cnt)"
    using foldR_invariant [of "enumerate 0 txs" "grown E t0" "execTx E cfg bc" "(t0, 0)" "(t, cnt)"]
      execTx_reach [OF assms(1)] assms(2) by (simp add: execTxs_def grown_def reachT_refl)
  then show ?thesis by (simp add: grown_def)
qed

text \<open>
  \<open>GetUpdateStatusTrie\<close> implements the ledger: the root it returns opens, in the database
  it leaves behind, to the balances the ledger computes.
\<close>

lemma GetUpdateStatusTrie_state:
  assumes laws: "trieLawful E" "triedb_laws E" and wf: "wfDb E (triedb bc)"
    and start: "stateAt E (triedb bc) (toHash E (StateRoot (Header (CurrentBlock bc)))) = Some L"
    and run: "GetUpdateStatusTrie E cfg txs bc = Inr (rt, bc')"
  shows "stateAt E (triedb bc') rt = Some (foldl (ledgerStep (isHome cfg bc)) L txs) \<and>
         wfDb E (triedb bc') \<and> toHash E rt = rt \<and> bc' = bc\<lparr>triedb := triedb bc'\<rparr>"
proof (cases "txs = []")
  case True
  with run start wf show ?thesis
    by (auto simp: GetUpdateStatusTrie_def triedb_lawsD(4) [OF laws(2)])
next
  case False
  define root where "root = toHash E (StateRoot (Header (CurrentBlock bc)))"
  obtain st where st: "trieNew E root (triedb bc) = Some st" "L = balOf E st"
    using start by (auto simp: stateAt_def root_def)
  from run False st(1) obtain t cnt where ex: "execTxs E cfg bc txs st = Inr (t, cnt)"
    and rest: "(if cnt = 0 then Inr (root, bc)
       else bindR (commitTrie E t (triedb bc)) (\<lambda>(rt, ns, db). Inr (rt, bc\<lparr>triedb := db\<rparr>))) = Inr (rt, bc')"
    unfolding root_def by (auto simp: GetUpdateStatusTrie_def res_simps)
  have wfst: "wfTrie E st" using wf st(1) by (auto simp: wfDb_def)
  note led = execTxs_ledger [OF laws(1) wfst ex]
  note reach = execTxs_reach [OF laws(1) ex]
  show ?thesis
  proof (cases "cnt = 0")
    case True
    with reach have "t = st" by simp
    with True rest led st start wf show ?thesis
      by (auto simp: stateAt_def root_def triedb_lawsD(4) [OF laws(2)])
  next
    case False
    with rest obtain ns d' where d': "commitTrie E t (triedb bc) = Inr (rt, ns, d')" "bc' = bc\<lparr>triedb := d'\<rparr>"
      by (auto simp: res_simps)
    have "stateAt E d' rt = Some (balOf E t) \<and> wfDb E d' \<and> toHash E rt = rt"
      using commitTrie_state [OF laws(2) st(1) _ led(2) wf d'(1)] reach by blast
    with led(1) st(2) d'(2) show ?thesis by simp
  qed
qed

end
