(* ===== verification/Chain.thy ===== *)
theory Chain
  imports StateTrie
begin

text \<open>
  The block operations of chain/blockchain.go: the transaction root and the Bloom filter,
  producing a block, validating one, appending one, moving accounts in, the genesis block
  and reopening a chain from its store. The lemmas show that a chain keeps its whole
  history retrievable from the store, that a produced block is accepted by a replica in
  the same state, and that its state root opens to the ledger's balances.
\<close>

section \<open>Roots and filters\<close>

definition txTree :: "('t, 'd, 's) env \<Rightarrow> Transaction list \<Rightarrow> 't" where
  "txTree E txs = foldl (\<lambda>tr tx. trieUpdate E tr (TxHash tx) [CHR 0x00]) (trieEmpty E) txs"

definition GetTxTreeRoot :: "('t, 'd, 's) env \<Rightarrow> Transaction list \<Rightarrow> bytes" where
  "GetTxTreeRoot E txs = trieHash E (txTree E txs)"

definition GetBloomFilter :: "('t, 'd, 's) env \<Rightarrow> Transaction list \<Rightarrow> bytes res" where
  "GetBloomFilter E txs =
     foldR (\<lambda>bs tx. bindR (ModBytes (TxHash tx) 2048) (\<lambda>i. Inr (bsSet E bs i))) (bsNew E 2048) txs"

section \<open>Producing a block\<close>

definition SendTx2Pool :: "(nat \<Rightarrow> time) \<Rightarrow> Transaction list \<Rightarrow> ('d, 's) BlockChain \<Rightarrow> ('d, 's) BlockChain" where
  "SendTx2Pool clk txs bc = bc\<lparr>Txpool := AddTxs2Pool clk txs (Txpool bc)\<rparr>"

text \<open>\<open>now\<close> is the time read while the header is built.\<close>

definition GenerateBlock ::
  "('t, 'd, 's) env \<Rightarrow> params \<Rightarrow> 32 word \<Rightarrow> time \<Rightarrow> ('d, 's) BlockChain \<Rightarrow> (Block \<times> ('d, 's) BlockChain) res" where
  "GenerateBlock E cfg miner now bc =
     (let (txs, pool) = (if UseBlocksizeInBytes cfg = 1
                         then PackTxsWithBytes (BlocksizeInBytes cfg) (Txpool bc)
                         else PackTxs (BlockSize (ChainCfg bc)) (Txpool bc));
          bc = bc\<lparr>Txpool := pool\<rparr>;
          parent = Hash (CurrentBlock bc);
          height = Number (Header (CurrentBlock bc)) + 1
      in bindR (GetUpdateStatusTrie E cfg txs bc) (\<lambda>(rt, bc).
         bindR (GetBloomFilter E txs) (\<lambda>bloom.
           let bh = \<lparr>ParentBlockHash = parent, StateRoot = rt, TxRoot = GetTxTreeRoot E txs,
                     Bloom = bloom, Number = height, bh_Time = now, Miner = miner\<rparr>;
               b = NewBlock bh txs
           in Inr (b\<lparr>Hash := hashBH E bh\<rparr>, bc))))"

section \<open>The genesis block and reopening\<close>

text \<open>\<open>db\<close> is the state database the trie database is built on.\<close>

definition NewGenisisBlock ::
  "('t, 'd, 's) env \<Rightarrow> 'd \<Rightarrow> ('d, 's) BlockChain \<Rightarrow> (Block \<times> ('d, 's) BlockChain) res" where
  "NewGenisisBlock E db bc =
     bindR (GetBloomFilter E []) (\<lambda>bloom.
       let bh = \<lparr>ParentBlockHash = '''', StateRoot = trieHash E (trieEmpty E),
                 TxRoot = GetTxTreeRoot E [], Bloom = bloom, Number = 0, bh_Time = 0, Miner = 0\<rparr>;
           b = NewBlock bh []
       in Inr (b\<lparr>Hash := hashBH E bh\<rparr>, bc\<lparr>triedb := db\<rparr>))"

definition AddGenisisBlock ::
  "('t, 'd, 's) env \<Rightarrow> Block \<Rightarrow> ('d, 's) BlockChain \<Rightarrow> ('d, 's) BlockChain res" where
  "AddGenisisBlock E gb bc =
     bindR (storeBlock E gb (Storage bc)) (\<lambda>s.
       let bc = bc\<lparr>Storage := s\<rparr> in
       case GetNewestBlockHash E s of
         Inl _ \<Rightarrow> Inl LogPanic
       | Inr newestHash \<Rightarrow>
           bindR (GetBlock E newestHash s) (\<lambda>r.
             case r of Inl _ \<Rightarrow> Inl LogPanic | Inr curb \<Rightarrow> Inr (bc\<lparr>CurrentBlock := curb\<rparr>)))"

text \<open>The zero value of \<open>CurrentBlock\<close> is a nil pointer that is never read before it is set.\<close>

definition zeroBlock :: Block where
  "zeroBlock = \<lparr>Header = \<lparr>ParentBlockHash = '''', StateRoot = '''', TxRoot = '''', Bloom = '''',
                  Number = 0, bh_Time = 0, Miner = 0\<rparr>, Body = [], Hash = ''''\<rparr>"

definition NewBlockChain ::
  "('t, 'd, 's) env \<Rightarrow> ChainConfig \<Rightarrow> 'd \<Rightarrow> 's \<Rightarrow> ('d, 's) BlockChain res" where
  "NewBlockChain E cc db store =
     (let bc = \<lparr>triedb = db, ChainCfg = cc, CurrentBlock = zeroBlock, Storage = store,
                Txpool = NewTxPool, PartitionMap = Map.empty\<rparr>
      in case GetNewestBlockHash E store of
           Inl err \<Rightarrow>
             if err = ''cannot find the newest block hash'' then
               bindR (NewGenisisBlock E db bc) (\<lambda>(gb, bc). AddGenisisBlock E gb bc)
             else Inl LogPanic
         | Inr curHash \<Rightarrow>
             bindR (GetBlock E curHash store) (\<lambda>r.
               case r of
                 Inl _ \<Rightarrow> Inl LogPanic
               | Inr curb \<Rightarrow>
                   (case trieNew E (toHash E (StateRoot (Header curb))) db of
                      None \<Rightarrow> Inl LogPanic
                    | Some _ \<Rightarrow> Inr (bc\<lparr>CurrentBlock := curb\<rparr>))))"

section \<open>Appending a block\<close>

definition AddBlock ::
  "('t, 'd, 's) env \<Rightarrow> params \<Rightarrow> Block \<Rightarrow> ('d, 's) BlockChain \<Rightarrow> ('d, 's) BlockChain res" where
  "AddBlock E cfg b bc =
     (if Number (Header b) \<noteq> Number (Header (CurrentBlock bc)) + 1 then Inr bc
      else if ParentBlockHash (Header b) \<noteq> Hash (CurrentBlock bc) then Inr bc
      else bindR (case trieNew E (toHash E (StateRoot (Header b))) (triedb bc) of
                    None \<Rightarrow> bindR (GetUpdateStatusTrie E cfg (Body b) bc) (\<lambda>(rt, bc). Inr bc)
                  | Some _ \<Rightarrow> Inr bc) (\<lambda>bc.
           let bc = bc\<lparr>CurrentBlock := b\<rparr>
           in bindR (storeBlock E b (Storage bc)) (\<lambda>s. Inr (bc\<lparr>Storage := s\<rparr>))))"

text \<open>Go's \<open>error\<close>: \<open>None\<close> is nil.\<close>

definition IsValidBlock :: "('t, 'd, 's) env \<Rightarrow> Block \<Rightarrow> ('d, 's) BlockChain \<Rightarrow> string option" where
  "IsValidBlock E b bc =
     (if ParentBlockHash (Header b) \<noteq> Hash (CurrentBlock bc)
      then Some ''the parentblock hash is not equal to the current block hash''
      else if GetTxTreeRoot E (Body b) \<noteq> TxRoot (Header b) then Some ''the transaction root is wrong''
      else None)"

definition AddAccounts ::
  "('t, 'd, 's) env \<Rightarrow> params \<Rightarrow> address list \<Rightarrow> AccountState list \<Rightarrow> 32 word \<Rightarrow>
   ('d, 's) BlockChain \<Rightarrow> ('d, 's) BlockChain res" where
  "AddAccounts E cfg ac as miner bc =
     (let parent = Hash (CurrentBlock bc);
          height = Number (Header (CurrentBlock bc)) + 1;
          rt = StateRoot (Header (CurrentBlock bc))
      in bindR (if ac = [] then Inr (rt, triedb bc)
                else case trieNew E (toHash E rt) (triedb bc) of
                  None \<Rightarrow> Inl LogPanic
                | Some st \<Rightarrow>
                    bindR (addAccountsTrie E cfg bc ac as st) (\<lambda>st.
                    bindR (commitTrie E st (triedb bc)) (\<lambda>(rrt, ns, db).
                      if ns then Inr (rrt, db) else Inr (rt, triedb bc))))
           (\<lambda>(rt, db).
         bindR (GetBloomFilter E []) (\<lambda>bloom.
           let bh = \<lparr>ParentBlockHash = parent, StateRoot = rt, TxRoot = GetTxTreeRoot E [],
                     Bloom = bloom, Number = height, bh_Time = 0, Miner = 0\<rparr>;
               b = (NewBlock bh [])\<lparr>Hash := hashBH E bh\<rparr>;
               bc = bc\<lparr>triedb := db, CurrentBlock := b\<rparr>
           in bindR (storeBlock E b (Storage bc)) (\<lambda>s. Inr (bc\<lparr>Storage := s\<rparr>)))))"

section \<open>Lemmas on production and validation\<close>

lemma GetBloomFilter_total: "\<exists>b. GetBloomFilter E txs = Inr b"
proof -
  have "foldR (\<lambda>bs tx. bindR (ModBytes (TxHash tx) 2048) (\<lambda>i. Inr (bsSet E bs i))) s txs =
        Inr (foldl (\<lambda>bs tx. bsSet E bs (word_of_int (int (bigSetBytes (TxHash tx)) mod 2048))) s txs)" for s
    by (simp add: ModBytes_2048 foldR_pure)
  then show ?thesis by (simp add: GetBloomFilter_def)
qed

lemma bloom_fold_test:
  assumes "bitset_laws E"
    and "foldR (\<lambda>bs tx. bindR (ModBytes (TxHash tx) 2048) (\<lambda>i. Inr (bsSet E bs i))) s txs = Inr b"
  shows "bsTest E b j \<longleftrightarrow> bsTest E s j \<or> (\<exists>tx \<in> set txs. ModBytes (TxHash tx) 2048 = Inr j)"
  using assms(2)
proof (induction txs arbitrary: s)
  case Nil
  then show ?case by simp
next
  case (Cons tx txs)
  from Cons.prems obtain i where i: "ModBytes (TxHash tx) 2048 = Inr i"
    "foldR (\<lambda>bs tx. bindR (ModBytes (TxHash tx) 2048) (\<lambda>i. Inr (bsSet E bs i))) (bsSet E s i) txs = Inr b"
    by (auto simp: res_simps)
  from Cons.IH [OF i(2)] i(1) show ?case
    by (auto simp: bitset_lawsD(2) [OF assms(1)])
qed

text \<open>The filter has no false negatives: exactly the positions of the hashes are set.\<close>

lemma bloom_exact:
  assumes "bitset_laws E" and "GetBloomFilter E txs = Inr b"
  shows "bsTest E b j \<longleftrightarrow> (\<exists>tx \<in> set txs. ModBytes (TxHash tx) 2048 = Inr j)"
  using bloom_fold_test [OF assms(1) assms(2) [unfolded GetBloomFilter_def]] bitset_lawsD(1) [OF assms(1)]
  by simp

lemma GetUpdateStatusTrie_frame [frame]:
  assumes "GetUpdateStatusTrie E cfg txs bc = Inr (rt, bc')"
  shows "bc' = bc\<lparr>triedb := triedb bc'\<rparr>"
proof (cases "txs = []")
  case True
  with assms show ?thesis by (auto simp: GetUpdateStatusTrie_def)
next
  case False
  with assms obtain st where "trieNew E (toHash E (StateRoot (Header (CurrentBlock bc)))) (triedb bc) = Some st"
    by (auto simp: GetUpdateStatusTrie_def Let_def split: option.splits)
  with assms False obtain t cnt where "execTxs E cfg bc txs st = Inr (t, cnt)"
    by (auto simp: GetUpdateStatusTrie_def res_simps)
  with assms False \<open>trieNew E _ (triedb bc) = Some st\<close> show ?thesis
    by (auto simp: GetUpdateStatusTrie_def res_simps split: if_splits)
qed

text \<open>The transactions a block takes, and the pool without them.\<close>

definition packed :: "params \<Rightarrow> ('d, 's) BlockChain \<Rightarrow> Transaction list \<times> TxPool" where
  "packed cfg bc = (if UseBlocksizeInBytes cfg = 1
                    then PackTxsWithBytes (BlocksizeInBytes cfg) (Txpool bc)
                    else PackTxs (BlockSize (ChainCfg bc)) (Txpool bc))"

lemma packed_split: "packed cfg bc = (txs, pool) \<Longrightarrow> txs @ TxQueue pool = TxQueue (Txpool bc)"
  by (auto simp: packed_def PackTxs_split PackTxsWithBytes_eq split: if_splits)

lemma GenerateBlock_inv:
  assumes "GenerateBlock E cfg miner now bc = Inr (b, bc')"
  obtains rt bloom where
    "GetUpdateStatusTrie E cfg (Body b) (bc\<lparr>Txpool := snd (packed cfg bc)\<rparr>) = Inr (rt, bc')"
    "GetBloomFilter E (Body b) = Inr bloom" "Body b = fst (packed cfg bc)"
    "Header b = \<lparr>ParentBlockHash = Hash (CurrentBlock bc), StateRoot = rt, TxRoot = GetTxTreeRoot E (Body b),
                 Bloom = bloom, Number = Number (Header (CurrentBlock bc)) + 1, bh_Time = now, Miner = miner\<rparr>"
    "Hash b = hashBH E (Header b)"
proof -
  obtain txs pool where p: "packed cfg bc = (txs, pool)" by fastforce
  with assms obtain rt bc1 where u: "GetUpdateStatusTrie E cfg txs (bc\<lparr>Txpool := pool\<rparr>) = Inr (rt, bc1)"
    by (auto simp: GenerateBlock_def packed_def [symmetric] res_simps)
  obtain bloom where bl: "GetBloomFilter E txs = Inr bloom" using GetBloomFilter_total by blast
  have "bc' = bc1 \<and> b = (NewBlock \<lparr>ParentBlockHash = Hash (CurrentBlock bc), StateRoot = rt,
      TxRoot = GetTxTreeRoot E txs, Bloom = bloom, Number = Number (Header (CurrentBlock bc)) + 1,
      bh_Time = now, Miner = miner\<rparr> txs)\<lparr>Hash := hashBH E \<lparr>ParentBlockHash = Hash (CurrentBlock bc), StateRoot = rt,
      TxRoot = GetTxTreeRoot E txs, Bloom = bloom, Number = Number (Header (CurrentBlock bc)) + 1,
      bh_Time = now, Miner = miner\<rparr>\<rparr>"
    using assms p u bl by (simp add: GenerateBlock_def packed_def [symmetric] Let_def)
  then show ?thesis
    using that [of rt bloom] p u bl by (simp add: NewBlock_def)
qed

section \<open>Lemmas on the history\<close>

text \<open>
  \<open>history E bc bs\<close>: walking back from the current block through the store meets
  exactly the blocks \<open>bs\<close>, newest first, and the store's newest hash is the current one.
\<close>

definition history :: "('t, 'd, 's) env \<Rightarrow> ('d, 's) BlockChain \<Rightarrow> Block list \<Rightarrow> bool" where
  "history E bc bs \<longleftrightarrow>
     bs \<noteq> [] \<and> hd bs = CurrentBlock bc \<and>
     walkBack (blockAt E (Storage bc)) (Hash (CurrentBlock bc)) (length bs) = Some bs \<and>
     newestOf E (Storage bc) = Some (Hash (CurrentBlock bc))"

text \<open>The block fits on top of the current one and its hash is new to the store.\<close>

definition fresh :: "('t, 'd, 's) env \<Rightarrow> Block \<Rightarrow> ('d, 's) BlockChain \<Rightarrow> bool" where
  "fresh E b bc \<longleftrightarrow> decodable E b \<and> blockAt E (Storage bc) (Hash b) = None"

lemma history_put:
  assumes "bolt_laws E" and "fresh E b bc" and "ParentBlockHash (Header b) = Hash (CurrentBlock bc)"
    and "storeBlock E b (Storage bc) = Inr s" and "history E bc bs"
    and "CurrentBlock bc' = b" and "Storage bc' = s"
  shows "history E bc' (b # bs)"
  using assms bst.put_extends_walk [of E b "Storage bc" s "length bs" bs] bst.newest_put [of E b "Storage bc" s]
  by (simp add: history_def fresh_def)

definition accepts :: "Block \<Rightarrow> ('d, 's) BlockChain \<Rightarrow> bool" where
  "accepts b bc \<longleftrightarrow>
     Number (Header b) = Number (Header (CurrentBlock bc)) + 1 \<and>
     ParentBlockHash (Header b) = Hash (CurrentBlock bc)"

lemma AddBlock_rejects: "\<not> accepts b bc \<Longrightarrow> AddBlock E cfg b bc = Inr bc"
  by (auto simp: AddBlock_def accepts_def)

lemma AddBlock_inv:
  assumes "accepts b bc" and "AddBlock E cfg b bc = Inr bc'"
  obtains s d where "storeBlock E b (Storage bc) = Inr s"
    "bc' = bc\<lparr>triedb := d, CurrentBlock := b, Storage := s\<rparr>"
    "(case trieNew E (toHash E (StateRoot (Header b))) (triedb bc) of
        None \<Rightarrow> \<exists>rt. GetUpdateStatusTrie E cfg (Body b) bc = Inr (rt, bc\<lparr>triedb := d\<rparr>)
      | Some _ \<Rightarrow> d = triedb bc)"
proof (cases "trieNew E (toHash E (StateRoot (Header b))) (triedb bc)")
  case None
  with assms obtain rt bc1 s where u: "GetUpdateStatusTrie E cfg (Body b) bc = Inr (rt, bc1)"
    and s: "storeBlock E b (Storage bc1) = Inr s" "bc' = bc1\<lparr>CurrentBlock := b, Storage := s\<rparr>"
    by (auto simp: AddBlock_def accepts_def res_simps)
  obtain d where "bc1 = bc\<lparr>triedb := d\<rparr>" using GetUpdateStatusTrie_frame [OF u] by blast
  with that [of s d] u s None show ?thesis by simp
next
  case (Some t)
  with assms obtain s where s: "storeBlock E b (Storage bc) = Inr s" "bc' = bc\<lparr>CurrentBlock := b, Storage := s\<rparr>"
    by (auto simp: AddBlock_def accepts_def res_simps)
  with that [of s "triedb bc"] Some show ?thesis by simp
qed

lemma AddBlock_known:
  assumes "accepts b bc" and "trieNew E (toHash E (StateRoot (Header b))) (triedb bc) \<noteq> None"
    and "AddBlock E cfg b bc = Inr bc'"
  shows "\<exists>s. bc' = bc\<lparr>CurrentBlock := b, Storage := s\<rparr>"
  using assms by (auto simp: AddBlock_def accepts_def res_simps)

lemma AddBlock_new:
  assumes "accepts b bc" and "trieNew E (toHash E (StateRoot (Header b))) (triedb bc) = None"
    and "GetUpdateStatusTrie E cfg (Body b) bc = Inr (rt, bc1)" and "AddBlock E cfg b bc = Inr bc'"
  shows "\<exists>s. bc' = bc1\<lparr>CurrentBlock := b, Storage := s\<rparr>"
  using assms by (auto simp: AddBlock_def accepts_def res_simps)

lemma AddBlock_history:
  assumes "bolt_laws E" and "accepts b bc" and "fresh E b bc" and "AddBlock E cfg b bc = Inr bc'"
    and "history E bc bs"
  shows "history E bc' (b # bs)"
proof -
  obtain s d where "storeBlock E b (Storage bc) = Inr s"
    "bc' = bc\<lparr>triedb := d, CurrentBlock := b, Storage := s\<rparr>"
    using AddBlock_inv [OF assms(2,4)] by metis
  then show ?thesis
    using assms by (intro history_put [of E b bc]) (auto simp: accepts_def)
qed

lemma AddAccounts_inv:
  assumes "AddAccounts E cfg ac as miner bc = Inr bc'"
  obtains rt db bloom s where
    "bc' = bc\<lparr>triedb := db, CurrentBlock := CurrentBlock bc', Storage := s\<rparr>"
    "GetBloomFilter E [] = Inr bloom"
    "Header (CurrentBlock bc') = \<lparr>ParentBlockHash = Hash (CurrentBlock bc), StateRoot = rt,
        TxRoot = GetTxTreeRoot E [], Bloom = bloom, Number = Number (Header (CurrentBlock bc)) + 1,
        bh_Time = 0, Miner = 0\<rparr>"
    "Body (CurrentBlock bc') = []"
    "Hash (CurrentBlock bc') = hashBH E (Header (CurrentBlock bc'))"
    "storeBlock E (CurrentBlock bc') (Storage bc) = Inr s"
    "if ac = [] then rt = StateRoot (Header (CurrentBlock bc)) \<and> db = triedb bc
     else \<exists>st st' rrt ns d.
        trieNew E (toHash E (StateRoot (Header (CurrentBlock bc)))) (triedb bc) = Some st \<and>
        addAccountsTrie E cfg bc ac as st = Inr st' \<and>
        commitTrie E st' (triedb bc) = Inr (rrt, ns, d) \<and>
        (rt, db) = (if ns then (rrt, d) else (StateRoot (Header (CurrentBlock bc)), triedb bc))"
proof -
  define P where "P = (if ac = [] then Inr (StateRoot (Header (CurrentBlock bc)), triedb bc)
      else case trieNew E (toHash E (StateRoot (Header (CurrentBlock bc)))) (triedb bc) of
        None \<Rightarrow> Inl LogPanic
      | Some st \<Rightarrow>
          bindR (addAccountsTrie E cfg bc ac as st) (\<lambda>st.
          bindR (commitTrie E st (triedb bc)) (\<lambda>(rrt, ns, db).
            if ns then Inr (rrt, db) else Inr (StateRoot (Header (CurrentBlock bc)), triedb bc))))"
  obtain rt db where P: "P = Inr (rt, db)"
    using assms by (cases P) (auto simp: AddAccounts_def Let_def P_def [symmetric])
  obtain bloom where bl: "GetBloomFilter E [] = Inr bloom" using GetBloomFilter_total by blast
  define bh where "bh = \<lparr>ParentBlockHash = Hash (CurrentBlock bc), StateRoot = rt,
     TxRoot = GetTxTreeRoot E [], Bloom = bloom, Number = Number (Header (CurrentBlock bc)) + 1,
     bh_Time = 0, Miner = 0\<rparr>"
  have "bindR (storeBlock E ((NewBlock bh [])\<lparr>Hash := hashBH E bh\<rparr>) (Storage bc))
     (\<lambda>s. Inr (bc\<lparr>triedb := db, CurrentBlock := (NewBlock bh [])\<lparr>Hash := hashBH E bh\<rparr>, Storage := s\<rparr>)) = Inr bc'"
    using assms P bl by (simp add: AddAccounts_def Let_def P_def [symmetric] bh_def)
  then obtain s where s: "storeBlock E ((NewBlock bh [])\<lparr>Hash := hashBH E bh\<rparr>) (Storage bc) = Inr s"
    "bc' = bc\<lparr>triedb := db, CurrentBlock := (NewBlock bh [])\<lparr>Hash := hashBH E bh\<rparr>, Storage := s\<rparr>"
    by (auto simp: res_simps)
  have "if ac = [] then rt = StateRoot (Header (CurrentBlock bc)) \<and> db = triedb bc
     else \<exists>st st' rrt ns d.
        trieNew E (toHash E (StateRoot (Header (CurrentBlock bc)))) (triedb bc) = Some st \<and>
        addAccountsTrie E cfg bc ac as st = Inr st' \<and>
        commitTrie E st' (triedb bc) = Inr (rrt, ns, d) \<and>
        (rt, db) = (if ns then (rrt, d) else (StateRoot (Header (CurrentBlock bc)), triedb bc))"
  proof (cases "ac = []")
    case True
    with P show ?thesis by (simp add: P_def)
  next
    case False
    with P obtain st where st: "trieNew E (toHash E (StateRoot (Header (CurrentBlock bc)))) (triedb bc) = Some st"
      by (auto simp: P_def split: option.splits)
    with P False obtain st' where st': "addAccountsTrie E cfg bc ac as st = Inr st'"
      by (auto simp: P_def res_simps)
    with P False st obtain rrt ns d where "commitTrie E st' (triedb bc) = Inr (rrt, ns, d)"
      by (auto simp: P_def res_simps)
    with P False st st' show ?thesis by (auto simp: P_def split: if_splits)
  qed
  with that [where db = db and s = s and bloom = bloom and rt = rt] s bl show ?thesis
    by (simp add: NewBlock_def bh_def)
qed

section \<open>Reachable chains\<close>

text \<open>Adjacent blocks are linked by hash and by height.\<close>

fun linked :: "Block list \<Rightarrow> bool" where
  "linked (b # c # bs) \<longleftrightarrow>
     ParentBlockHash (Header b) = Hash c \<and> Number (Header b) = Number (Header c) + 1 \<and> linked (c # bs)"
| "linked _ \<longleftrightarrow> True"

text \<open>
  The chains the program can reach, with the blocks appended so far: \<open>chainFrom\<close> from the given store,
  which holds no newest block yet, and \<open>chainReach\<close> from any such store.
  A block whose hash is already in the store would overwrite another, so each appended
  block is \<open>fresh\<close> (no SHA-256 collision).
\<close>

definition genesis :: "('t, 'd, 's) env \<Rightarrow> Block" where
  "genesis E =
     (let bh = \<lparr>ParentBlockHash = '''', StateRoot = trieHash E (trieEmpty E),
                TxRoot = GetTxTreeRoot E [], Bloom = bsNew E 2048, Number = 0, bh_Time = 0, Miner = 0\<rparr>
      in \<lparr>Header = bh, Body = [], Hash = hashBH E bh\<rparr>)"

lemma NewGenisisBlock_genesis: "NewGenisisBlock E db bc = Inr (genesis E, bc\<lparr>triedb := db\<rparr>)"
  by (simp add: NewGenisisBlock_def GetBloomFilter_def genesis_def NewBlock_def Let_def)

inductive chainFrom ::
  "('t, 'd, 's) env \<Rightarrow> params \<Rightarrow> 's \<Rightarrow> ('d, 's) BlockChain \<Rightarrow> Block list \<Rightarrow> bool" for E cfg store where
  start: "GetNewestBlockHash E store = Inl e \<Longrightarrow> NewBlockChain E cc db store = Inr bc \<Longrightarrow>
    decodable E (genesis E) \<Longrightarrow> chainFrom E cfg store bc [CurrentBlock bc]"
| add: "chainFrom E cfg store bc bs \<Longrightarrow> (accepts b bc \<longrightarrow> fresh E b bc) \<Longrightarrow> AddBlock E cfg b bc = Inr bc' \<Longrightarrow>
    chainFrom E cfg store bc' (if accepts b bc then b # bs else bs)"
| accounts: "chainFrom E cfg store bc bs \<Longrightarrow> AddAccounts E cfg ac as m bc = Inr bc' \<Longrightarrow>
    fresh E (CurrentBlock bc') bc \<Longrightarrow> chainFrom E cfg store bc' (CurrentBlock bc' # bs)"
| generate: "chainFrom E cfg store bc bs \<Longrightarrow> GenerateBlock E cfg m now bc = Inr (b, bc') \<Longrightarrow> chainFrom E cfg store bc' bs"
| send: "chainFrom E cfg store bc bs \<Longrightarrow> chainFrom E cfg store (SendTx2Pool clk txs bc) bs"
| pmap: "chainFrom E cfg store bc bs \<Longrightarrow> chainFrom E cfg store (Update_PartitionMap k v bc) bs"

definition chainReach :: "('t, 'd, 's) env \<Rightarrow> params \<Rightarrow> ('d, 's) BlockChain \<Rightarrow> Block list \<Rightarrow> bool" where
  "chainReach E cfg bc bs \<longleftrightarrow> (\<exists>store. chainFrom E cfg store bc bs)"

lemma chainReachI: "chainFrom E cfg store bc bs \<Longrightarrow> chainReach E cfg bc bs"
  by (auto simp: chainReach_def)

lemma AddGenisisBlock_history:
  assumes "bolt_laws E" and "decodable E gb" and "AddGenisisBlock E gb bc = Inr bc'"
  shows "history E bc' [gb] \<and> CurrentBlock bc' = gb"
proof -
  from assms(3) obtain s where s: "storeBlock E gb (Storage bc) = Inr s"
    by (auto simp: AddGenisisBlock_def res_simps)
  have at: "blockAt E s = (blockAt E (Storage bc))(Hash gb \<mapsto> gb)"
    using bst.at_put [OF assms(1,2) s] .
  have nw: "newestOf E s = Some (Hash gb)"
    using bst.newest_put [OF assms(1) s] .
  from nw have "GetNewestBlockHash E s = Inr (Hash gb)"
    by (auto simp: newestOf_def split: sum.splits)
  moreover have "GetBlock E (Hash gb) s = Inr (Inr gb)"
    using fun_cong [OF at, of "Hash gb"] by (auto simp: blockAt_def split: sum.splits)
  ultimately have "bc' = bc\<lparr>Storage := s, CurrentBlock := gb\<rparr>"
    using assms(3) s by (simp add: AddGenisisBlock_def Let_def)
  with at nw show ?thesis by (simp add: history_def)
qed

lemma history_cong:
  "CurrentBlock bc' = CurrentBlock bc \<Longrightarrow> Storage bc' = Storage bc \<Longrightarrow> history E bc bs \<Longrightarrow> history E bc' bs"
  by (simp add: history_def)

lemma linked_Cons:
  "linked bs \<Longrightarrow> bs \<noteq> [] \<Longrightarrow> ParentBlockHash (Header b) = Hash (hd bs) \<Longrightarrow>
   Number (Header b) = Number (Header (hd bs)) + 1 \<Longrightarrow> linked (b # bs)"
  by (cases bs) auto

lemma NewBlockChain_fresh:
  assumes "bolt_laws E" and "GetNewestBlockHash E store = Inl e" and "NewBlockChain E cc db store = Inr bc"
    and "decodable E (genesis E)"
  shows "history E bc [genesis E] \<and> CurrentBlock bc = genesis E"
proof -
  from assms(2,3) obtain bc1 where "AddGenisisBlock E (genesis E) bc1 = Inr bc"
    by (auto simp: NewBlockChain_def NewGenisisBlock_genesis split: if_splits)
  from AddGenisisBlock_history [OF assms(1,4) this] show ?thesis .
qed

lemma GenerateBlock_frame [frame]:
  assumes "GenerateBlock E cfg m now bc = Inr (b, bc')"
  shows "CurrentBlock bc' = CurrentBlock bc \<and> Storage bc' = Storage bc \<and>
         ChainCfg bc' = ChainCfg bc \<and> PartitionMap bc' = PartitionMap bc \<and>
         Txpool bc' = snd (packed cfg bc)"
proof -
  obtain rt bloom where "GetUpdateStatusTrie E cfg (Body b) (bc\<lparr>Txpool := snd (packed cfg bc)\<rparr>) = Inr (rt, bc')"
    using GenerateBlock_inv [OF assms] by metis
  from GetUpdateStatusTrie_frame [OF this] show ?thesis
    by (metis BlockChain.ext_inject BlockChain.surjective BlockChain.update_convs(1) BlockChain.update_convs(5))
qed

lemma chainFrom_inv:
  assumes "chainFrom E cfg store bc bs" and "bolt_laws E"
  shows "history E bc bs \<and> linked bs \<and> last bs = genesis E"
  using assms(1)
proof induction
  case (start e cc db bc)
  with NewBlockChain_fresh [OF assms(2)] show ?case by fastforce
next
  case (add bc bs b bc')
  show ?case
  proof (cases "accepts b bc")
    case True
    with add AddBlock_history [OF assms(2)] have "history E bc' (b # bs)" by blast
    moreover have "linked (b # bs)" "last (b # bs) = genesis E"
      using True add.IH by (auto simp: history_def accepts_def intro!: linked_Cons)
    ultimately show ?thesis using True by simp
  next
    case False
    with AddBlock_rejects [OF False, of E cfg] add show ?thesis by simp
  qed
next
  case (accounts bc bs ac as m bc')
  from AddAccounts_inv [OF accounts(2)] obtain rt bloom s where
    h: "Header (CurrentBlock bc') = \<lparr>ParentBlockHash = Hash (CurrentBlock bc), StateRoot = rt,
        TxRoot = GetTxTreeRoot E [], Bloom = bloom, Number = Number (Header (CurrentBlock bc)) + 1,
        bh_Time = 0, Miner = 0\<rparr>"
    and st: "storeBlock E (CurrentBlock bc') (Storage bc) = Inr s" "Storage bc' = s"
    by (metis BlockChain.select_convs(4) BlockChain.surjective BlockChain.update_convs(4))
  have "history E bc' (CurrentBlock bc' # bs)"
    using history_put [OF assms(2) accounts(3) _ st(1)] accounts.IH h st(2) by simp
  moreover have "linked (CurrentBlock bc' # bs)"
    using accounts.IH h by (intro linked_Cons) (auto simp: history_def)
  ultimately show ?case using accounts.IH by (auto simp: history_def)
next
  case (generate bc bs m now b bc')
  with GenerateBlock_frame [OF generate(2)] show ?case by (simp add: history_def)
next
  case (send bc bs clk txs)
  then show ?case by (simp add: history_def SendTx2Pool_def)
next
  case (pmap bc bs k v)
  then show ?case by (simp add: history_def Update_PartitionMap_def)
qed

lemma chainReach_inv:
  assumes "chainReach E cfg bc bs" and "bolt_laws E"
  shows "history E bc bs \<and> linked bs \<and> last bs = genesis E"
proof -
  obtain store where "chainFrom E cfg store bc bs" using assms(1) by (auto simp: chainReach_def)
  from chainFrom_inv [OF this assms(2)] show ?thesis .
qed

text \<open>
  A store just created is empty. A chain grown from one holds, in the bucket of blocks, the blocks of its
  history and no others.
\<close>

definition newStore :: "('t, 'd, 's) env \<Rightarrow> 's \<Rightarrow> bool" where
  "newStore E store \<longleftrightarrow> (\<forall>bucket key. bucketGet E store bucket key = None)"

definition onlyHistory :: "('t, 'd, 's) env \<Rightarrow> 's \<Rightarrow> Block list \<Rightarrow> bool" where
  "onlyHistory E s bs \<longleftrightarrow> (\<forall>k v. bucketGet E s blockBucket k = Some v \<longrightarrow> k \<in> Hash ` set bs)"

lemma AddGenisisBlock_store:
  assumes "AddGenisisBlock E gb bc = Inr bc'"
  shows "storeBlock E gb (Storage bc) = Inr (Storage bc')"
proof -
  obtain s where s: "storeBlock E gb (Storage bc) = Inr s"
    using assms by (auto simp: AddGenisisBlock_def res_simps)
  obtain h where h: "GetNewestBlockHash E s = Inr h"
    using assms s by (cases "GetNewestBlockHash E s") (auto simp: AddGenisisBlock_def Let_def)
  obtain b where "GetBlock E h s = Inr (Inr b)"
    using assms s h by (cases "GetBlock E h s") (auto simp: AddGenisisBlock_def Let_def split: sum.splits)
  with assms s h show ?thesis by (auto simp: AddGenisisBlock_def Let_def)
qed

lemma onlyHistory_put:
  assumes "bolt_laws E" and "storeBlock E b s = Inr s'" and "onlyHistory E s bs"
  shows "onlyHistory E s' (b # bs)"
  using assms(3) storeBlock_buckets(1) [OF assms(1,2)] by (auto simp: onlyHistory_def split: if_splits)

lemma chainFrom_onlyHistory:
  assumes "chainFrom E cfg store bc bs" and "bolt_laws E" and "newStore E store"
  shows "onlyHistory E (Storage bc) bs"
  using assms(1)
proof induction
  case (start e cc db bc)
  have "CurrentBlock bc = genesis E" using NewBlockChain_fresh [OF assms(2) start] by blast
  moreover have "storeBlock E (genesis E) store = Inr (Storage bc)"
    using start(1,2) AddGenisisBlock_store [of E "genesis E" _ bc]
    by (fastforce simp: NewBlockChain_def NewGenisisBlock_genesis Let_def split: if_splits)
  moreover have "onlyHistory E store []" using assms(3) by (simp add: newStore_def onlyHistory_def)
  ultimately show ?case using onlyHistory_put [OF assms(2)] by metis
next
  case (add bc bs b bc')
  show ?case
  proof (cases "accepts b bc")
    case True
    obtain s d where "storeBlock E b (Storage bc) = Inr s" "bc' = bc\<lparr>triedb := d, CurrentBlock := b, Storage := s\<rparr>"
      using AddBlock_inv [OF True add(3)] by metis
    then show ?thesis using True onlyHistory_put [OF assms(2) _ add.IH] by simp
  next
    case False
    with AddBlock_rejects [OF False, of E cfg] add show ?thesis by simp
  qed
next
  case (accounts bc bs ac as m bc')
  from AddAccounts_inv [OF accounts(2)] have "storeBlock E (CurrentBlock bc') (Storage bc) = Inr (Storage bc')"
    by (metis BlockChain.select_convs(4) BlockChain.surjective BlockChain.update_convs(4))
  from onlyHistory_put [OF assms(2) this accounts.IH] show ?case .
next
  case (generate bc bs m now b bc')
  with GenerateBlock_frame [OF generate(2)] show ?case by simp
next
  case (send bc bs clk txs)
  then show ?case by (simp add: SendTx2Pool_def)
next
  case (pmap bc bs k v)
  then show ?case by (simp add: Update_PartitionMap_def)
qed

text \<open>Reopening a store whose newest block the chain holds as its current block.\<close>

lemma history_reads:
  assumes "history E bc bs"
  shows "GetNewestBlockHash E (Storage bc) = Inr (Hash (CurrentBlock bc))"
    and "GetBlock E (Hash (CurrentBlock bc)) (Storage bc) = Inr (Inr (CurrentBlock bc))"
proof -
  obtain n where n: "length bs = Suc n" using assms by (cases bs) (auto simp: history_def)
  have w: "walkBack (blockAt E (Storage bc)) (Hash (CurrentBlock bc)) (Suc n) = Some bs"
    and hd: "hd bs = CurrentBlock bc" using assms n by (auto simp: history_def)
  then have "blockAt E (Storage bc) (Hash (CurrentBlock bc)) = Some (CurrentBlock bc)"
    by (auto split: option.splits)
  then show "GetBlock E (Hash (CurrentBlock bc)) (Storage bc) = Inr (Inr (CurrentBlock bc))"
    by (auto simp: blockAt_def split: sum.splits)
  show "GetNewestBlockHash E (Storage bc) = Inr (Hash (CurrentBlock bc))"
    using assms by (auto simp: history_def newestOf_def split: sum.splits)
qed

lemma reopen:
  assumes "history E bc bs"
    and "trieNew E (toHash E (StateRoot (Header (CurrentBlock bc)))) db \<noteq> None"
  shows "NewBlockChain E cc db (Storage bc) =
    Inr \<lparr>triedb = db, ChainCfg = cc, CurrentBlock = CurrentBlock bc, Storage = Storage bc,
         Txpool = NewTxPool, PartitionMap = Map.empty\<rparr>"
  using history_reads [OF assms(1)] assms(2) by (auto simp: NewBlockChain_def Let_def)

lemma reopen_rootless:
  assumes "history E bc bs"
    and "trieNew E (toHash E (StateRoot (Header (CurrentBlock bc)))) db = None"
  shows "NewBlockChain E cc db (Storage bc) = Inl LogPanic"
  using history_reads [OF assms(1)] assms(2) by (simp add: NewBlockChain_def Let_def)

end
