(* ===== verification/MerkleProofs.thy ===== *)
theory MerkleProofs
  imports Chain
begin

text \<open>
  Proofs that a transaction is in a block (chain/merkleproof.go). The proof is a set of
  trie nodes, read back from a key-value store as a list of keys and a list of values. The
  theory holds the three generators and the verifier, and the facts that tie them together.
\<close>

section \<open>Error texts\<close>

fun decimalDigits :: "nat \<Rightarrow> string" where
  "decimalDigits n =
     (if n < 10 then [char_of (48 + n)] else decimalDigits (n div 10) @ [char_of (48 + n mod 10)])"

declare decimalDigits.simps [simp del]

definition cannotFind :: string where
  "cannotFind = ''cannot find this tx''"

definition rootMismatch :: "u64 \<Rightarrow> string" where
  "rootMismatch h = ''tx root mismatch in height '' @ decimalDigits (unat h)"

definition notFound :: "bytes \<Rightarrow> string \<Rightarrow> TxProofResult" where
  "notFound txHash err = \<lparr>Found = False, pr_BlockHash = '''', pr_TxHash = txHash, pr_TxRoot = '''',
     BlockHeight = 0, KeyList = [], ValueList = [], Error = err\<rparr>"

definition foundIn :: "bytes \<Rightarrow> Block \<Rightarrow> (bytes \<times> bytes) list \<Rightarrow> TxProofResult" where
  "foundIn txHash block kvs = \<lparr>Found = True, pr_BlockHash = Hash block, pr_TxHash = txHash,
     pr_TxRoot = TxRoot (Header block), BlockHeight = Number (Header block),
     KeyList = map fst kvs, ValueList = map snd kvs, Error = ''''\<rparr>"

section \<open>The generators\<close>

definition TxProofGenerateOnTheBlock ::
  "('t, 'd, 's) env \<Rightarrow> bytes \<Rightarrow> Block \<Rightarrow> TxProofResult res" where
  "TxProofGenerateOnTheBlock E txHash block =
     bindR (ModBytes txHash 2048) (\<lambda>bitMapIdxofTx.
       if \<not> bsTest E (Bloom (Header block)) bitMapIdxofTx then Inr (notFound txHash cannotFind)
       else
         let (txExist, transactionTree) =
               foldl (\<lambda>(ex, tr) tx. (ex \<or> txHash = TxHash tx, trieUpdate E tr (TxHash tx) [CHR 0x00]))
                 (False, trieEmpty E) (Body block)
         in if \<not> txExist then
              Inr (notFound txHash (''this tx cannot be found in this block (height='' @
                     decimalDigits (unat (Number (Header block))) @ '')''))
            else if trieHash E transactionTree \<noteq> TxRoot (Header block) then
              Inr (notFound txHash (rootMismatch (Number (Header block))))
            else case trieProve E transactionTree txHash of
                Some kvs \<Rightarrow> Inr (foundIn txHash block kvs)
              | None \<Rightarrow> Inr (notFound txHash cannotFind))"

definition batchProof ::
  "('t, 'd, 's) env \<Rightarrow> 't \<Rightarrow> Block \<Rightarrow> bytes \<Rightarrow> TxProofResult res" where
  "batchProof E transactionTree block txHash =
     bindR (ModBytes txHash 2048) (\<lambda>bitMapIdxofTx.
       if \<not> bsTest E (Bloom (Header block)) bitMapIdxofTx then Inr (notFound txHash cannotFind)
       else case trieProve E transactionTree txHash of
           Some kvs \<Rightarrow> Inr (foundIn txHash block kvs)
         | None \<Rightarrow> Inr (notFound txHash cannotFind))"

definition TxProofBatchGenerateOnBlock ::
  "('t, 'd, 's) env \<Rightarrow> bytes list \<Rightarrow> Block \<Rightarrow> TxProofResult list res" where
  "TxProofBatchGenerateOnBlock E txHashes block =
     (let transactionTree = foldl (\<lambda>tr tx. trieUpdate E tr (TxHash tx) [CHR 0x00]) (trieEmpty E) (Body block)
      in if trieHash E transactionTree \<noteq> TxRoot (Header block) then
           Inr (map (\<lambda>h. notFound h (rootMismatch (Number (Header block)))) txHashes)
         else foldR (\<lambda>acc h. bindR (batchProof E transactionTree block h) (\<lambda>r. Inr (acc @ [r]))) [] txHashes)"

text \<open>\<open>n\<close> is \<open>nowheight\<close>: the loop stops above the genesis block.\<close>

fun proofScan ::
  "('t, 'd, 's) env \<Rightarrow> 's \<Rightarrow> bytes \<Rightarrow> nat \<Rightarrow> bytes \<Rightarrow> TxProofResult res" where
  "proofScan E s txHash 0 nowblockHash = Inr (notFound txHash cannotFind)"
| "proofScan E s txHash (Suc n) nowblockHash =
     bindR (GetBlock E nowblockHash s) (\<lambda>r.
       case r of
         Inl err1 \<Rightarrow> Inr (notFound txHash err1)
       | Inr block \<Rightarrow>
           bindR (TxProofGenerateOnTheBlock E txHash block) (\<lambda>ret.
             if Found ret then Inr ret
             else proofScan E s txHash n (ParentBlockHash (Header block))))"

definition TxProofGenerate ::
  "('t, 'd, 's) env \<Rightarrow> bytes \<Rightarrow> ('d, 's) BlockChain \<Rightarrow> TxProofResult res" where
  "TxProofGenerate E txHash bc =
     proofScan E (Storage bc) txHash (unat (Number (Header (CurrentBlock bc)))) (Hash (CurrentBlock bc))"

section \<open>The verifier\<close>

text \<open>The pairs put in the recovered store; a value list shorter than the key list panics.\<close>

definition recoveredProof :: "TxProofResult \<Rightarrow> (bytes \<times> bytes) list res" where
  "recoveredProof proof =
     foldR (\<lambda>acc (i, k). bindR (nthR (ValueList proof) i) (\<lambda>v. Inr (acc @ [(k, v)]))) []
       (enumerate 0 (KeyList proof))"

definition TxProofVerify ::
  "('t, 'd, 's) env \<Rightarrow> bytes \<Rightarrow> TxProofResult \<Rightarrow> (bool \<times> string option) res" where
  "TxProofVerify E txHash proof =
     (if \<not> Found proof then Inr (False, Some ''the result shows not found'')
      else bindR (recoveredProof proof) (\<lambda>kvs.
        case trieVerify E (toHash E (pr_TxRoot proof)) (pr_TxHash proof) kvs of
          None \<Rightarrow> Inr (False, Some ''wrong proof'')
        | Some None \<Rightarrow> Inr (False, Some ''wrong proof'')
        | Some (Some ret) \<Rightarrow> Inr (True, None)))"

section \<open>Lemmas\<close>

lemma tree_fold:
  "foldl (\<lambda>(ex, tr) tx. (ex \<or> txHash = TxHash tx, trieUpdate E tr (TxHash tx) v)) (b, t) txs =
   (b \<or> (\<exists>tx \<in> set txs. TxHash tx = txHash), foldl (\<lambda>tr tx. trieUpdate E tr (TxHash tx) v) t txs)"
  by (induction txs arbitrary: b t) auto

lemma txTree_get_fold:
  assumes "trie_laws E"
  shows "trieGet E (foldl (\<lambda>tr tx. trieUpdate E tr (TxHash tx) [c]) t txs) h =
    (if \<exists>tx \<in> set txs. TxHash tx = h then Some [c] else trieGet E t h)"
  by (induction txs arbitrary: t) (auto simp: trie_lawsD [OF assms])

lemma txTree_get:
  assumes "trie_laws E"
  shows "trieGet E (txTree E txs) h = (if \<exists>tx \<in> set txs. TxHash tx = h then Some [CHR 0x00] else None)"
  by (simp add: txTree_def txTree_get_fold [OF assms] trie_lawsD(2) [OF assms])

lemma OnTheBlock_alt:
  "TxProofGenerateOnTheBlock E txHash block =
     bindR (ModBytes txHash 2048) (\<lambda>i.
       if \<not> bsTest E (Bloom (Header block)) i then Inr (notFound txHash cannotFind)
       else if \<not> (\<exists>tx \<in> set (Body block). TxHash tx = txHash) then
              Inr (notFound txHash (''this tx cannot be found in this block (height='' @
                     decimalDigits (unat (Number (Header block))) @ '')''))
       else if GetTxTreeRoot E (Body block) \<noteq> TxRoot (Header block) then
              Inr (notFound txHash (rootMismatch (Number (Header block))))
       else case trieProve E (txTree E (Body block)) txHash of
                Some kvs \<Rightarrow> Inr (foundIn txHash block kvs)
              | None \<Rightarrow> Inr (notFound txHash cannotFind))"
  by (simp add: TxProofGenerateOnTheBlock_def tree_fold txTree_def GetTxTreeRoot_def cong: if_cong)

lemma recover_fold:
  "foldR (\<lambda>acc (i, k). bindR (nthR (vs @ map snd kvs) i) (\<lambda>v. Inr (acc @ [(k, v)]))) acc
     (enumerate (length vs) (map fst kvs)) = Inr (acc @ kvs)"
proof (induction kvs arbitrary: acc vs)
  case Nil
  then show ?case by simp
next
  case (Cons kv kvs)
  have "vs @ map snd (kv # kvs) = (vs @ [snd kv]) @ map snd kvs" by simp
  with Cons.IH [of "vs @ [snd kv]" "acc @ [kv]"] show ?case
    by (simp add: nthR_def nth_append)
qed

lemma recoveredProof_foundIn: "recoveredProof (foundIn h b kvs) = Inr kvs"
  using recover_fold [of "[]" kvs "[]"] by (simp add: recoveredProof_def foundIn_def)

lemma notFound_not_Found [simp]: "\<not> Found (notFound h e)"
  by (simp add: notFound_def)

lemma foundIn_Found [simp]: "Found (foundIn h b kvs)"
  by (simp add: foundIn_def)

lemma OnTheBlock_total: "\<exists>r. TxProofGenerateOnTheBlock E h b = Inr r"
  by (auto simp: OnTheBlock_alt ModBytes_2048 split: option.splits)

text \<open>The header commits to the body: the two derived fields are what the code computes.\<close>

definition wellFormedBlock :: "('t, 'd, 's) env \<Rightarrow> Block \<Rightarrow> bool" where
  "wellFormedBlock E b \<longleftrightarrow>
     TxRoot (Header b) = GetTxTreeRoot E (Body b) \<and> GetBloomFilter E (Body b) = Inr (Bloom (Header b))"

text \<open>\<open>Prove\<close> fails only when the trie itself is damaged.\<close>

definition provable :: "('t, 'd, 's) env \<Rightarrow> bool" where
  "provable E \<longleftrightarrow> (\<forall>t k. trieProve E t k \<noteq> None)"

lemma OnTheBlock_complete:
  assumes "bitset_laws E" and "provable E" and "wellFormedBlock E b"
    and "\<exists>tx \<in> set (Body b). TxHash tx = h"
  shows "\<exists>kvs. trieProve E (txTree E (Body b)) h = Some kvs \<and> TxProofGenerateOnTheBlock E h b = Inr (foundIn h b kvs)"
proof -
  obtain i where i: "ModBytes h 2048 = Inr i" by (simp add: ModBytes_2048)
  have "bsTest E (Bloom (Header b)) i"
    using bloom_exact [OF assms(1), of "Body b" "Bloom (Header b)" i] assms(3,4) i
    by (auto simp: wellFormedBlock_def)
  moreover obtain kvs where "trieProve E (txTree E (Body b)) h = Some kvs"
    using assms(2) by (auto simp: provable_def)
  ultimately show ?thesis
    using i assms(3,4) by (auto simp: OnTheBlock_alt wellFormedBlock_def)
qed

lemma OnTheBlock_sound:
  assumes "TxProofGenerateOnTheBlock E h b = Inr r" and "Found r"
  shows "(\<exists>tx \<in> set (Body b). TxHash tx = h) \<and> GetTxTreeRoot E (Body b) = TxRoot (Header b) \<and>
    (\<exists>kvs. trieProve E (txTree E (Body b)) h = Some kvs \<and> r = foundIn h b kvs)"
  using assms by (auto simp: OnTheBlock_alt res_simps split: if_splits option.splits)

lemma verify_foundIn:
  assumes "trie_laws E" and "proof_laws E"
    and "trieProve E (txTree E (Body b)) h = Some kvs" and "TxRoot (Header b) = GetTxTreeRoot E (Body b)"
  shows "TxProofVerify E h' (foundIn h b kvs) =
    Inr (if \<exists>tx \<in> set (Body b). TxHash tx = h then (True, None) else (False, Some ''wrong proof''))"
proof -
  have "trieVerify E (toHash E (pr_TxRoot (foundIn h b kvs))) (pr_TxHash (foundIn h b kvs)) kvs =
      Some (trieGet E (txTree E (Body b)) h)"
    using proof_lawsD [OF assms(2,3)] assms(4) by (simp add: foundIn_def GetTxTreeRoot_def)
  then show ?thesis
    by (simp add: TxProofVerify_def recoveredProof_foundIn txTree_get [OF assms(1)])
qed

end
