(* ===== verification/PbftNode.thy ===== *)
theory PbftNode
  imports MerkleProofs
begin

text \<open>
  The consensus node of a shard: its state (pbft.go, dataSupport/clpaData_Extra.go), the
  messages it sends and the helpers of toolFuncs.go.

  \<^item> A message on the wire is a value of \<open>wire\<close>: JSON is a faithful encoding, so the
    handlers of the model take decoded messages. What a step sends is a list of pairs of
    an address and a message.
  \<^item> A Go map used as a set (\<open>isReply\<close>, \<open>PartitionReady\<close>) is a set; the counters of
    prepare and commit messages are sets of pointers, since the code keys them by
    \<open>*shard.Node\<close>: decoding a message allocates a new node, so a pointer is a number the
    handler is given with the message.
  \<^item> The in-memory body of the current block is not read again after the block is
    appended, so the marks the relay step leaves on it are not kept there.
\<close>

section \<open>State\<close>

record CLPAData =
  ModifiedMap :: "partitionMap list"
  AccountTransferRound :: u64
  ReceivedNewAccountState :: "address \<rightharpoonup> AccountState"
  ReceivedNewTx :: "Transaction list"
  AccountStateTx :: "u64 \<rightharpoonup> AccountStateAndTx"
  PartitionOn :: bool
  PartitionReady :: "u64 set"
  ReadySeq :: "u64 \<rightharpoonup> u64"
  CollectOver :: bool

definition NewCLPADataSupport :: CLPAData where
  "NewCLPADataSupport = \<lparr>ModifiedMap = [], AccountTransferRound = 0, ReceivedNewAccountState = Map.empty,
     ReceivedNewTx = [], AccountStateTx = Map.empty, PartitionOn = False, PartitionReady = {},
     ReadySeq = Map.empty, CollectOver = False\<rparr>"

type_synonym ipTable = "(u64 \<times> (u64 \<times> string) list) list"
type_synonym viewChangeData = "int \<times> u64"

record ('d, 's) pnode =
  RunningNode :: Node
  n_ShardID :: u64
  n_NodeID :: u64
  CurChain :: "('d, 's) BlockChain"
  ip_nodeTable :: ipTable
  node_nums :: u64
  malicious_nums :: u64
  view :: int
  lastCommitTime :: time
  viewChangeMap :: "viewChangeData \<Rightarrow> u64 set"
  newViewMap :: "viewChangeData \<Rightarrow> u64 set"
  sequenceID :: u64
  requestPool :: "bytes \<rightharpoonup> Request"
  cntPrepareConfirm :: "bytes \<Rightarrow> nat set"
  cntCommitConfirm :: "bytes \<Rightarrow> nat set"
  isCommitBordcast :: "bytes set"
  isReply :: "bytes set"
  height2Digest :: "u64 \<rightharpoonup> bytes"
  pbftStage :: int
  sequenceLocked :: bool
  askForLocked :: bool
  seqIDMap :: "u64 \<rightharpoonup> u64"
  cdm :: CLPAData

text \<open>Messages, with the constructor standing for the message type.\<close>

datatype wire =
    WPrePrepare PrePrepare
  | WPrepare Prepare
  | WCommit Commit
  | WRequestOld RequestOldMessage
  | WSendOld SendOldMessage
  | WViewChange ViewChangeMsg
  | WNewView NewViewMsg
  | WRelay Relay
  | WRelayWithProof RelayWithProof
  | WSeqIDinfo SeqIDinfo
  | WBlockInfo BlockInfoMsg
  | WPartitionReady PartitionReadyMsg
  | WAccountStateAndTx AccountStateAndTx
  | WAccountTransferBroker AccountStateAndTx
  | WInner2Cross "Transaction list"
  | WInject InjectTxs
  | WPartition partitionMap
  | WStop
  | WCsvLine "int list"

type_synonym outs = "(string \<times> wire) list"

section \<open>Addresses\<close>

definition getNodeIpsWithinShard :: "ipTable \<Rightarrow> u64 \<Rightarrow> string list" where
  "getNodeIpsWithinShard tbl sid = map snd (getOr [] (map_of tbl sid))"

definition getNeighborNodes :: "('d, 's) pnode \<Rightarrow> string list" where
  "getNeighborNodes p = getNodeIpsWithinShard (ip_nodeTable p) (n_ShardID p)"

text \<open>A missing entry of the table reads as the empty address.\<close>

definition ipOf :: "ipTable \<Rightarrow> u64 \<Rightarrow> u64 \<Rightarrow> string" where
  "ipOf tbl sid nid = getOr '''' (map_of (getOr [] (map_of tbl sid)) nid)"

definition Broadcast :: "string \<Rightarrow> string list \<Rightarrow> wire \<Rightarrow> outs" where
  "Broadcast sender receivers msg = map (\<lambda>ip. (ip, msg)) (filter (\<lambda>ip. ip \<noteq> sender) receivers)"

definition broadcastShard :: "('d, 's) pnode \<Rightarrow> wire \<Rightarrow> outs" where
  "broadcastShard p msg = Broadcast (IPaddr (RunningNode p)) (getNeighborNodes p) msg"

text \<open>The node is the leader of its view.\<close>

definition isLeader :: "('d, 's) pnode \<Rightarrow> bool" where
  "isLeader p \<longleftrightarrow> word_of_int (view p) = n_NodeID p"

text \<open>The other shards, in the order of the loops over them.\<close>

definition otherShards :: "('d, 's) pnode \<Rightarrow> u64 list" where
  "otherShards p = filter (\<lambda>sid. sid \<noteq> n_ShardID p)
     (map word_of_nat [0..<unat (ShardNums (ChainCfg (CurChain p)))])"

section \<open>A new node\<close>

text \<open>Five seconds, in milliseconds; \<open>now\<close> is in nanoseconds.\<close>

definition unixMilli :: "time \<Rightarrow> int" where
  "unixMilli t = t div 1000000"

definition NewPbftNode ::
  "('t, 'd, 's) env \<Rightarrow> u64 \<Rightarrow> u64 \<Rightarrow> ChainConfig \<Rightarrow> ipTable \<Rightarrow> 'd \<Rightarrow> 's \<Rightarrow> time \<Rightarrow> ('d, 's) pnode res" where
  "NewPbftNode E shardID nodeID pcc tbl db store now =
     bindR (NewBlockChain E pcc db store) (\<lambda>chain.
       Inr \<lparr>RunningNode = \<lparr>NodeID = nodeID, ShardID = shardID, IPaddr = ipOf tbl shardID nodeID\<rparr>,
            n_ShardID = shardID, n_NodeID = nodeID, CurChain = chain, ip_nodeTable = tbl,
            node_nums = Nodes_perShard pcc, malicious_nums = (Nodes_perShard pcc - 1) div 3,
            view = 0, lastCommitTime = unixMilli (now + 5000000000),
            viewChangeMap = (\<lambda>_. {}), newViewMap = (\<lambda>_. {}),
            sequenceID = Number (Header (CurrentBlock chain)) + 1,
            requestPool = Map.empty, cntPrepareConfirm = (\<lambda>_. {}), cntCommitConfirm = (\<lambda>_. {}),
            isCommitBordcast = {}, isReply = {}, height2Digest = Map.empty, pbftStage = 1,
            sequenceLocked = False, askForLocked = False, seqIDMap = Map.empty,
            cdm = NewCLPADataSupport\<rparr>)"

text \<open>
  The kinds of module pairs. \<open>NewPbftNode\<close> replaces any other type by \<open>CLPA\<close> before the
  switch that selects the modules.
\<close>

datatype moduleKind = KRelay | KBroker | KCLPA | KCLPABroker

definition selectModule :: "string \<Rightarrow> moduleKind" where
  "selectModule messageHandleType =
     (let messageHandleType = (if messageHandleType \<noteq> ''CLPA'' then ''CLPA'' else messageHandleType)
      in if messageHandleType = ''CLPA_Broker'' then KCLPABroker
         else if messageHandleType = ''CLPA'' then KCLPA
         else if messageHandleType = ''Broker'' then KBroker
         else KRelay)"

section \<open>Helpers (toolFuncs.go)\<close>

definition set2DMap :: "bool \<Rightarrow> bytes \<Rightarrow> nat \<Rightarrow> ('d, 's) pnode \<Rightarrow> ('d, 's) pnode" where
  "set2DMap isPrePareConfirm key ptr p =
     (if isPrePareConfirm
      then p\<lparr>cntPrepareConfirm := (cntPrepareConfirm p)(key := insert ptr (cntPrepareConfirm p key))\<rparr>
      else p\<lparr>cntCommitConfirm := (cntCommitConfirm p)(key := insert ptr (cntCommitConfirm p key))\<rparr>)"

text \<open>The milliseconds between two times; Go's \<open>Sub\<close> saturates only beyond 292 years.\<close>

definition milliSub :: "time \<Rightarrow> time \<Rightarrow> int" where
  "milliSub a b = sgn (a - b) * (\<bar>a - b\<bar> div 1000000)"

definition computeTCL :: "Transaction list \<Rightarrow> time \<Rightarrow> int" where
  "computeTCL txs commitTS = foldl (\<lambda>ret tx. ret + milliSub commitTS (Time tx)) 0 txs"

definition onPool :: "(TxPool \<Rightarrow> TxPool) \<Rightarrow> ('d, 's) pnode \<Rightarrow> ('d, 's) pnode" where
  "onPool f p = p\<lparr>CurChain := (CurChain p)\<lparr>Txpool := f (Txpool (CurChain p))\<rparr>\<rparr>"

definition relayTxsTo :: "('d, 's) pnode \<Rightarrow> u64 \<Rightarrow> Transaction list" where
  "relayTxsTo p sid = getOr [] (relayLookup (Txpool (CurChain p)) sid)"

definition RelayMsgSend :: "params \<Rightarrow> ('d, 's) pnode \<Rightarrow> (('d, 's) pnode \<times> outs) res" where
  "RelayMsgSend cfg p =
     (if RelayWithMerkleProof cfg \<noteq> 0 then Inl LogPanic
      else Inr (onPool ClearRelayPool p,
                map (\<lambda>sid. (ipOf (ip_nodeTable p) sid 0,
                            WRelay \<lparr>r_Txs = relayTxsTo p sid, r_SenderShardID = n_ShardID p,
                                    r_SenderSeq = sequenceID p\<rparr>)) (otherShards p)))"

definition RelayWithProofSend ::
  "('t, 'd, 's) env \<Rightarrow> params \<Rightarrow> Block \<Rightarrow> ('d, 's) pnode \<Rightarrow> (('d, 's) pnode \<times> outs) res" where
  "RelayWithProofSend E cfg block p =
     (if RelayWithMerkleProof cfg \<noteq> 1 then Inl LogPanic
      else bindR (foldR (\<lambda>os sid.
                    bindR (TxProofBatchGenerateOnBlock E (map TxHash (relayTxsTo p sid)) block) (\<lambda>txProofs.
                      Inr (os @ [(ipOf (ip_nodeTable p) sid 0,
                                  WRelayWithProof \<lparr>rwp_Txs = relayTxsTo p sid, TxProofs = txProofs,
                                    rwp_SenderShardID = n_ShardID p, rwp_SenderSeq = sequenceID p\<rparr>)])))
                  [] (otherShards p))
           (\<lambda>os. Inr (onPool ClearRelayPool p, os)))"

text \<open>
  \<open>DeleteElementsInList\<close> moves the elements it keeps to the front and counts the others,
  then returns \<open>list[:-removedCnt]\<close>.
\<close>

fun deleteScan :: "bytes set \<Rightarrow> Transaction list \<Rightarrow> Transaction list \<times> int \<Rightarrow> Transaction list \<times> int" where
  "deleteScan hs [] acc = acc"
| "deleteScan hs (tx # txs) (kept, removedCnt) =
     (if TxHash tx \<in> hs then deleteScan hs txs (kept, removedCnt + 1)
      else deleteScan hs txs (kept @ [tx], removedCnt))"

definition DeleteElementsInList :: "Transaction list \<Rightarrow> Transaction list \<Rightarrow> Transaction list res" where
  "DeleteElementsInList list elements =
     (let (kept, removedCnt) = deleteScan (TxHash ` set elements) list ([], 0);
          compacted = kept @ drop (length kept) list
      in sliceTo compacted (- removedCnt))"

section \<open>The interface of the consensus modules (pbftMod_interface.go)\<close>

text \<open>
  What a proposal does: \<open>Waiting n\<close> when the module's loop has to wait (it resumes at
  phase \<open>n\<close>), \<open>Proposed r\<close> when it returns the request.
\<close>

datatype proposal = Waiting nat | Proposed Request

text \<open>
  The clock and the iteration orders of one step: \<open>s_now\<close> and \<open>s_clk\<close> are the times read,
  \<open>s_ordA\<close> and \<open>s_ordS\<close> list the keys of a map of addresses and of a map of shards.
\<close>

record sched =
  s_now :: time
  s_clk :: "nat \<Rightarrow> time"
  s_ordA :: "address set \<Rightarrow> address list"
  s_ordS :: "u64 set \<Rightarrow> u64 list"

record ('d, 's) ihm =
  HandleinPropose :: "sched \<Rightarrow> nat \<Rightarrow> ('d, 's) pnode \<Rightarrow> (proposal \<times> ('d, 's) pnode \<times> outs) res"
  HandleinPrePrepare :: "PrePrepare \<Rightarrow> ('d, 's) pnode \<Rightarrow> (bool \<times> ('d, 's) pnode) res"
  HandleinPrepare :: "Prepare \<Rightarrow> ('d, 's) pnode \<Rightarrow> bool \<times> ('d, 's) pnode"
  HandleinCommit :: "sched \<Rightarrow> Commit \<Rightarrow> ('d, 's) pnode \<Rightarrow> (('d, 's) pnode \<times> outs) res"
  HandleReqestforOldSeq :: "RequestOldMessage \<Rightarrow> ('d, 's) pnode \<Rightarrow> bool \<times> ('d, 's) pnode"
  HandleforSequentialRequest :: "SendOldMessage \<Rightarrow> ('d, 's) pnode \<Rightarrow> ('d, 's) pnode res"

end
