(* ===== verification/Injection.thy ===== *)
theory Injection
  imports PbftNode
begin

text \<open>
  What the four committees of the supervisor share: the stop signal
  (supervisor/signal/supervisorStopModule.go), the transactions read from the rows of the
  data set, and the batched injection of transactions into the shards
  (supervisor/committee/committee_relay.go, repeated in the other three files). The relay
  committee, which does nothing else, is modelled here in full.

  \<^item> A committee sends through goroutines; a run of one of its operations returns the list
    of its \<open>action\<close>s in the order in which the code starts them.
  \<^item> The rows of the CSV file are given as lists of fields, as the CSV reader returns them.
  \<^item> \<open>clk i\<close> is the \<open>i\<close>-th reading of the clock in an operation.
\<close>

section \<open>The stop signal\<close>

record StopSignal =
  stopGap :: int
  stopThreshold :: int

definition NewStopSignal :: "int \<Rightarrow> StopSignal" where
  "NewStopSignal stop_Threshold = \<lparr>stopGap = 0, stopThreshold = stop_Threshold\<rparr>"

definition StopGap_Inc :: "StopSignal \<Rightarrow> StopSignal" where
  "StopGap_Inc ss = ss\<lparr>stopGap := stopGap ss + 1\<rparr>"

definition StopGap_Reset :: "StopSignal \<Rightarrow> StopSignal" where
  "StopGap_Reset ss = ss\<lparr>stopGap := 0\<rparr>"

definition GapEnough :: "StopSignal \<Rightarrow> bool" where
  "GapEnough ss \<longleftrightarrow> stopGap ss \<ge> stopThreshold ss"

section \<open>Actions of a committee\<close>

datatype action =
    ASend string wire
  | AResetGap

definition sends :: "outs \<Rightarrow> action list" where
  "sends os = map (\<lambda>(ip, m). ASend ip m) os"

section \<open>Reading a row of the data set\<close>

definition decDigit :: "char \<Rightarrow> nat option" where
  "decDigit c = (let n = of_char c :: nat in if 48 \<le> n \<and> n \<le> 57 then Some (n - 48) else None)"

fun parseDecFrom :: "nat \<Rightarrow> string \<Rightarrow> nat option" where
  "parseDecFrom acc [] = Some acc"
| "parseDecFrom acc (c # cs) =
     (case decDigit c of None \<Rightarrow> None | Some d \<Rightarrow> parseDecFrom (10 * acc + d) cs)"

text \<open>\<open>big.Int.SetString(s, 10)\<close>: an optional sign and at least one digit.\<close>

definition SetString10 :: "string \<Rightarrow> int option" where
  "SetString10 s =
     (let (neg, ds) = (case s of [] \<Rightarrow> (False, [])
         | c # cs \<Rightarrow> if c = CHR ''-'' then (True, cs) else if c = CHR ''+'' then (False, cs) else (False, s))
      in if ds = [] then None
         else map_option (\<lambda>n. if neg then - int n else int n) (parseDecFrom 0 ds))"

text \<open>The fields are read in the order of the condition, which stops at the first that fails.\<close>

definition legalRow :: "string list \<Rightarrow> bool res" where
  "legalRow data =
     bindR (nthR data 6) (\<lambda>d6. if d6 \<noteq> ''0'' then Inr False else
     bindR (nthR data 7) (\<lambda>d7. if d7 \<noteq> ''0'' then Inr False else
     bindR (nthR data 3) (\<lambda>d3. if length d3 \<le> 16 then Inr False else
     bindR (nthR data 4) (\<lambda>d4. if length d4 \<le> 16 then Inr False else Inr (d3 \<noteq> d4)))))"

definition data2tx :: "(Transaction \<Rightarrow> bytes) \<Rightarrow> time \<Rightarrow> string list \<Rightarrow> u64 \<Rightarrow> (Transaction \<times> bool) res" where
  "data2tx hash now data nonce =
     bindR (legalRow data) (\<lambda>legal.
       if legal then
         bindR (nthR data 8) (\<lambda>d8.
         bindR (ofOption LogPanic (SetString10 d8)) (\<lambda>val.
           Inr (NewTransaction hash (drop 2 (data ! 3)) (drop 2 (data ! 4)) val nonce now, True)))
       else Inr (zeroTx, False))"

section \<open>Injecting transactions\<close>

text \<open>The shard identifiers of the loop over \<open>params.ShardNum\<close>.\<close>

definition shardIds :: "params \<Rightarrow> u64 list" where
  "shardIds cfg = map word_of_nat [0..<unat (word_of_int (ShardNum cfg) :: u64)]"

definition flushShards :: "params \<Rightarrow> ipTable \<Rightarrow> (u64 \<Rightarrow> Transaction list) \<Rightarrow> outs" where
  "flushShards cfg tbl sendToShard =
     map (\<lambda>sid. (ipOf tbl sid 0, WInject \<lparr>it_Txs = sendToShard sid, ToShardID = sid\<rparr>)) (shardIds cfg)"

text \<open>
  The loop of \<open>txSending\<close> from index \<open>idx\<close>; the list is what is left of the
  transactions, so it is empty when \<open>idx\<close> has reached their number. \<open>dest\<close> is the shard
  the committee chooses for a transaction.
\<close>

fun sendLoop ::
  "params \<Rightarrow> ipTable \<Rightarrow> (Transaction \<Rightarrow> u64 res) \<Rightarrow> nat \<Rightarrow> (u64 \<Rightarrow> Transaction list) \<Rightarrow> Transaction list \<Rightarrow>
   outs \<Rightarrow> outs res" where
  "sendLoop cfg tbl dest idx sendToShard txs os =
     bindR (if idx > 0 then bindR (goRem (int idx) (InjectSpeed cfg)) (\<lambda>r. Inr (r = 0 \<or> txs = []))
            else Inr False) (\<lambda>flush.
       let (sendToShard, os) =
             (if flush then (\<lambda>_. [], os @ flushShards cfg tbl sendToShard) else (sendToShard, os))
       in case txs of
            [] \<Rightarrow> Inr os
          | tx # txs \<Rightarrow>
              bindR (dest tx) (\<lambda>sid.
                sendLoop cfg tbl dest (Suc idx) (sendToShard(sid := sendToShard sid @ [tx])) txs os))"

declare sendLoop.simps [simp del]

definition txSendingBy :: "params \<Rightarrow> ipTable \<Rightarrow> (Transaction \<Rightarrow> u64 res) \<Rightarrow> Transaction list \<Rightarrow> outs res" where
  "txSendingBy cfg tbl dest txlist = sendLoop cfg tbl dest 0 (\<lambda>_. []) txlist []"

text \<open>The static placement of the relay and broker committees.\<close>

definition staticShard :: "params \<Rightarrow> address \<Rightarrow> u64 res" where
  "staticShard cfg key = bindR (Addr2Shard (ShardNum cfg) key) (\<lambda>s. Inr (word_of_int s))"

section \<open>The relay committee\<close>

record committee =
  dataTotalNum :: int
  nowDataNum :: int
  batchDataNum :: int

definition NewRelayCommitteeModule :: "int \<Rightarrow> int \<Rightarrow> committee" where
  "NewRelayCommitteeModule dataNum batchNum =
     \<lparr>dataTotalNum = dataNum, nowDataNum = 0, batchDataNum = batchNum\<rparr>"

definition relay_txSending :: "params \<Rightarrow> ipTable \<Rightarrow> Transaction list \<Rightarrow> outs res" where
  "relay_txSending cfg tbl txlist = txSendingBy cfg tbl (\<lambda>tx. staticShard cfg (Sender tx)) txlist"

text \<open>The loop over the rows: the committee, the transactions of the current batch, the actions so far.\<close>

fun relayRows ::
  "('t, 'd, 's) env \<Rightarrow> params \<Rightarrow> ipTable \<Rightarrow> (nat \<Rightarrow> time) \<Rightarrow> string list list \<Rightarrow>
   committee \<times> Transaction list \<times> action list \<Rightarrow> (committee \<times> Transaction list \<times> action list) res" where
  "relayRows E cfg tbl clk [] st = Inr st"
| "relayRows E cfg tbl clk (data # rows) (c, txlist, acts) =
     bindR (data2tx (hashTx E) (clk (length rows)) data (word_of_int (nowDataNum c))) (\<lambda>(tx, ok).
     let (c, txlist) = (if ok then (c\<lparr>nowDataNum := nowDataNum c + 1\<rparr>, txlist @ [tx]) else (c, txlist)) in
     bindR (if int (length txlist) = batchDataNum c \<or> nowDataNum c = dataTotalNum c
            then bindR (relay_txSending cfg tbl txlist) (\<lambda>os. Inr ([], acts @ sends os @ [AResetGap]))
            else Inr (txlist, acts)) (\<lambda>(txlist, acts).
       if nowDataNum c = dataTotalNum c then Inr (c, txlist, acts)
       else relayRows E cfg tbl clk rows (c, txlist, acts)))"

definition relay_MsgSendingControl ::
  "('t, 'd, 's) env \<Rightarrow> params \<Rightarrow> ipTable \<Rightarrow> (nat \<Rightarrow> time) \<Rightarrow> string list list \<Rightarrow> committee \<Rightarrow>
   (committee \<times> action list) res" where
  "relay_MsgSendingControl E cfg tbl clk rows c =
     bindR (relayRows E cfg tbl clk rows (c, [], [])) (\<lambda>(c, txlist, acts). Inr (c, acts))"

text \<open>The relay committee only logs a block report and ignores every other message.\<close>

definition relay_HandleBlockInfo :: "BlockInfoMsg \<Rightarrow> committee \<Rightarrow> committee" where
  "relay_HandleBlockInfo b c = c"

section \<open>Lemmas\<close>

lemma shardIds_word:
  assumes "0 \<le> ShardNum cfg" "ShardNum cfg < 2 ^ 64"
  shows "set (shardIds cfg) = {sid. int (unat sid) < ShardNum cfg}" "distinct (shardIds cfg)"
proof -
  have n: "int (unat (word_of_int (ShardNum cfg) :: u64)) = ShardNum cfg"
    using assms by (simp add: unsigned_of_int take_bit_int_eq_self_iff)
  show "set (shardIds cfg) = {sid. int (unat sid) < ShardNum cfg}"
  proof (intro set_eqI iffI)
    fix sid
    assume "sid \<in> set (shardIds cfg)"
    then obtain k where k: "k < unat (word_of_int (ShardNum cfg) :: u64)" "sid = word_of_nat k"
      by (auto simp: shardIds_def)
    then have "unat sid \<le> k" by (simp add: unsigned_of_nat take_bit_nat_eq_self_iff take_bit_eq_mod)
    with k(1) have "unat sid < unat (word_of_int (ShardNum cfg) :: u64)" by (rule le_less_trans [rotated])
    then have "int (unat sid) < int (unat (word_of_int (ShardNum cfg) :: u64))" by (simp only: of_nat_less_iff)
    with n show "sid \<in> {sid. int (unat sid) < ShardNum cfg}" by (simp only: mem_Collect_eq)
  next
    fix sid :: u64
    assume "sid \<in> {sid. int (unat sid) < ShardNum cfg}"
    then have "int (unat sid) < int (unat (word_of_int (ShardNum cfg) :: u64))" by (simp only: n mem_Collect_eq)
    then have "unat sid < unat (word_of_int (ShardNum cfg) :: u64)" by (simp only: of_nat_less_iff)
    then show "sid \<in> set (shardIds cfg)"
      unfolding shardIds_def by (auto intro!: image_eqI [of _ _ "unat sid"])
  qed
  have "inj_on (word_of_nat :: nat \<Rightarrow> u64) {0..<unat (word_of_int (ShardNum cfg) :: u64)}"
  proof (rule inj_onI)
    fix a b
    assume "a \<in> {0..<unat (word_of_int (ShardNum cfg) :: u64)}" "b \<in> {0..<unat (word_of_int (ShardNum cfg) :: u64)}"
      and eq: "(word_of_nat a :: u64) = word_of_nat b"
    then have "a < unat (word_of_int (ShardNum cfg) :: u64)" "b < unat (word_of_int (ShardNum cfg) :: u64)" by simp_all
    then have "a < 2 ^ 64" "b < 2 ^ 64" by (blast intro: less_trans unat_bound)+
    then have "unat (word_of_nat a :: u64) = a" "unat (word_of_nat b :: u64) = b"
      by (simp_all add: unsigned_of_nat take_bit_nat_eq_self_iff)
    then show "a = b" unfolding eq by (rule trans [OF sym])
  qed
  then show "distinct (shardIds cfg)" by (simp add: shardIds_def distinct_map)
qed

lemma staticShard_range:
  assumes "staticShard cfg a = Inr s" "0 < ShardNum cfg" "ShardNum cfg < 2 ^ 64"
  shows "s \<in> set (shardIds cfg)"
proof -
  obtain i where i: "Addr2Shard (ShardNum cfg) a = Inr i" "s = word_of_int i"
    using assms(1) by (auto simp: staticShard_def res_simps)
  then have "0 \<le> i" "i < ShardNum cfg" using Addr2Shard_range assms(2) by blast+
  then have "int (unat s) = i" using assms(3) i(2) by (simp add: unsigned_of_int take_bit_int_eq_self_iff)
  with \<open>i < ShardNum cfg\<close> show ?thesis using shardIds_word [of cfg] assms(2,3) by simp
qed

end
