(* ===== verification/BrokerCommittee.thy ===== *)
theory BrokerCommittee
  imports Injection
begin

text \<open>
  Broker accounts (broker/broker.go), the messages of the broker protocol
  (message/message_broker.go) and the broker committee
  (supervisor/committee/committee_broker.go): a transaction between two shards is split into
  one from the sender to a broker account and, once that one is reported committed, one from
  the broker to the recipient.

  \<^item> The committee of committee\_clpa\_broker.go repeats these operations with another
    placement of accounts: an operation takes the placement as the argument \<open>fetch\<close> and
    works on every state that extends \<open>brokerCommittee\<close>.
  \<^item> The digest of a raw message (SHA-256 of its JSON form) is the argument \<open>dg\<close>.
  \<^item> A transaction in a raw message is shared by pointer and not written any more, so the
    model keeps its value.
\<close>

section \<open>Broker messages\<close>

record BrokerRawMeg =
  rm_Tx :: Transaction
  rm_Broker :: address
  Hlock :: u64
  Snonce :: u64
  Bnonce :: u64
  rm_Signature :: bytes

record BrokerType1Meg =
  t1_RawMeg :: BrokerRawMeg
  Hcurrent :: u64
  t1_Broker :: address

record Mag1Confirm =
  Tx1Hash :: bytes
  c1_RawMeg :: BrokerRawMeg

record BrokerType2Meg =
  t2_RawMeg :: BrokerRawMeg
  t2_Broker :: address

record Mag2Confirm =
  Tx2Hash :: bytes
  c2_RawMeg :: BrokerRawMeg

section \<open>Broker accounts\<close>

record Broker =
  BrokerRawMegs :: "bytes \<rightharpoonup> BrokerRawMeg"
  BrokerAddress :: "string list"
  RawTx2BrokerTx :: "bytes \<Rightarrow> bytes list"

text \<open>
  The addresses are the lines of a file, read until a counter that starts at
  \<open>params.BrokerNum\<close> is zero after a line. A file that cannot be opened has no lines.
\<close>

fun initBrokerAddr :: "string list \<Rightarrow> int \<Rightarrow> string list" where
  "initBrokerAddr [] num = []"
| "initBrokerAddr (l # lines) num = (if num - 1 = 0 then [l] else l # initBrokerAddr lines (num - 1))"

definition NewBroker :: "string list \<Rightarrow> int \<Rightarrow> Broker" where
  "NewBroker lines BrokerNum =
     \<lparr>BrokerRawMegs = Map.empty, BrokerAddress = initBrokerAddr lines BrokerNum, RawTx2BrokerTx = (\<lambda>_. [])\<rparr>"

definition IsBroker :: "Broker \<Rightarrow> address \<Rightarrow> bool" where
  "IsBroker b address \<longleftrightarrow> list_ex (\<lambda>brokerAddress. brokerAddress = address) (BrokerAddress b)"

section \<open>The state of a committee with brokers\<close>

record brokerCommittee = committee +
  broker :: Broker
  brokerConfirm1Pool :: "bytes \<rightharpoonup> Mag1Confirm"
  brokerConfirm2Pool :: "bytes \<rightharpoonup> Mag2Confirm"
  brokerTxPool :: "Transaction list"

definition NewBrokerCommitteeMod :: "string list \<Rightarrow> int \<Rightarrow> int \<Rightarrow> int \<Rightarrow> brokerCommittee" where
  "NewBrokerCommitteeMod lines BrokerNum dataNum batchNum =
     \<lparr>dataTotalNum = dataNum, nowDataNum = 0, batchDataNum = batchNum, broker = NewBroker lines BrokerNum,
      brokerConfirm1Pool = Map.empty, brokerConfirm2Pool = Map.empty, brokerTxPool = []\<rparr>"

text \<open>The shard a transaction is sent to: the sender's, or the recipient's when the sender is a broker.\<close>

definition brokerDest :: "(address \<Rightarrow> u64 res) \<Rightarrow> Broker \<Rightarrow> Transaction \<Rightarrow> u64 res" where
  "brokerDest fetch b tx =
     bindR (fetch (Sender tx)) (\<lambda>sendersid.
       if IsBroker b (Sender tx) then fetch (Recipient tx) else Inr sendersid)"

definition broker_txSending ::
  "params \<Rightarrow> ipTable \<Rightarrow> (address \<Rightarrow> u64 res) \<Rightarrow> 'z brokerCommittee_scheme \<Rightarrow> Transaction list \<Rightarrow> outs res" where
  "broker_txSending cfg tbl fetch m txlist = txSendingBy cfg tbl (brokerDest fetch (broker m)) txlist"

section \<open>The two halves of a split transaction\<close>

definition mkTx1 :: "(Transaction \<Rightarrow> bytes) \<Rightarrow> time \<Rightarrow> BrokerType1Meg \<Rightarrow> Transaction" where
  "mkTx1 hash now meg =
     (let ctx = rm_Tx (t1_RawMeg meg) in
      (NewTransaction hash (Sender ctx) (t1_Broker meg) (Value ctx) (Nonce ctx) now)
        \<lparr>OriginalSender := Sender ctx, FinalRecipient := Recipient ctx, RawTxHash := Some (TxHash ctx)\<rparr>)"

definition mkTx2 :: "(Transaction \<Rightarrow> bytes) \<Rightarrow> time \<Rightarrow> BrokerType2Meg \<Rightarrow> Transaction" where
  "mkTx2 hash now meg =
     (let ctx = rm_Tx (t2_RawMeg meg) in
      (NewTransaction hash (t2_Broker meg) (Recipient ctx) (Value ctx) (Nonce ctx) now)
        \<lparr>OriginalSender := Sender ctx, FinalRecipient := Recipient ctx, RawTxHash := Some (TxHash ctx)\<rparr>)"

definition addTx1 ::
  "(Transaction \<Rightarrow> bytes) \<Rightarrow> (nat \<Rightarrow> time) \<Rightarrow> 'z brokerCommittee_scheme \<times> Transaction list \<Rightarrow> BrokerType1Meg \<Rightarrow>
   'z brokerCommittee_scheme \<times> Transaction list" where
  "addTx1 hash clk st meg =
     (let (m, tx1s) = st; tx1 = mkTx1 hash (clk (length tx1s)) meg in
      (m\<lparr>brokerConfirm1Pool := (brokerConfirm1Pool m)(TxHash tx1 \<mapsto> \<lparr>Tx1Hash = TxHash tx1, c1_RawMeg = t1_RawMeg meg\<rparr>)\<rparr>,
       tx1s @ [tx1]))"

definition handleBrokerType1Mes ::
  "('t, 'd, 's) env \<Rightarrow> params \<Rightarrow> ipTable \<Rightarrow> (address \<Rightarrow> u64 res) \<Rightarrow> (nat \<Rightarrow> time) \<Rightarrow> BrokerType1Meg list \<Rightarrow>
   'z brokerCommittee_scheme \<Rightarrow> ('z brokerCommittee_scheme \<times> outs) res" where
  "handleBrokerType1Mes E cfg tbl fetch clk megs m =
     (let (m, tx1s) = foldl (addTx1 (hashTx E) clk) (m, []) megs in
      bindR (broker_txSending cfg tbl fetch m tx1s) (\<lambda>os. Inr (m, os)))"

definition addTx2 ::
  "(Transaction \<Rightarrow> bytes) \<Rightarrow> (nat \<Rightarrow> time) \<Rightarrow> 'z brokerCommittee_scheme \<times> Transaction list \<Rightarrow> BrokerType2Meg \<Rightarrow>
   'z brokerCommittee_scheme \<times> Transaction list" where
  "addTx2 hash clk st meg =
     (let (m, tx2s) = st; tx2 = mkTx2 hash (clk (length tx2s)) meg in
      (m\<lparr>brokerConfirm2Pool := (brokerConfirm2Pool m)(TxHash tx2 \<mapsto> \<lparr>Tx2Hash = TxHash tx2, c2_RawMeg = t2_RawMeg meg\<rparr>)\<rparr>,
       tx2s @ [tx2]))"

definition handleBrokerType2Mes ::
  "('t, 'd, 's) env \<Rightarrow> params \<Rightarrow> ipTable \<Rightarrow> (address \<Rightarrow> u64 res) \<Rightarrow> (nat \<Rightarrow> time) \<Rightarrow> BrokerType2Meg list \<Rightarrow>
   'z brokerCommittee_scheme \<Rightarrow> ('z brokerCommittee_scheme \<times> outs) res" where
  "handleBrokerType2Mes E cfg tbl fetch clk megs m =
     (let (m, tx2s) = foldl (addTx2 (hashTx E) clk) (m, []) megs in
      bindR (broker_txSending cfg tbl fetch m tx2s) (\<lambda>os. Inr (m, os)))"

section \<open>Splitting\<close>

definition onBroker :: "(Broker \<Rightarrow> Broker) \<Rightarrow> 'z brokerCommittee_scheme \<Rightarrow> 'z brokerCommittee_scheme" where
  "onBroker f m = m\<lparr>broker := f (broker m)\<rparr>"

definition handleBrokerRawMag ::
  "('t, 'd, 's) env \<Rightarrow> (BrokerRawMeg \<Rightarrow> bytes) \<Rightarrow> params \<Rightarrow> ipTable \<Rightarrow> (address \<Rightarrow> u64 res) \<Rightarrow> (nat \<Rightarrow> time) \<Rightarrow>
   BrokerRawMeg list \<Rightarrow> 'z brokerCommittee_scheme \<Rightarrow> ('z brokerCommittee_scheme \<times> outs) res" where
  "handleBrokerRawMag E dg cfg tbl fetch clk megs m =
     (let m = foldl (\<lambda>m meg. onBroker (\<lambda>b. b\<lparr>BrokerRawMegs := (BrokerRawMegs b)(dg meg \<mapsto> meg)\<rparr>) m) m megs;
          type1s = map (\<lambda>meg. \<lparr>t1_RawMeg = meg, Hcurrent = 0, t1_Broker = rm_Broker meg\<rparr>) megs
      in handleBrokerType1Mes E cfg tbl fetch clk type1s m)"

text \<open>One transaction of \<open>dealTxByBroker\<close>: kept for direct injection, or put in a raw message.\<close>

definition dealTx ::
  "(address \<Rightarrow> u64 res) \<Rightarrow> Broker \<Rightarrow> Transaction list \<times> BrokerRawMeg list \<Rightarrow> Transaction \<Rightarrow>
   (Transaction list \<times> BrokerRawMeg list) res" where
  "dealTx fetch b st tx =
     (let (itxs, megs) = st in
      bindR (fetch (Recipient tx)) (\<lambda>rSid.
      bindR (fetch (Sender tx)) (\<lambda>sSid.
        if rSid \<noteq> sSid \<and> \<not> IsBroker b (Recipient tx) \<and> \<not> IsBroker b (Sender tx) then
          bindR (nthR (BrokerAddress b) 0) (\<lambda>a.
            Inr (itxs, megs @ [\<lparr>rm_Tx = tx, rm_Broker = a, Hlock = 0, Snonce = 0, Bnonce = 0, rm_Signature = ''''\<rparr>]))
        else
          let tx = (if IsBroker b (Recipient tx) \<or> IsBroker b (Sender tx)
                    then tx\<lparr>HasBroker := True, SenderIsBroker := IsBroker b (Sender tx)\<rparr> else tx)
          in Inr (itxs @ [tx], megs))))"

definition dealTxByBroker ::
  "('t, 'd, 's) env \<Rightarrow> (BrokerRawMeg \<Rightarrow> bytes) \<Rightarrow> params \<Rightarrow> ipTable \<Rightarrow> (address \<Rightarrow> u64 res) \<Rightarrow> (nat \<Rightarrow> time) \<Rightarrow>
   Transaction list \<Rightarrow> 'z brokerCommittee_scheme \<Rightarrow> (Transaction list \<times> 'z brokerCommittee_scheme \<times> outs) res" where
  "dealTxByBroker E dg cfg tbl fetch clk txs m =
     bindR (foldR (dealTx fetch (broker m)) ([], []) txs) (\<lambda>(itxs, megs).
       if megs = [] then Inr (itxs, m, [])
       else bindR (handleBrokerRawMag E dg cfg tbl fetch clk megs m) (\<lambda>(m, os). Inr (itxs, m, os)))"

section \<open>Confirmations\<close>

definition noteBrokerTx :: "BrokerRawMeg \<Rightarrow> bytes \<Rightarrow> Broker \<Rightarrow> Broker" where
  "noteBrokerTx raw h b =
     b\<lparr>RawTx2BrokerTx := (RawTx2BrokerTx b)(TxHash (rm_Tx raw) := RawTx2BrokerTx b (TxHash (rm_Tx raw)) @ [h])\<rparr>"

definition confirm1 ::
  "(BrokerRawMeg \<Rightarrow> bytes) \<Rightarrow> 'z brokerCommittee_scheme \<times> BrokerType2Meg list \<Rightarrow> Mag1Confirm \<Rightarrow>
   ('z brokerCommittee_scheme \<times> BrokerType2Meg list) res" where
  "confirm1 dg st c =
     (let (m, type2s) = st; raw = c1_RawMeg c in
      if BrokerRawMegs (broker m) (dg raw) = None then Inr (m, type2s)
      else let m = onBroker (noteBrokerTx raw (Tx1Hash c)) m in
        bindR (nthR (BrokerAddress (broker m)) 0) (\<lambda>a.
          Inr (m, type2s @ [\<lparr>t2_RawMeg = raw, t2_Broker = a\<rparr>])))"

definition handleTx1ConfirmMag ::
  "('t, 'd, 's) env \<Rightarrow> (BrokerRawMeg \<Rightarrow> bytes) \<Rightarrow> params \<Rightarrow> ipTable \<Rightarrow> (address \<Rightarrow> u64 res) \<Rightarrow> (nat \<Rightarrow> time) \<Rightarrow>
   Mag1Confirm list \<Rightarrow> 'z brokerCommittee_scheme \<Rightarrow> ('z brokerCommittee_scheme \<times> outs) res" where
  "handleTx1ConfirmMag E dg cfg tbl fetch clk cs m =
     bindR (foldR (confirm1 dg) (m, []) cs) (\<lambda>(m, type2s).
       handleBrokerType2Mes E cfg tbl fetch clk type2s m)"

definition handleTx2ConfirmMag :: "Mag2Confirm list \<Rightarrow> 'z brokerCommittee_scheme \<Rightarrow> 'z brokerCommittee_scheme" where
  "handleTx2ConfirmMag cs m = foldl (\<lambda>m c. onBroker (noteBrokerTx (c2_RawMeg c) (Tx2Hash c)) m) m cs"

definition createConfirm ::
  "('t, 'd, 's) env \<Rightarrow> (BrokerRawMeg \<Rightarrow> bytes) \<Rightarrow> params \<Rightarrow> ipTable \<Rightarrow> (address \<Rightarrow> u64 res) \<Rightarrow> (nat \<Rightarrow> time) \<Rightarrow>
   Transaction list \<Rightarrow> 'z brokerCommittee_scheme \<Rightarrow> ('z brokerCommittee_scheme \<times> outs) res" where
  "createConfirm E dg cfg tbl fetch clk txs m =
     (let confirm1s = List.map_filter (\<lambda>tx. brokerConfirm1Pool m (TxHash tx)) txs;
          confirm2s = List.map_filter (\<lambda>tx. brokerConfirm2Pool m (TxHash tx)) txs
      in bindR (if confirm1s \<noteq> [] then handleTx1ConfirmMag E dg cfg tbl fetch clk confirm1s m else Inr (m, []))
           (\<lambda>(m, os). Inr (if confirm2s \<noteq> [] then handleTx2ConfirmMag confirm2s m else m, os)))"

section \<open>The broker committee\<close>

definition broker_HandleBlockInfo ::
  "('t, 'd, 's) env \<Rightarrow> (BrokerRawMeg \<Rightarrow> bytes) \<Rightarrow> params \<Rightarrow> ipTable \<Rightarrow> (nat \<Rightarrow> time) \<Rightarrow> BlockInfoMsg \<Rightarrow>
   brokerCommittee \<Rightarrow> (brokerCommittee \<times> outs) res" where
  "broker_HandleBlockInfo E dg cfg tbl clk b m =
     (if BlockBodyLength b = 0 then Inr (m, [])
      else createConfirm E dg cfg tbl (staticShard cfg) clk (Broker1Txs b @ Broker2Txs b) m)"

text \<open>Sending a batch: the split transactions first, then the ones injected as they are.\<close>

definition brokerBatch ::
  "('t, 'd, 's) env \<Rightarrow> (BrokerRawMeg \<Rightarrow> bytes) \<Rightarrow> params \<Rightarrow> ipTable \<Rightarrow> (address \<Rightarrow> u64 res) \<Rightarrow> (nat \<Rightarrow> time) \<Rightarrow>
   Transaction list \<Rightarrow> 'z brokerCommittee_scheme \<Rightarrow> ('z brokerCommittee_scheme \<times> action list) res" where
  "brokerBatch E dg cfg tbl fetch clk txlist m =
     bindR (dealTxByBroker E dg cfg tbl fetch clk txlist m) (\<lambda>(itx, m, os).
     bindR (broker_txSending cfg tbl fetch m itx) (\<lambda>os'.
       Inr (m, sends os @ sends os' @ [AResetGap])))"

fun brokerRows ::
  "('t, 'd, 's) env \<Rightarrow> (BrokerRawMeg \<Rightarrow> bytes) \<Rightarrow> params \<Rightarrow> ipTable \<Rightarrow> (nat \<Rightarrow> nat \<Rightarrow> time) \<Rightarrow> string list list \<Rightarrow>
   brokerCommittee \<times> Transaction list \<times> action list \<Rightarrow> (brokerCommittee \<times> Transaction list \<times> action list) res" where
  "brokerRows E dg cfg tbl clk [] st = Inr st"
| "brokerRows E dg cfg tbl clk (data # rows) (m, txlist, acts) =
     bindR (data2tx (hashTx E) (clk (length rows) 0) data (word_of_int (nowDataNum m))) (\<lambda>(tx, ok).
     if \<not> ok then brokerRows E dg cfg tbl clk rows (m, txlist, acts)
     else
       let txlist = txlist @ [tx]; m = m\<lparr>nowDataNum := nowDataNum m + 1\<rparr> in
       bindR (if int (length txlist) = batchDataNum m \<or> nowDataNum m = dataTotalNum m
              then bindR (brokerBatch E dg cfg tbl (staticShard cfg) (\<lambda>i. clk (length rows) (Suc i)) txlist m)
                     (\<lambda>(m, as). Inr (m, [], acts @ as))
              else Inr (m, txlist, acts)) (\<lambda>(m, txlist, acts).
         if nowDataNum m = dataTotalNum m then Inr (m, txlist, acts)
         else brokerRows E dg cfg tbl clk rows (m, txlist, acts)))"

definition broker_MsgSendingControl ::
  "('t, 'd, 's) env \<Rightarrow> (BrokerRawMeg \<Rightarrow> bytes) \<Rightarrow> params \<Rightarrow> ipTable \<Rightarrow> (nat \<Rightarrow> nat \<Rightarrow> time) \<Rightarrow> string list list \<Rightarrow>
   brokerCommittee \<Rightarrow> (brokerCommittee \<times> action list) res" where
  "broker_MsgSendingControl E dg cfg tbl clk rows m =
     bindR (brokerRows E dg cfg tbl clk rows (m, [], [])) (\<lambda>(m, txlist, acts). Inr (m, acts))"

end
