(* ===== verification/Graphs.thy ===== *)
theory Graphs
  imports Addressing "HOL-Library.List_Lexorder" "HOL-Library.Char_ord"
begin

text \<open>
  The transaction graph (partition/graph.go): an undirected multigraph kept as adjacency
  lists, each edge entered at both ends. A nil \<open>VertexSet\<close> behaves like an empty one in
  every operation, so it is a set; a nil \<open>EdgeSet\<close> is told apart by \<open>CopyGraph\<close>,
  so it is an \<open>option\<close>.
\<close>

datatype Vertex = Vertex (Addr: address)

text \<open>Vertices are ordered by address, which gives one iteration order of a vertex set.\<close>

instantiation Vertex :: linorder
begin

definition less_eq_Vertex :: "Vertex \<Rightarrow> Vertex \<Rightarrow> bool" where
  "less_eq_Vertex u v \<longleftrightarrow> Addr u \<le> Addr v"

definition less_Vertex :: "Vertex \<Rightarrow> Vertex \<Rightarrow> bool" where
  "less_Vertex u v \<longleftrightarrow> Addr u < Addr v"

instance
  by standard (auto simp: less_eq_Vertex_def less_Vertex_def Vertex.expand)

end

record Graph =
  VertexSet :: "Vertex set"
  EdgeSet :: "(Vertex \<rightharpoonup> Vertex list) option"

definition emptyGraph :: Graph where
  "emptyGraph = \<lparr>VertexSet = {}, EdgeSet = None\<rparr>"

definition ConstructVertex :: "string \<Rightarrow> Vertex \<Rightarrow> Vertex" where
  "ConstructVertex s v = Vertex s"

text \<open>The adjacency list of a vertex; a missing key reads as the empty slice.\<close>

definition adj :: "Graph \<Rightarrow> Vertex \<Rightarrow> Vertex list" where
  "adj g v = (case EdgeSet g of None \<Rightarrow> [] | Some m \<Rightarrow> getOr [] (m v))"

definition edgeKeys :: "Graph \<Rightarrow> Vertex set" where
  "edgeKeys g = (case EdgeSet g of None \<Rightarrow> {} | Some m \<Rightarrow> dom m)"

definition gAddVertex :: "Vertex \<Rightarrow> Graph \<Rightarrow> Graph" where
  "gAddVertex v g = g\<lparr>VertexSet := insert v (VertexSet g)\<rparr>"

definition gAddEdge :: "Vertex \<Rightarrow> Vertex \<Rightarrow> Graph \<Rightarrow> Graph" where
  "gAddEdge u v g =
     (let g = (if u \<notin> VertexSet g then gAddVertex u g else g);
          g = (if v \<notin> VertexSet g then gAddVertex v g else g);
          m = getOr Map.empty (EdgeSet g);
          m = m(u \<mapsto> getOr [] (m u) @ [v]);
          m = m(v \<mapsto> getOr [] (m v) @ [u])
      in g\<lparr>EdgeSet := Some m\<rparr>)"

text \<open>Only the adjacency lists of listed vertices are copied.\<close>

definition CopyGraph :: "Graph \<Rightarrow> Graph \<Rightarrow> Graph" where
  "CopyGraph src dst =
     (let dst = dst\<lparr>VertexSet := VertexSet src\<rparr> in
      if EdgeSet src \<noteq> None then
        dst\<lparr>EdgeSet := Some (\<lambda>v. if v \<in> VertexSet src then Some (adj src v) else None)\<rparr>
      else dst)"

definition gEraseEdges :: "Graph \<Rightarrow> Graph" where
  "gEraseEdges g = g\<lparr>EdgeSet := Some Map.empty\<rparr>"

section \<open>Well-formed graphs\<close>

text \<open>
  What \<open>AddVertex\<close> and \<open>AddEdge\<close> maintain: finitely many vertices, edges only between
  them, and every edge entered at both ends.
\<close>

definition wfGraph :: "Graph \<Rightarrow> bool" where
  "wfGraph g \<longleftrightarrow>
     finite (VertexSet g) \<and> edgeKeys g \<subseteq> VertexSet g \<and> (\<forall>v. set (adj g v) \<subseteq> VertexSet g) \<and>
     (\<forall>u v. count_list (adj g u) v = count_list (adj g v) u)"

definition loopFree :: "Graph \<Rightarrow> bool" where
  "loopFree g \<longleftrightarrow> (\<forall>v. v \<notin> set (adj g v))"

lemma wfGraphD:
  "wfGraph g \<Longrightarrow> finite (VertexSet g)" "wfGraph g \<Longrightarrow> edgeKeys g \<subseteq> VertexSet g"
  "wfGraph g \<Longrightarrow> set (adj g v) \<subseteq> VertexSet g"
  "wfGraph g \<Longrightarrow> count_list (adj g u) v = count_list (adj g v) u"
  by (simp_all add: wfGraph_def)

lemma adj_nonkey: "v \<notin> edgeKeys g \<Longrightarrow> adj g v = []"
  by (auto simp: edgeKeys_def adj_def getOr_def split: option.splits)

lemma adj_gAddVertex [simp]: "adj (gAddVertex x g) = adj g" "edgeKeys (gAddVertex x g) = edgeKeys g"
  "VertexSet (gAddVertex x g) = insert x (VertexSet g)"
  by (simp_all add: adj_def gAddVertex_def edgeKeys_def fun_eq_iff)

lemma wfGraph_gAddVertex: "wfGraph g \<Longrightarrow> wfGraph (gAddVertex v g)"
  by (auto simp: wfGraph_def)

lemma gAddEdge_fields:
  "VertexSet (gAddEdge u v g) = insert u (insert v (VertexSet g))"
  "edgeKeys (gAddEdge u v g) = insert u (insert v (edgeKeys g))"
  "adj (gAddEdge u v g) w =
     adj g w @ (if w = u then [v] else []) @ (if w = v then [u] else [])"
  by (auto simp: gAddEdge_def Let_def gAddVertex_def edgeKeys_def adj_def getOr_def split: option.splits)

lemma wfGraph_gAddEdge:
  assumes "wfGraph g"
  shows "wfGraph (gAddEdge u v g)"
proof -
  have "count_list (adj (gAddEdge u v g) x) y = count_list (adj (gAddEdge u v g) y) x" for x y
    using wfGraphD(4) [OF assms, of x y] by (auto simp: gAddEdge_fields)
  then show ?thesis
    using assms by (auto simp: wfGraph_def gAddEdge_fields)
qed

lemma loopFree_gAddEdge: "loopFree g \<Longrightarrow> u \<noteq> v \<Longrightarrow> loopFree (gAddEdge u v g)"
  by (auto simp: loopFree_def gAddEdge_fields)

lemma wfGraph_empty: "wfGraph emptyGraph" "loopFree emptyGraph"
  by (simp_all add: wfGraph_def loopFree_def emptyGraph_def adj_def edgeKeys_def)

lemma CopyGraph_adj:
  "wfGraph src \<Longrightarrow> EdgeSet src \<noteq> None \<Longrightarrow> adj (CopyGraph src dst) = adj src"
  using adj_nonkey wfGraphD(2) by (fastforce simp: CopyGraph_def adj_def [of "_\<lparr>EdgeSet := _\<rparr>"] fun_eq_iff)

lemma wfGraph_gEraseEdges: "wfGraph g \<Longrightarrow> wfGraph (gEraseEdges g) \<and> loopFree (gEraseEdges g)"
  by (simp add: wfGraph_def loopFree_def gEraseEdges_def adj_def edgeKeys_def)

text \<open>One iteration order that is always available.\<close>

definition vertexOrder :: "Graph \<Rightarrow> Vertex list" where
  "vertexOrder g = sorted_list_of_set (VertexSet g)"

lemma vertexOrder_iter: "wfGraph g \<Longrightarrow> iter_order (vertexOrder g) (VertexSet g)"
  by (simp add: iter_order_def vertexOrder_def wfGraphD(1))

section \<open>Counting edges\<close>

text \<open>
  \<open>pairSum f S\<close> sums a symmetric weight over the ordered pairs of a vertex set. When the
  diagonal is empty it is twice the sum over unordered pairs, and taking out one vertex
  takes out twice its row.
\<close>

definition pairSum :: "('v \<Rightarrow> 'v \<Rightarrow> int) \<Rightarrow> 'v set \<Rightarrow> int" where
  "pairSum f S = (\<Sum>u \<in> S. \<Sum>w \<in> S. f u w)"

lemma pairSum_insert:
  assumes "finite S" and "v \<notin> S"
  shows "pairSum f (insert v S) = pairSum f S + f v v + (\<Sum>w \<in> S. f v w) + (\<Sum>u \<in> S. f u v)"
  using assms by (simp add: pairSum_def sum.distrib)

lemma pairSum_symmetric_even:
  assumes "finite S" and "\<And>u w. u \<in> S \<Longrightarrow> w \<in> S \<Longrightarrow> f u w = f w u" and "\<And>u. u \<in> S \<Longrightarrow> f u u = 0"
  shows "even (pairSum f S)"
  using assms
proof (induction S rule: finite_induct)
  case empty
  then show ?case by (simp add: pairSum_def)
next
  case (insert v S)
  have "(\<Sum>u \<in> S. f u v) = (\<Sum>w \<in> S. f v w)"
    by (rule sum.cong) (auto simp: insert.prems(1))
  then have "pairSum f (insert v S) = pairSum f S + 2 * (\<Sum>w \<in> S. f v w)"
    using insert by (simp add: pairSum_insert)
  with insert show ?case by simp
qed

lemma sum_list_adj:
  fixes f :: "'v \<Rightarrow> int"
  assumes "finite S" and "set xs \<subseteq> S"
  shows "sum_list (map f xs) = (\<Sum>w \<in> S. int (count_list xs w) * f w)"
  using assms(2)
proof (induction xs)
  case Nil
  then show ?case by simp
next
  case (Cons x xs)
  have "(\<Sum>w \<in> S. int (count_list (x # xs) w) * f w) =
        (\<Sum>w \<in> S. int (count_list xs w) * f w + (if w = x then f w else 0))"
    by (rule sum.cong) (auto simp: algebra_simps)
  also have "\<dots> = (\<Sum>w \<in> S. int (count_list xs w) * f w) + (\<Sum>w \<in> S. if w = x then f w else 0)"
    by (simp add: sum.distrib)
  also have "(\<Sum>w \<in> S. if w = x then f w else 0) = f x"
    using assms(1) Cons.prems by (simp add: sum.delta)
  finally show ?case using Cons by simp
qed

end
