(* ===== verification/CLPA.thy ===== *)
theory CLPA
  imports Graphs
begin

text \<open>
  The account-partition algorithms: the constrained label propagation of
  partition/partition_CLPA.go and the AERO variant of partition/partition_AERO.go.

  \<^item> \<open>range\<close> over a Go map visits it in an order the language leaves open: the
    order is an argument (\<open>ks\<close>, \<open>ord\<close>), and the theorems assume of it only that it
    lists each key once.
  \<^item> The floating-point operations are the fields of \<open>f64\<close>: what is proved holds
    whatever the scores are.
  \<^item> A slice of counters is an \<open>int list\<close>, indexed with Go's bounds check.
\<close>

record 'f f64 =
  f_ofInt :: "int \<Rightarrow> 'f"
  f_mul :: "'f \<Rightarrow> 'f \<Rightarrow> 'f"
  f_div :: "'f \<Rightarrow> 'f \<Rightarrow> 'f"
  f_sub :: "'f \<Rightarrow> 'f \<Rightarrow> 'f"
  f_less :: "'f \<Rightarrow> 'f \<Rightarrow> bool"

record 'f CLPAState =
  NetGraph :: Graph
  cs_PartitionMap :: "Vertex \<rightharpoonup> int"
  Edges2Shard :: "int list"
  VertexsNumInShard :: "int list"
  WeightPenalty :: 'f
  MinEdges2Shard :: int
  MaxIterations :: int
  CrossShardEdgeNum :: int
  cs_ShardNum :: int

definition maxInt :: int where
  "maxInt = 2 ^ 63 - 1"

text \<open>Reading the partition map: a missing vertex reads 0.\<close>

definition pmOf :: "'f CLPAState \<Rightarrow> Vertex \<Rightarrow> int" where
  "pmOf cs v = getOr 0 (cs_PartitionMap cs v)"

text \<open>Go's quotient truncates towards zero; \<open>make([]int, n)\<close> panics for a negative n.\<close>

definition goQuot :: "int \<Rightarrow> int \<Rightarrow> int" where
  "goQuot a b = sgn a * sgn b * (\<bar>a\<bar> div \<bar>b\<bar>)"

definition makeInts :: "int \<Rightarrow> int list res" where
  "makeInts n = (if n < 0 then Inl SliceBounds else Inr (replicate (nat n) 0))"

definition incI :: "int list \<Rightarrow> int \<Rightarrow> int \<Rightarrow> int list res" where
  "incI xs i d = bindR (nthI xs i) (\<lambda>x. updI xs i (x + d))"

section \<open>Building the graph\<close>

definition Init_CLPAState :: "'f \<Rightarrow> int \<Rightarrow> int \<Rightarrow> 'f CLPAState \<Rightarrow> 'f CLPAState res" where
  "Init_CLPAState wp mIter sn cs =
     bindR (makeInts sn) (\<lambda>zs.
       Inr (cs\<lparr>WeightPenalty := wp, MaxIterations := mIter, cs_ShardNum := sn,
               VertexsNumInShard := zs, cs_PartitionMap := Map.empty\<rparr>))"

text \<open>\<open>sn0\<close> is the global \<open>params.ShardNum\<close> that \<open>Addr2Shard\<close> reads.\<close>

definition AddVertex :: "int \<Rightarrow> Vertex \<Rightarrow> 'f CLPAState \<Rightarrow> 'f CLPAState res" where
  "AddVertex sn0 v cs =
     (let cs = cs\<lparr>NetGraph := gAddVertex v (NetGraph cs)\<rparr> in
      bindR (case cs_PartitionMap cs v of
               None \<Rightarrow> bindR (Addr2Shard sn0 (Addr v)) (\<lambda>s. Inr (cs\<lparr>cs_PartitionMap := (cs_PartitionMap cs)(v \<mapsto> s)\<rparr>))
             | Some val \<Rightarrow> Inr (cs\<lparr>cs_PartitionMap := (cs_PartitionMap cs)(v \<mapsto> val)\<rparr>)) (\<lambda>cs.
      bindR (incI (VertexsNumInShard cs) (pmOf cs v) 1) (\<lambda>ns.
        Inr (cs\<lparr>VertexsNumInShard := ns\<rparr>))))"

definition AddEdge :: "int \<Rightarrow> Vertex \<Rightarrow> Vertex \<Rightarrow> 'f CLPAState \<Rightarrow> 'f CLPAState res" where
  "AddEdge sn0 u v cs =
     bindR (if u \<notin> VertexSet (NetGraph cs) then AddVertex sn0 u cs else Inr cs) (\<lambda>cs.
     bindR (if v \<notin> VertexSet (NetGraph cs) then AddVertex sn0 v cs else Inr cs) (\<lambda>cs.
       Inr (cs\<lparr>NetGraph := gAddEdge u v (NetGraph cs)\<rparr>)))"

text \<open>\<open>copy\<close> into a slice of length n overwrites as far as the source reaches. The vertex
  counts are shared by the two states, and the cross-shard count and graph hash are not copied.\<close>

definition copyInto :: "int list \<Rightarrow> int list \<Rightarrow> int list" where
  "copyInto dst src = take (length dst) src @ drop (length src) dst"

definition CopyCLPA :: "'f CLPAState \<Rightarrow> 'f CLPAState \<Rightarrow> 'f CLPAState res" where
  "CopyCLPA src dst =
     bindR (makeInts (cs_ShardNum src)) (\<lambda>zs.
       Inr (dst\<lparr>NetGraph := CopyGraph (NetGraph src) (NetGraph dst),
                cs_PartitionMap := cs_PartitionMap src,
                Edges2Shard := copyInto zs (Edges2Shard src),
                VertexsNumInShard := VertexsNumInShard src, WeightPenalty := WeightPenalty src,
                MinEdges2Shard := MinEdges2Shard src, MaxIterations := MaxIterations src,
                cs_ShardNum := cs_ShardNum src\<rparr>))"

definition EraseEdges :: "'f CLPAState \<Rightarrow> 'f CLPAState" where
  "EraseEdges cs = cs\<lparr>NetGraph := gEraseEdges (NetGraph cs)\<rparr>"

section \<open>Edge counts per shard\<close>

text \<open>One visit of an edge from a vertex in \<open>vShard\<close> to one in \<open>uShard\<close>.\<close>

definition scanEdge :: "int \<Rightarrow> int list \<times> int list \<Rightarrow> int \<Rightarrow> (int list \<times> int list) res" where
  "scanEdge vShard ei uShard =
     (if vShard \<noteq> uShard then bindR (incI (fst ei) uShard 1) (\<lambda>e. Inr (e, snd ei))
      else bindR (incI (snd ei) uShard 1) (\<lambda>i. Inr (fst ei, i)))"

definition scanVertex :: "'f CLPAState \<Rightarrow> int list \<times> int list \<Rightarrow> Vertex \<Rightarrow> (int list \<times> int list) res" where
  "scanVertex cs ei v =
     foldR (\<lambda>ei u. scanEdge (pmOf cs v) ei (pmOf cs u)) ei (adj (NetGraph cs) v)"

definition minScan :: "int list \<Rightarrow> int" where
  "minScan vals = foldl (\<lambda>m val. if m > val then val else m) maxInt vals"

definition ComputeEdges2Shard :: "Vertex list \<Rightarrow> 'f CLPAState \<Rightarrow> 'f CLPAState res" where
  "ComputeEdges2Shard ks cs =
     bindR (makeInts (cs_ShardNum cs)) (\<lambda>zs.
     bindR (foldR (scanVertex cs) (zs, zs) ks) (\<lambda>(e, interEdge).
       let cross = goQuot (sum_list e) 2;
           e = map2 (\<lambda>x i. x + goQuot i 2) e interEdge
       in Inr (cs\<lparr>Edges2Shard := e, CrossShardEdgeNum := cross, MinEdges2Shard := minScan e\<rparr>)))"

definition recomputeStep :: "int \<Rightarrow> int \<Rightarrow> int list \<times> int \<Rightarrow> int \<Rightarrow> (int list \<times> int) res" where
  "recomputeStep new old ec neighborShard =
     (if neighborShard \<noteq> new \<and> neighborShard \<noteq> old then
        bindR (incI (fst ec) new 1) (\<lambda>e. bindR (incI e old (-1)) (\<lambda>e. Inr (e, snd ec)))
      else if neighborShard = new then
        bindR (incI (fst ec) old (-1)) (\<lambda>e. Inr (e, snd ec - 1))
      else bindR (incI (fst ec) new 1) (\<lambda>e. Inr (e, snd ec + 1)))"

definition changeShardRecompute :: "Vertex \<Rightarrow> int \<Rightarrow> 'f CLPAState \<Rightarrow> 'f CLPAState res" where
  "changeShardRecompute v old cs =
     (let new = pmOf cs v in
      bindR (foldR (\<lambda>ec u. recomputeStep new old ec (pmOf cs u))
               (Edges2Shard cs, CrossShardEdgeNum cs) (adj (NetGraph cs) v)) (\<lambda>(e, cross).
        Inr (cs\<lparr>Edges2Shard := e, CrossShardEdgeNum := cross, MinEdges2Shard := minScan e\<rparr>)))"

section \<open>Initial partitions\<close>

text \<open>\<open>strconv.ParseInt(s, 16, 64)\<close> on at most eight characters: an optional sign, then digits.\<close>

definition ParseInt16 :: "string \<Rightarrow> int option" where
  "ParseInt16 s =
     (case s of
        [] \<Rightarrow> None
      | c # cs \<Rightarrow>
          if c = CHR ''-'' then map_option (\<lambda>n. - int n) (ParseUint16 cs)
          else if c = CHR ''+'' then map_option int (ParseUint16 cs)
          else map_option int (ParseUint16 s))"

definition placeVertex :: "Vertex \<Rightarrow> int \<Rightarrow> 'f CLPAState \<Rightarrow> 'f CLPAState res" where
  "placeVertex v s cs =
     bindR (incI (VertexsNumInShard cs) s 1) (\<lambda>ns.
       Inr (cs\<lparr>cs_PartitionMap := (cs_PartitionMap cs)(v \<mapsto> s), VertexsNumInShard := ns\<rparr>))"

definition Init_Partition :: "Vertex list \<Rightarrow> Vertex list \<Rightarrow> 'f CLPAState \<Rightarrow> 'f CLPAState res" where
  "Init_Partition ks es cs =
     bindR (makeInts (cs_ShardNum cs)) (\<lambda>zs.
     bindR (foldR (\<lambda>cs v.
              if length (Addr v) < 8 then Inl SliceBounds
              else bindR (ofOption LogPanic (ParseInt16 (drop (length (Addr v) - 8) (Addr v)))) (\<lambda>num.
                   bindR (goRem num (cs_ShardNum cs)) (\<lambda>s. placeVertex v s cs)))
            (cs\<lparr>VertexsNumInShard := zs, cs_PartitionMap := Map.empty\<rparr>) ks) (\<lambda>cs.
     ComputeEdges2Shard es cs))"

text \<open>The result is Go's \<open>error\<close> and the state.\<close>

definition Stable_Init_Partition ::
  "Vertex list \<Rightarrow> Vertex list \<Rightarrow> 'f CLPAState \<Rightarrow> (string option \<times> 'f CLPAState) res" where
  "Stable_Init_Partition ks es cs =
     (if cs_ShardNum cs > int (card (VertexSet (NetGraph cs))) then
        Inr (Some ''too many shards, number of shards should be less than nodes. '', cs)
      else
        bindR (makeInts (cs_ShardNum cs)) (\<lambda>zs.
        bindR (foldR (\<lambda>cs iv. bindR (goRem (int (fst iv)) (cs_ShardNum cs)) (\<lambda>s. placeVertex (snd iv) s cs))
                 (cs\<lparr>VertexsNumInShard := zs, cs_PartitionMap := Map.empty\<rparr>) (enumerate 0 ks)) (\<lambda>cs.
        bindR (ComputeEdges2Shard es cs) (\<lambda>cs. Inr (None, cs)))))"

section \<open>Label propagation\<close>

definition getShard_score :: "'f f64 \<Rightarrow> 'f CLPAState \<Rightarrow> Vertex \<Rightarrow> int \<Rightarrow> 'f res" where
  "getShard_score F cs v uShard =
     (let v_outdegree = length (adj (NetGraph cs) v);
          Edgesto_uShard = length (filter (\<lambda>item. pmOf cs item = uShard) (adj (NetGraph cs) v))
      in bindR (nthI (Edges2Shard cs) uShard) (\<lambda>e.
           Inr (f_mul F (f_div F (f_ofInt F (int Edgesto_uShard)) (f_ofInt F (int v_outdegree)))
                  (f_sub F (f_ofInt F 1)
                     (f_div F (f_mul F (WeightPenalty cs) (f_ofInt F e))
                              (f_ofInt F (MinEdges2Shard cs)))))))"

text \<open>The scan of a vertex's neighbours: the shards scored so far, the best score and its shard.\<close>

definition scoreStep ::
  "'f f64 \<Rightarrow> 'f CLPAState \<Rightarrow> Vertex \<Rightarrow> int list \<times> 'f \<times> int \<Rightarrow> Vertex \<Rightarrow> (int list \<times> 'f \<times> int) res" where
  "scoreStep F cs v acc u =
     (let (computed, max_score, max_scoreShard) = acc; uShard = pmOf cs u in
      if uShard \<in> set computed then Inr acc
      else bindR (getShard_score F cs v uShard) (\<lambda>sc.
        if f_less F max_score sc then Inr (uShard # computed, sc, uShard)
        else Inr (uShard # computed, max_score, max_scoreShard)))"

definition bestShard :: "'f f64 \<Rightarrow> 'f CLPAState \<Rightarrow> Vertex \<Rightarrow> int res" where
  "bestShard F cs v =
     bindR (foldR (scoreStep F cs v) ([], f_ofInt F (-9999), pmOf cs v) (adj (NetGraph cs) v)) (\<lambda>acc.
       Inr (snd (snd acc)))"

type_synonym 'f clpaRun = "'f CLPAState \<times> (address \<rightharpoonup> u64) \<times> (address \<rightharpoonup> int)"

definition moveVertex :: "Vertex \<Rightarrow> int \<Rightarrow> 'f clpaRun \<Rightarrow> 'f clpaRun res" where
  "moveVertex v max_scoreShard run =
     (let (cs, res, updateTreshold) = run;
          vNowShard = pmOf cs v;
          cs = cs\<lparr>cs_PartitionMap := (cs_PartitionMap cs)(v \<mapsto> max_scoreShard)\<rparr>;
          res = res(Addr v \<mapsto> word_of_int max_scoreShard);
          updateTreshold = updateTreshold(Addr v \<mapsto> getOr 0 (updateTreshold (Addr v)) + 1)
      in bindR (incI (VertexsNumInShard cs) vNowShard (-1)) (\<lambda>ns.
         bindR (incI ns max_scoreShard 1) (\<lambda>ns.
         bindR (changeShardRecompute v vNowShard (cs\<lparr>VertexsNumInShard := ns\<rparr>)) (\<lambda>cs.
           Inr (cs, res, updateTreshold)))))"

definition clpaVertex :: "'f f64 \<Rightarrow> 'f clpaRun \<Rightarrow> Vertex \<Rightarrow> 'f clpaRun res" where
  "clpaVertex F run v =
     (let (cs, res, updateTreshold) = run in
      if getOr 0 (updateTreshold (Addr v)) \<ge> 50 then Inr run
      else bindR (bestShard F cs v) (\<lambda>max_scoreShard.
        if pmOf cs v \<noteq> max_scoreShard then
          bindR (nthI (VertexsNumInShard cs) (pmOf cs v)) (\<lambda>n.
            if n > 1 then moveVertex v max_scoreShard run else Inr run)
        else Inr run))"

text \<open>\<open>ord i\<close> is the order in which iteration i visits the vertices; \<open>ks0\<close> and
  \<open>ks1\<close> are the orders of the two full counts.\<close>

definition CLPA_Partition ::
  "'f f64 \<Rightarrow> Vertex list \<Rightarrow> (nat \<Rightarrow> Vertex list) \<Rightarrow> Vertex list \<Rightarrow> 'f CLPAState \<Rightarrow>
   (((address \<rightharpoonup> u64) \<times> int) \<times> 'f CLPAState) res" where
  "CLPA_Partition F ks0 ord ks1 cs =
     bindR (ComputeEdges2Shard ks0 cs) (\<lambda>cs.
     bindR (foldR (\<lambda>run i. foldR (clpaVertex F) run (ord i)) (cs, Map.empty, Map.empty)
              [0..<nat (MaxIterations cs)]) (\<lambda>(cs, res, updateTreshold).
     bindR (ComputeEdges2Shard ks1 cs) (\<lambda>cs.
       Inr ((res, CrossShardEdgeNum cs), cs))))"

section \<open>AERO\<close>

definition hasPrefix :: "string \<Rightarrow> address \<Rightarrow> bool" where
  "hasPrefix prefix a \<longleftrightarrow> length a \<ge> length prefix \<and> take (length prefix) a = prefix"

definition UpdatePrefixShard :: "Vertex list \<Rightarrow> string \<Rightarrow> int \<Rightarrow> 'f CLPAState \<Rightarrow> 'f CLPAState res" where
  "UpdatePrefixShard ks prefix newShard cs =
     foldR (\<lambda>cs v.
       if hasPrefix prefix (Addr v) then
         let oldShard = pmOf cs v in
         if oldShard = newShard then Inr cs
         else bindR (incI (VertexsNumInShard cs) oldShard (-1)) (\<lambda>ns.
              bindR (incI ns newShard 1) (\<lambda>ns.
                Inr (cs\<lparr>cs_PartitionMap := (cs_PartitionMap cs)(v \<mapsto> newShard), VertexsNumInShard := ns\<rparr>)))
       else Inr cs) cs ks"

record PrefixStat =
  Prefix :: string
  CurrentShard :: int
  TXVolume :: int
  CSTXVolume :: int
  EdgesToShard :: "int list"

record 'f AEROStatePayload =
  ap_Epoch :: int
  ShardLoads :: "int list"
  ShardCSTXRatios :: "'f list"
  GlobalCSTXRatio :: 'f
  CandidatePrefixes :: "PrefixStat list"

definition prefixLen :: nat where
  "prefixLen = 2"

definition statEdge :: "'f CLPAState \<Rightarrow> Vertex \<Rightarrow> PrefixStat \<Rightarrow> Vertex \<Rightarrow> PrefixStat res" where
  "statEdge cs v stat u =
     bindR (incI (EdgesToShard stat) (pmOf cs u) 1) (\<lambda>es.
       Inr (stat\<lparr>TXVolume := TXVolume stat + 1, EdgesToShard := es,
                 CSTXVolume := (if pmOf cs v \<noteq> pmOf cs u then CSTXVolume stat + 1 else CSTXVolume stat)\<rparr>))"

definition statVertex ::
  "'f CLPAState \<Rightarrow> (string \<rightharpoonup> PrefixStat) \<Rightarrow> Vertex \<Rightarrow> (string \<rightharpoonup> PrefixStat) res" where
  "statVertex cs prefixMap v =
     (if length (Addr v) < prefixLen then Inr prefixMap
      else let p = take prefixLen (Addr v) in
        bindR (case prefixMap p of
                 Some stat \<Rightarrow> Inr stat
               | None \<Rightarrow> bindR (makeInts (cs_ShardNum cs)) (\<lambda>zs.
                   Inr \<lparr>Prefix = p, CurrentShard = pmOf cs v, TXVolume = 0, CSTXVolume = 0, EdgesToShard = zs\<rparr>))
          (\<lambda>stat. bindR (foldR (statEdge cs v) stat (adj (NetGraph cs) v)) (\<lambda>stat.
             Inr (prefixMap(p \<mapsto> stat)))))"

text \<open>Reading the statistics in the order \<open>kp\<close> of the prefix map.\<close>

definition statsOf :: "(string \<rightharpoonup> PrefixStat) \<Rightarrow> string list \<Rightarrow> PrefixStat list" where
  "statsOf prefixMap kp = List.map_filter prefixMap kp"

definition shardTotals ::
  "int \<Rightarrow> PrefixStat list \<Rightarrow> (int list \<times> int list) res" where
  "shardTotals sn stats =
     bindR (makeInts sn) (\<lambda>zs.
       foldR (\<lambda>ab stat. bindR (incI (fst ab) (CurrentShard stat) (TXVolume stat)) (\<lambda>a.
                        bindR (incI (snd ab) (CurrentShard stat) (CSTXVolume stat)) (\<lambda>b. Inr (a, b))))
         (zs, zs) stats)"

definition aeroPayload ::
  "'f f64 \<Rightarrow> Vertex list \<Rightarrow> string list \<Rightarrow> string list \<Rightarrow> string list \<Rightarrow> int \<Rightarrow> 'f CLPAState \<Rightarrow>
   'f AEROStatePayload res" where
  "aeroPayload F es kp1 kp2 kp3 epoch cs =
     bindR (foldR (statVertex cs) Map.empty es) (\<lambda>prefixMap.
     bindR (shardTotals (cs_ShardNum cs) (statsOf prefixMap kp1)) (\<lambda>(shardTotalTx, shardCSTx).
       let totalCSTX = sum_list (map CSTXVolume (statsOf prefixMap kp2));
           totalTX = sum_list (map TXVolume (statsOf prefixMap kp2))
       in Inr \<lparr>ap_Epoch = epoch, ShardLoads = shardTotalTx,
               ShardCSTXRatios = map2 (\<lambda>c t. if t > 0 then f_div F (f_ofInt F c) (f_ofInt F t) else f_ofInt F 0)
                                   shardCSTx shardTotalTx,
               GlobalCSTXRatio = (if totalTX > 0 then f_div F (f_ofInt F totalCSTX) (f_ofInt F totalTX)
                                  else f_ofInt F 0),
               CandidatePrefixes = filter (\<lambda>st. CSTXVolume st > 0) (statsOf prefixMap kp3)\<rparr>))"

definition fakeAddr :: address where
  "fakeAddr = ''000000000000000000000000000000000000dead''"

text \<open>Applying the agent's migrations and recording the accounts they name.\<close>

definition applyMigration ::
  "Vertex list \<Rightarrow> 'f CLPAState \<times> (address \<rightharpoonup> u64) \<Rightarrow> string \<times> int \<Rightarrow> ('f CLPAState \<times> (address \<rightharpoonup> u64)) res" where
  "applyMigration ks st mig =
     bindR (UpdatePrefixShard ks (fst mig) (snd mig) (fst st)) (\<lambda>cs.
       Inr (cs, foldl (\<lambda>res v. if length (Addr v) \<ge> prefixLen \<and> take prefixLen (Addr v) = fst mig
                               then res(Addr v \<mapsto> word_of_int (snd mig)) else res) (snd st) ks))"

text \<open>
  The Python agent is outside the Go program: \<open>agent payload\<close> is the list of migrations
  it leaves in its action file, or \<open>None\<close> when it fails or leaves none. A nil result is
  \<open>None\<close>; the state keeps the edge counts computed at the start.
\<close>

definition AERO_Partition ::
  "'f f64 \<Rightarrow> ('f AEROStatePayload \<Rightarrow> (string \<times> int) list option) \<Rightarrow> Vertex list \<Rightarrow> Vertex list \<Rightarrow>
   string list \<Rightarrow> string list \<Rightarrow> string list \<Rightarrow> Vertex list \<Rightarrow> int \<Rightarrow> 'f CLPAState \<Rightarrow>
   ((address \<rightharpoonup> u64) option \<times> 'f CLPAState) res" where
  "AERO_Partition F agent ks es kp1 kp2 kp3 es1 epoch cs =
     bindR (ComputeEdges2Shard es cs) (\<lambda>cs.
     bindR (aeroPayload F es kp1 kp2 kp3 epoch cs) (\<lambda>payload.
       case agent payload of
         None \<Rightarrow> Inr (None, cs)
       | Some migrations \<Rightarrow>
           bindR (foldR (applyMigration ks) (cs, Map.empty) migrations) (\<lambda>(cs, res).
             let res = (if res = Map.empty then res(fakeAddr \<mapsto> 0) else res) in
             bindR (ComputeEdges2Shard es1 cs) (\<lambda>cs. Inr (Some res, cs)))))"

end
