(* ===== verification/CLPACommittee.thy ===== *)
theory CLPACommittee
  imports Injection CLPA "HOL-Library.AList"
begin

text \<open>
  The committee with account repartition (supervisor/committee/committee_clpa.go): it sends
  a loaded data set round and round, counts which shards have reported each epoch, and
  repartitions when its period is over, waiting until every shard has followed.

  \<^item> \<open>curEpoch\<close> is an \<open>int32\<close>, kept as an integer with the conversion written out.
  \<^item> \<open>epochShardAcks\<close> is an association list, so the loop that empties it is recursion over
    a list that gets shorter.
  \<^item> The orders in which maps are visited, the agent and the clock are in a \<open>psched\<close>.
  \<^item> The loop and the handler of block reports run in two goroutines: the loop is a step
    function with the state of its local variables, and \<open>clpaStep\<close> interleaves the two. One
    turn of the loop up to its wait is one step: what it does before it takes \<open>clpaLock\<close>
    touches nothing a block report touches.
\<close>

section \<open>State\<close>

record 'f clpaCommittee = committee +
  curEpoch :: int
  clpaGraph :: "'f CLPAState"
  modifiedMap :: "address \<rightharpoonup> u64"
  clpaLastRunningTime :: time
  clpaFreq :: int
  epochShardAcks :: "(int \<times> u64 set) list"

record 'f psched =
  ps_agent :: "'f AEROStatePayload \<Rightarrow> (string \<times> int) list option"
  ps_ks :: "Vertex list"
  ps_es :: "Vertex list"
  ps_kp1 :: "string list"
  ps_kp2 :: "string list"
  ps_kp3 :: "string list"
  ps_es1 :: "Vertex list"
  ps_ordV :: "nat \<Rightarrow> Vertex list"
  ps_ordA :: "address set \<Rightarrow> address list"

definition newCLPAState :: "'f f64 \<Rightarrow> 'f CLPAState" where
  "newCLPAState F = \<lparr>NetGraph = emptyGraph, cs_PartitionMap = Map.empty, Edges2Shard = [], VertexsNumInShard = [],
     WeightPenalty = f_ofInt F 0, MinEdges2Shard = 0, MaxIterations = 0, CrossShardEdgeNum = 0, cs_ShardNum = 0\<rparr>"

definition freshGraph :: "'f f64 \<Rightarrow> params \<Rightarrow> 'f CLPAState res" where
  "freshGraph F cfg = Init_CLPAState (f_div F (f_ofInt F 1) (f_ofInt F 2)) 100 (ShardNum cfg) (newCLPAState F)"

definition NewCLPACommitteeModule :: "'f f64 \<Rightarrow> params \<Rightarrow> int \<Rightarrow> int \<Rightarrow> int \<Rightarrow> 'f clpaCommittee res" where
  "NewCLPACommitteeModule F cfg dataNum batchNum clpaFrequency =
     bindR (freshGraph F cfg) (\<lambda>cg.
       Inr \<lparr>dataTotalNum = dataNum, nowDataNum = 0, batchDataNum = batchNum, curEpoch = 0, clpaGraph = cg,
            modifiedMap = Map.empty, clpaLastRunningTime = 0, clpaFreq = clpaFrequency, epochShardAcks = []\<rparr>)"

section \<open>Placement and injection\<close>

definition fetchModifiedMap :: "params \<Rightarrow> (address \<rightharpoonup> u64) \<Rightarrow> address \<Rightarrow> u64 res" where
  "fetchModifiedMap cfg mm key = (case mm key of None \<Rightarrow> staticShard cfg key | Some val \<Rightarrow> Inr val)"

definition clpa_txSending :: "params \<Rightarrow> ipTable \<Rightarrow> 'f clpaCommittee \<Rightarrow> Transaction list \<Rightarrow> outs res" where
  "clpa_txSending cfg tbl m txlist =
     txSendingBy cfg tbl (\<lambda>tx. fetchModifiedMap cfg (modifiedMap m) (Sender tx)) txlist"

section \<open>Publishing a partition\<close>

text \<open>The entries of a map in the order \<open>ord\<close> visits its keys; a nil map has none.\<close>

definition mapEntries :: "(address set \<Rightarrow> address list) \<Rightarrow> (address \<rightharpoonup> u64) option \<Rightarrow> partitionMap" where
  "mapEntries ord mo = (case mo of None \<Rightarrow> [] | Some m \<Rightarrow> map (\<lambda>k. (k, getOr 0 (m k))) (ord (dom m)))"

text \<open>The first key is cut to ten bytes for the log, which panics when it is shorter.\<close>

definition clpaMapSend :: "params \<Rightarrow> ipTable \<Rightarrow> partitionMap \<Rightarrow> outs res" where
  "clpaMapSend cfg tbl kvs =
     bindR (case kvs of [] \<Rightarrow> Inr '''' | (k, v) # _ \<Rightarrow> sliceTo k 10) (\<lambda>_.
       Inr (concat (map (\<lambda>i. map (\<lambda>addr. (addr, WPartition kvs)) (getNodeIpsWithinShard tbl i)) (shardIds cfg))))"

text \<open>A new graph that keeps the placement of every account moved so far.\<close>

definition resetGraph :: "'f f64 \<Rightarrow> params \<Rightarrow> (address \<rightharpoonup> u64) \<Rightarrow> 'f CLPAState res" where
  "resetGraph F cfg mm =
     bindR (freshGraph F cfg) (\<lambda>g.
       Inr (g\<lparr>cs_PartitionMap := (\<lambda>v. case mm (Addr v) of None \<Rightarrow> cs_PartitionMap g v | Some val \<Rightarrow> Some (sint val))\<rparr>))"

definition clpaReset :: "'f f64 \<Rightarrow> params \<Rightarrow> 'f clpaCommittee \<Rightarrow> 'f clpaCommittee res" where
  "clpaReset F cfg m = bindR (resetGraph F cfg (modifiedMap m)) (\<lambda>g. Inr (m\<lparr>clpaGraph := g\<rparr>))"

section \<open>Counting the reports of an epoch\<close>

lemma delete_shorter: "map_of al k = Some v \<Longrightarrow> length (AList.delete k al) < length al"
  unfolding AList.delete_eq by (rule length_filter_less [of "(k, v)"]) (auto dest: map_of_SomeD)

function advanceEpoch :: "int \<Rightarrow> int \<Rightarrow> (int \<times> u64 set) list \<Rightarrow> int \<Rightarrow> int \<times> (int \<times> u64 set) list" where
  "advanceEpoch sn expected acks cur =
     (case map_of acks expected of
        None \<Rightarrow> (cur, acks)
      | Some ackSet \<Rightarrow>
          if int (card ackSet) < sn then (cur, acks)
          else advanceEpoch sn (toInt32 (expected + 1)) (AList.delete expected acks) expected)"
  by pat_completeness auto

termination
  by (relation "measure (\<lambda>(sn, expected, acks, cur). length acks)") (auto simp: delete_shorter)

declare advanceEpoch.simps [simp del]

definition recordEpochAck :: "params \<Rightarrow> u64 \<Rightarrow> int \<Rightarrow> 'f clpaCommittee \<Rightarrow> 'f clpaCommittee" where
  "recordEpochAck cfg shardID epoch m =
     (let stableEpoch = curEpoch m in
      if epoch \<le> stableEpoch then m
      else
        let acks = epochShardAcks m;
            acks = (if map_of acks epoch = None then AList.update epoch {} acks else acks);
            acks = AList.update epoch (insert shardID (getOr {} (map_of acks epoch))) acks;
            (cur, acks) = advanceEpoch (ShardNum cfg) (toInt32 (stableEpoch + 1)) acks stableEpoch
        in m\<lparr>curEpoch := cur, epochShardAcks := acks\<rparr>)"

definition addTxEdges :: "params \<Rightarrow> (Transaction \<Rightarrow> address \<times> address) \<Rightarrow> Transaction list \<Rightarrow> 'f CLPAState \<Rightarrow> 'f CLPAState res" where
  "addTxEdges cfg ends txs g =
     foldR (\<lambda>g tx. AddEdge (ShardNum cfg) (Vertex (fst (ends tx))) (Vertex (snd (ends tx))) g) g txs"

definition clpa_HandleBlockInfo :: "params \<Rightarrow> BlockInfoMsg \<Rightarrow> 'f clpaCommittee \<Rightarrow> 'f clpaCommittee res" where
  "clpa_HandleBlockInfo cfg b m =
     (let m = recordEpochAck cfg (SenderShardID b) (toInt32 (Epoch b)) m in
      if BlockBodyLength b = 0 then Inr m
      else
        bindR (addTxEdges cfg (\<lambda>tx. (Sender tx, Recipient tx)) (InnerShardTxs b) (clpaGraph m)) (\<lambda>g.
        bindR (addTxEdges cfg (\<lambda>tx. (Sender tx, Recipient tx)) (Relay2Txs b) g) (\<lambda>g.
          Inr (m\<lparr>clpaGraph := g\<rparr>))))"

section \<open>The sending loop\<close>

text \<open>Loading the first \<open>totalNum\<close> legal rows; \<open>acc\<close> holds what has been read.\<close>

fun loadRows ::
  "('t, 'd, 's) env \<Rightarrow> (nat \<Rightarrow> time) \<Rightarrow> int \<Rightarrow> string list list \<Rightarrow> Transaction list \<Rightarrow> Transaction list res" where
  "loadRows E clk totalNum [] acc = Inr acc"
| "loadRows E clk totalNum (data # rows) acc =
     bindR (data2tx (hashTx E) (clk (length rows)) data (word_of_nat (length acc))) (\<lambda>(tx, ok).
     let acc = (if ok then acc @ [tx] else acc) in
     if int (length acc) = totalNum then Inr acc else loadRows E clk totalNum rows acc)"

datatype loopPhase = Sending | Waiting | Stopped

record clpaLoop =
  lp_txlist :: "Transaction list"
  clpaCnt :: int
  globalSendCount :: int
  lp_phase :: loopPhase

definition loopStart :: clpaLoop where
  "loopStart = \<lparr>lp_txlist = [], clpaCnt = 0, globalSendCount = 0, lp_phase = Sending\<rparr>"

text \<open>The copy of a loaded transaction that is sent in its next round.\<close>

definition loopTx :: "Transaction list \<Rightarrow> time \<Rightarrow> int \<Rightarrow> Transaction res" where
  "loopTx allTxs now n =
     bindR (goRem n (int (length allTxs))) (\<lambda>idx.
     bindR (nthI allTxs idx) (\<lambda>originalTx.
       Inr (originalTx\<lparr>Nonce := Nonce originalTx + word_of_int (goQuot n (int (length allTxs))) * 10000000,
                       Time := now\<rparr>)))"

definition sendPart ::
  "params \<Rightarrow> ipTable \<Rightarrow> Transaction list \<Rightarrow> time \<Rightarrow> time \<Rightarrow> 'f clpaCommittee \<times> clpaLoop \<Rightarrow>
   ('f clpaCommittee \<times> clpaLoop \<times> action list) res" where
  "sendPart cfg tbl allTxs now1 now2 st =
     (let (m, l) = st in
      bindR (loopTx allTxs now1 (globalSendCount l)) (\<lambda>tx.
        let l = l\<lparr>lp_txlist := lp_txlist l @ [tx], globalSendCount := globalSendCount l + 1\<rparr>;
            m = m\<lparr>nowDataNum := globalSendCount l\<rparr>
        in if int (length (lp_txlist l)) = batchDataNum m then
             let m = (if clpaLastRunningTime m = 0 then m\<lparr>clpaLastRunningTime := now2\<rparr> else m) in
             bindR (clpa_txSending cfg tbl m (lp_txlist l)) (\<lambda>os.
               Inr (m, l\<lparr>lp_txlist := []\<rparr>, sends os @ [AResetGap]))
           else Inr (m, l, [])))"

definition second :: time where
  "second = 1000000000"

definition repartitionDue :: "params \<Rightarrow> time \<Rightarrow> 'f clpaCommittee \<Rightarrow> bool" where
  "repartitionDue cfg now m \<longleftrightarrow>
     ShardNum cfg > 1 \<and> clpaLastRunningTime m \<noteq> 0 \<and> now - clpaLastRunningTime m \<ge> clpaFreq m * second"

text \<open>A repartition: ask the agent, publish the map, note it, start a new graph.\<close>

definition publishMap ::
  "'f f64 \<Rightarrow> params \<Rightarrow> ipTable \<Rightarrow> (address set \<Rightarrow> address list) \<Rightarrow> (address \<rightharpoonup> u64) option \<Rightarrow> 'f clpaCommittee \<Rightarrow>
   ('f clpaCommittee \<times> action list) res" where
  "publishMap F cfg tbl ord mmap m =
     bindR (clpaMapSend cfg tbl (mapEntries ord mmap)) (\<lambda>os.
     bindR (clpaReset F cfg (m\<lparr>modifiedMap := modifiedMap m ++ getOr Map.empty mmap\<rparr>)) (\<lambda>m.
       Inr (m, sends os)))"

definition repartition ::
  "'f f64 \<Rightarrow> params \<Rightarrow> ipTable \<Rightarrow> 'f psched \<Rightarrow> 'f clpaCommittee \<times> clpaLoop \<Rightarrow> ('f clpaCommittee \<times> clpaLoop \<times> action list) res" where
  "repartition F cfg tbl ps st =
     (let (m, l) = st; l = l\<lparr>clpaCnt := clpaCnt l + 1\<rparr> in
      bindR (AERO_Partition F (ps_agent ps) (ps_ks ps) (ps_es ps) (ps_kp1 ps) (ps_kp2 ps) (ps_kp3 ps) (ps_es1 ps)
               (clpaCnt l) (clpaGraph m)) (\<lambda>(mmap, g).
      bindR (publishMap F cfg tbl (ps_ordA ps) mmap (m\<lparr>clpaGraph := g\<rparr>)) (\<lambda>(m, acts).
        Inr (m, l\<lparr>lp_phase := Waiting\<rparr>, acts))))"

text \<open>One turn of the loop up to the wait; \<open>now3\<close> is the clock of the period test.\<close>

definition loopTurn ::
  "'f f64 \<Rightarrow> params \<Rightarrow> ipTable \<Rightarrow> Transaction list \<Rightarrow> time \<Rightarrow> time \<Rightarrow> time \<Rightarrow> 'f psched \<Rightarrow>
   'f clpaCommittee \<times> clpaLoop \<Rightarrow> ('f clpaCommittee \<times> clpaLoop \<times> action list) res" where
  "loopTurn F cfg tbl allTxs now1 now2 now3 ps st =
     bindR (sendPart cfg tbl allTxs now1 now2 st) (\<lambda>(m, l, acts).
       if repartitionDue cfg now3 m then
         bindR (repartition F cfg tbl ps (m, l)) (\<lambda>(m, l, acts'). Inr (m, l, acts @ acts'))
       else Inr (m, l, acts))"

text \<open>The wait polls until the shards have reached the epoch; after 200 epochs the loop returns.\<close>

definition waitTurn :: "time \<Rightarrow> 'f clpaCommittee \<times> clpaLoop \<Rightarrow> 'f clpaCommittee \<times> clpaLoop" where
  "waitTurn now st =
     (let (m, l) = st in
      if curEpoch m < toInt32 (clpaCnt l) then (m, l)
      else (m\<lparr>clpaLastRunningTime := now\<rparr>, l\<lparr>lp_phase := (if clpaCnt l \<ge> 200 then Stopped else Sending)\<rparr>))"

section \<open>The committee as a transition system\<close>

text \<open>What happens to a committee: a turn of the loop, a poll of the wait, a block report.\<close>

datatype clpaEvent = Turn "action list" | Poll | Report BlockInfoMsg

inductive clpaStep ::
  "'f f64 \<Rightarrow> params \<Rightarrow> ipTable \<Rightarrow> Transaction list \<Rightarrow> 'f clpaCommittee \<times> clpaLoop \<Rightarrow> clpaEvent \<Rightarrow>
   'f clpaCommittee \<times> clpaLoop \<Rightarrow> bool"
  for F cfg tbl allTxs where
  turn: "lp_phase l = Sending \<Longrightarrow> loopTurn F cfg tbl allTxs now1 now2 now3 ps (m, l) = Inr (m', l', acts) \<Longrightarrow>
     clpaStep F cfg tbl allTxs (m, l) (Turn acts) (m', l')"
| poll: "lp_phase l = Waiting \<Longrightarrow> clpaStep F cfg tbl allTxs (m, l) Poll (waitTurn now (m, l))"
| report: "clpa_HandleBlockInfo cfg b m = Inr m' \<Longrightarrow> clpaStep F cfg tbl allTxs (m, l) (Report b) (m', l)"

inductive_cases clpaStep_TurnE: "clpaStep F cfg tbl allTxs st (Turn acts) st'"
inductive_cases clpaStep_PollE: "clpaStep F cfg tbl allTxs st Poll st'"
inductive_cases clpaStep_ReportE: "clpaStep F cfg tbl allTxs st (Report b) st'"

text \<open>The runs of a new committee, with their events.\<close>

inductive clpaRuns ::
  "'f f64 \<Rightarrow> params \<Rightarrow> ipTable \<Rightarrow> Transaction list \<Rightarrow> 'f clpaCommittee \<Rightarrow> clpaEvent list \<Rightarrow> 'f clpaCommittee \<times> clpaLoop \<Rightarrow> bool"
  for F cfg tbl allTxs m0 where
  init: "clpaRuns F cfg tbl allTxs m0 [] (m0, loopStart)"
| next_event: "clpaRuns F cfg tbl allTxs m0 es st \<Longrightarrow> clpaStep F cfg tbl allTxs st e st' \<Longrightarrow>
     clpaRuns F cfg tbl allTxs m0 (es @ [e]) st'"

end
