(* ===== verification/CLPABrokerCommittee.thy ===== *)
theory CLPABrokerCommittee
  imports BrokerCommittee CLPACommittee
begin

text \<open>
  The committee with brokers and repartition
  (supervisor/committee/committee_clpa_broker.go). The broker operations are those of
  \<open>BrokerCommittee\<close>, with the moved accounts as the placement; the epoch is advanced by a
  compare-and-swap on the report of any one shard.

  A handler or a turn of the loop is one step. In the code \<open>dealTxByBroker\<close> and
  \<open>txSending\<close> take \<open>clpaLock\<close> once per transaction, so a message of the CLPA-broker
  module that arrives while the loop repartitions can see the placement change between two
  transactions; the model gives such a message one placement.
\<close>

section \<open>State\<close>

record 'f clpaBrokerCommittee = brokerCommittee +
  cb_curEpoch :: int
  cb_clpaGraph :: "'f CLPAState"
  cb_modifiedMap :: "address \<rightharpoonup> u64"
  cb_clpaLastRunningTime :: time
  cb_clpaFreq :: int

definition NewCLPACommitteeMod_Broker ::
  "'f f64 \<Rightarrow> params \<Rightarrow> string list \<Rightarrow> int \<Rightarrow> int \<Rightarrow> int \<Rightarrow> int \<Rightarrow> 'f clpaBrokerCommittee res" where
  "NewCLPACommitteeMod_Broker F cfg lines BrokerNum dataNum batchNum clpaFrequency =
     bindR (freshGraph F cfg) (\<lambda>cg.
       Inr \<lparr>dataTotalNum = dataNum, nowDataNum = 0, batchDataNum = batchNum, broker = NewBroker lines BrokerNum,
            brokerConfirm1Pool = Map.empty, brokerConfirm2Pool = Map.empty, brokerTxPool = [],
            cb_curEpoch = 0, cb_clpaGraph = cg, cb_modifiedMap = Map.empty, cb_clpaLastRunningTime = 0,
            cb_clpaFreq = clpaFrequency\<rparr>)"

definition cb_fetchModifiedMap :: "params \<Rightarrow> 'f clpaBrokerCommittee \<Rightarrow> address \<Rightarrow> u64 res" where
  "cb_fetchModifiedMap cfg m = fetchModifiedMap cfg (cb_modifiedMap m)"

definition cb_txSending :: "params \<Rightarrow> ipTable \<Rightarrow> 'f clpaBrokerCommittee \<Rightarrow> Transaction list \<Rightarrow> outs res" where
  "cb_txSending cfg tbl m txlist = broker_txSending cfg tbl (cb_fetchModifiedMap cfg m) m txlist"

definition cb_dealTxByBroker ::
  "('t, 'd, 's) env \<Rightarrow> (BrokerRawMeg \<Rightarrow> bytes) \<Rightarrow> params \<Rightarrow> ipTable \<Rightarrow> (nat \<Rightarrow> time) \<Rightarrow> Transaction list \<Rightarrow>
   'f clpaBrokerCommittee \<Rightarrow> (Transaction list \<times> 'f clpaBrokerCommittee \<times> outs) res" where
  "cb_dealTxByBroker E dg cfg tbl clk txs m = dealTxByBroker E dg cfg tbl (cb_fetchModifiedMap cfg m) clk txs m"

definition cb_createConfirm ::
  "('t, 'd, 's) env \<Rightarrow> (BrokerRawMeg \<Rightarrow> bytes) \<Rightarrow> params \<Rightarrow> ipTable \<Rightarrow> (nat \<Rightarrow> time) \<Rightarrow> Transaction list \<Rightarrow>
   'f clpaBrokerCommittee \<Rightarrow> ('f clpaBrokerCommittee \<times> outs) res" where
  "cb_createConfirm E dg cfg tbl clk txs m = createConfirm E dg cfg tbl (cb_fetchModifiedMap cfg m) clk txs m"

text \<open>The operations these two call, at the same placement; the file writes them out again.\<close>

definition cb_handleBrokerType1Mes ::
  "('t, 'd, 's) env \<Rightarrow> params \<Rightarrow> ipTable \<Rightarrow> (nat \<Rightarrow> time) \<Rightarrow> BrokerType1Meg list \<Rightarrow>
   'f clpaBrokerCommittee \<Rightarrow> ('f clpaBrokerCommittee \<times> outs) res" where
  "cb_handleBrokerType1Mes E cfg tbl clk megs m = handleBrokerType1Mes E cfg tbl (cb_fetchModifiedMap cfg m) clk megs m"

definition cb_handleBrokerType2Mes ::
  "('t, 'd, 's) env \<Rightarrow> params \<Rightarrow> ipTable \<Rightarrow> (nat \<Rightarrow> time) \<Rightarrow> BrokerType2Meg list \<Rightarrow>
   'f clpaBrokerCommittee \<Rightarrow> ('f clpaBrokerCommittee \<times> outs) res" where
  "cb_handleBrokerType2Mes E cfg tbl clk megs m = handleBrokerType2Mes E cfg tbl (cb_fetchModifiedMap cfg m) clk megs m"

definition cb_handleBrokerRawMag ::
  "('t, 'd, 's) env \<Rightarrow> (BrokerRawMeg \<Rightarrow> bytes) \<Rightarrow> params \<Rightarrow> ipTable \<Rightarrow> (nat \<Rightarrow> time) \<Rightarrow> BrokerRawMeg list \<Rightarrow>
   'f clpaBrokerCommittee \<Rightarrow> ('f clpaBrokerCommittee \<times> outs) res" where
  "cb_handleBrokerRawMag E dg cfg tbl clk megs m = handleBrokerRawMag E dg cfg tbl (cb_fetchModifiedMap cfg m) clk megs m"

definition cb_handleTx1ConfirmMag ::
  "('t, 'd, 's) env \<Rightarrow> (BrokerRawMeg \<Rightarrow> bytes) \<Rightarrow> params \<Rightarrow> ipTable \<Rightarrow> (nat \<Rightarrow> time) \<Rightarrow> Mag1Confirm list \<Rightarrow>
   'f clpaBrokerCommittee \<Rightarrow> ('f clpaBrokerCommittee \<times> outs) res" where
  "cb_handleTx1ConfirmMag E dg cfg tbl clk cs m = handleTx1ConfirmMag E dg cfg tbl (cb_fetchModifiedMap cfg m) clk cs m"

definition cb_handleTx2ConfirmMag :: "Mag2Confirm list \<Rightarrow> 'f clpaBrokerCommittee \<Rightarrow> 'f clpaBrokerCommittee" where
  "cb_handleTx2ConfirmMag cs m = handleTx2ConfirmMag cs m"

lemma cb_dealTxByBroker_calls:
  "cb_dealTxByBroker E dg cfg tbl clk txs m =
     bindR (foldR (dealTx (cb_fetchModifiedMap cfg m) (broker m)) ([], []) txs) (\<lambda>(itxs, megs).
       if megs = [] then Inr (itxs, m, [])
       else bindR (cb_handleBrokerRawMag E dg cfg tbl clk megs m) (\<lambda>(m, os). Inr (itxs, m, os)))"
  unfolding cb_dealTxByBroker_def dealTxByBroker_def cb_handleBrokerRawMag_def ..

lemma cb_createConfirm_calls:
  "cb_createConfirm E dg cfg tbl clk txs m =
     (let confirm1s = List.map_filter (\<lambda>tx. brokerConfirm1Pool m (TxHash tx)) txs;
          confirm2s = List.map_filter (\<lambda>tx. brokerConfirm2Pool m (TxHash tx)) txs
      in bindR (if confirm1s \<noteq> [] then cb_handleTx1ConfirmMag E dg cfg tbl clk confirm1s m else Inr (m, []))
           (\<lambda>(m, os). Inr (if confirm2s \<noteq> [] then cb_handleTx2ConfirmMag confirm2s m else m, os)))"
  unfolding cb_createConfirm_def createConfirm_def cb_handleTx1ConfirmMag_def cb_handleTx2ConfirmMag_def ..

section \<open>Messages\<close>

definition cb_HandleOtherMessage ::
  "('t, 'd, 's) env \<Rightarrow> (BrokerRawMeg \<Rightarrow> bytes) \<Rightarrow> params \<Rightarrow> ipTable \<Rightarrow> (nat \<Rightarrow> time) \<Rightarrow> wire \<Rightarrow>
   'f clpaBrokerCommittee \<Rightarrow> ('f clpaBrokerCommittee \<times> outs) res" where
  "cb_HandleOtherMessage E dg cfg tbl clk msg m =
     (case msg of
        WInner2Cross txs \<Rightarrow>
          bindR (cb_dealTxByBroker E dg cfg tbl clk txs m) (\<lambda>(itxs, m, os).
          bindR (cb_txSending cfg tbl m itxs) (\<lambda>os'. Inr (m, os @ os')))
      | _ \<Rightarrow> Inr (m, []))"

definition cb_epochCAS :: "int \<Rightarrow> 'f clpaBrokerCommittee \<Rightarrow> 'f clpaBrokerCommittee" where
  "cb_epochCAS epoch m =
     (if cb_curEpoch m = toInt32 (epoch - 1) then m\<lparr>cb_curEpoch := toInt32 epoch\<rparr> else m)"

definition cb_HandleBlockInfo ::
  "('t, 'd, 's) env \<Rightarrow> (BrokerRawMeg \<Rightarrow> bytes) \<Rightarrow> params \<Rightarrow> ipTable \<Rightarrow> (nat \<Rightarrow> time) \<Rightarrow> BlockInfoMsg \<Rightarrow>
   'f clpaBrokerCommittee \<Rightarrow> ('f clpaBrokerCommittee \<times> outs) res" where
  "cb_HandleBlockInfo E dg cfg tbl clk b m =
     (let m = cb_epochCAS (Epoch b) m in
      if BlockBodyLength b = 0 then Inr (m, [])
      else
        bindR (cb_createConfirm E dg cfg tbl clk (Broker1Txs b @ Broker2Txs b) m) (\<lambda>(m, os).
        bindR (addTxEdges cfg (\<lambda>tx. (Sender tx, Recipient tx)) (filter (\<lambda>tx. \<not> HasBroker tx) (InnerShardTxs b))
                 (cb_clpaGraph m)) (\<lambda>g.
        bindR (addTxEdges cfg (\<lambda>tx. (OriginalSender tx, FinalRecipient tx)) (Broker1Txs b) g) (\<lambda>g.
          Inr (m\<lparr>cb_clpaGraph := g\<rparr>, os)))))"

section \<open>Publishing a partition\<close>

text \<open>Only node 0 of each shard is sent the map.\<close>

definition cb_clpaMapSend :: "params \<Rightarrow> ipTable \<Rightarrow> partitionMap \<Rightarrow> outs" where
  "cb_clpaMapSend cfg tbl kvs = map (\<lambda>i. (ipOf tbl i 0, WPartition kvs)) (shardIds cfg)"

definition cb_clpaReset :: "'f f64 \<Rightarrow> params \<Rightarrow> 'f clpaBrokerCommittee \<Rightarrow> 'f clpaBrokerCommittee res" where
  "cb_clpaReset F cfg m = bindR (resetGraph F cfg (cb_modifiedMap m)) (\<lambda>g. Inr (m\<lparr>cb_clpaGraph := g\<rparr>))"

section \<open>The sending loop\<close>

datatype cbPhase = CbReading | CbWaiting | CbDraining | CbDone

record cbLoop =
  cb_rows :: "string list list"
  cb_txlist :: "Transaction list"
  cb_clpaCnt :: int
  cb_phase :: cbPhase

definition cb_repartition ::
  "'f f64 \<Rightarrow> params \<Rightarrow> ipTable \<Rightarrow> 'f psched \<Rightarrow> 'f clpaBrokerCommittee \<times> cbLoop \<Rightarrow>
   ('f clpaBrokerCommittee \<times> cbLoop \<times> action list) res" where
  "cb_repartition F cfg tbl ps st =
     (let (m, l) = st; l = l\<lparr>cb_clpaCnt := cb_clpaCnt l + 1\<rparr> in
      bindR (CLPA_Partition F (ps_ks ps) (ps_ordV ps) (ps_es ps) (cb_clpaGraph m)) (\<lambda>((mmap, cross), g).
      let os = cb_clpaMapSend cfg tbl (mapEntries (ps_ordA ps) (Some mmap)) in
      bindR (cb_clpaReset F cfg (m\<lparr>cb_clpaGraph := g, cb_modifiedMap := cb_modifiedMap m ++ mmap\<rparr>)) (\<lambda>m.
        Inr (m, l\<lparr>cb_phase := CbWaiting\<rparr>, sends os))))"

text \<open>A row that is not legal is skipped before the tests; \<open>clk\<close> gives the clock readings.\<close>

definition cb_rowTurn ::
  "('t, 'd, 's) env \<Rightarrow> (BrokerRawMeg \<Rightarrow> bytes) \<Rightarrow> 'f f64 \<Rightarrow> params \<Rightarrow> ipTable \<Rightarrow> (nat \<Rightarrow> time) \<Rightarrow> time \<Rightarrow> time \<Rightarrow>
   'f psched \<Rightarrow> 'f clpaBrokerCommittee \<times> cbLoop \<Rightarrow> ('f clpaBrokerCommittee \<times> cbLoop \<times> action list) res" where
  "cb_rowTurn E dg F cfg tbl clk now2 now3 ps st =
     (let (m, l) = st in
      case cb_rows l of
        [] \<Rightarrow> Inr (m, l\<lparr>cb_phase := CbDraining\<rparr>, [])
      | data # rows \<Rightarrow>
          bindR (data2tx (hashTx E) (clk 0) data (word_of_int (nowDataNum m))) (\<lambda>(tx, ok).
          if \<not> ok then Inr (m, l\<lparr>cb_rows := rows\<rparr>, [])
          else
            let m = m\<lparr>nowDataNum := nowDataNum m + 1\<rparr>; l = l\<lparr>cb_rows := rows, cb_txlist := cb_txlist l @ [tx]\<rparr> in
            bindR (if int (length (cb_txlist l)) = batchDataNum m \<or> nowDataNum m = dataTotalNum m
                   then
                     let m = (if cb_clpaLastRunningTime m = 0 then m\<lparr>cb_clpaLastRunningTime := now2\<rparr> else m) in
                     bindR (brokerBatch E dg cfg tbl (cb_fetchModifiedMap cfg m) (\<lambda>i. clk (Suc i)) (cb_txlist l) m)
                       (\<lambda>(m, as). Inr (m, l\<lparr>cb_txlist := []\<rparr>, as))
                   else Inr (m, l, [])) (\<lambda>(m, l, acts).
            if ShardNum cfg > 1 \<and> cb_clpaLastRunningTime m \<noteq> 0 \<and>
               now3 - cb_clpaLastRunningTime m \<ge> cb_clpaFreq m * second
            then bindR (cb_repartition F cfg tbl ps (m, l)) (\<lambda>(m, l, acts'). Inr (m, l, acts @ acts'))
            else Inr (m, l\<lparr>cb_phase := (if nowDataNum m = dataTotalNum m then CbDraining else CbReading)\<rparr>, acts))))"

text \<open>After the data set: repartition on, until the stop signal is up.\<close>

definition cb_drainTurn ::
  "'f f64 \<Rightarrow> params \<Rightarrow> ipTable \<Rightarrow> time \<Rightarrow> 'f psched \<Rightarrow> StopSignal \<Rightarrow> 'f clpaBrokerCommittee \<times> cbLoop \<Rightarrow>
   ('f clpaBrokerCommittee \<times> cbLoop \<times> action list) res" where
  "cb_drainTurn F cfg tbl now ps ss st =
     (let (m, l) = st in
      if GapEnough ss then Inr (m, l\<lparr>cb_phase := CbDone\<rparr>, [])
      else if ShardNum cfg > 1 \<and> now - cb_clpaLastRunningTime m \<ge> cb_clpaFreq m * second
      then cb_repartition F cfg tbl ps (m, l)
      else Inr (m, l, []))"

text \<open>
  The wait ends when the epoch is the one expected. It resumes the loop it came from:
  reading goes on only while data is left, and a reader without rows starts to drain.
\<close>

definition cb_waitTurn :: "time \<Rightarrow> 'f clpaBrokerCommittee \<times> cbLoop \<Rightarrow> 'f clpaBrokerCommittee \<times> cbLoop" where
  "cb_waitTurn now st =
     (let (m, l) = st in
      if cb_curEpoch m \<noteq> toInt32 (cb_clpaCnt l) then (m, l)
      else (m\<lparr>cb_clpaLastRunningTime := now\<rparr>,
            l\<lparr>cb_phase := (if nowDataNum m = dataTotalNum m then CbDraining else CbReading)\<rparr>))"

end
