(* ===== verification/Measures.thy ===== *)
theory Measures
  imports Injection CLPA
begin

text \<open>
  The measurement modules of the supervisor (supervisor/measure/): counters per epoch of the
  transactions that block reports carry, latencies, throughput and per-transaction times.

  \<^item> The relay and the broker form of a module differ in the fields they read: the two
    halves of a cross-shard transaction are the pair \<open>relaySel\<close> or \<open>brokerSel\<close>. The
    counters every form keeps are the record \<open>epochCounts\<close>, which each module extends.
  \<^item> Floating-point numbers are abstract; \<open>'f fops\<close> adds the sum to the operations of
    \<open>f64\<close>. Sums of latencies in milliseconds are \<open>int64\<close> and wrap.
  \<^item> A CSV file is its list of rows, a row its list of cells: the text of a number is
    kept as the number with the precision it is printed with.
\<close>

section \<open>Numbers\<close>

record 'f fops = "'f f64" +
  f_add :: "'f \<Rightarrow> 'f \<Rightarrow> 'f"

definition half :: "'f fops \<Rightarrow> int \<Rightarrow> 'f" where
  "half F n = f_div F (f_ofInt F n) (f_ofInt F 2)"

definition wrap64 :: "int \<Rightarrow> int" where
  "wrap64 i = sint (word_of_int i :: u64)"

text \<open>\<open>xs[i] += d\<close> for a slice of floats and one of \<open>int64\<close>.\<close>

definition addF :: "'f fops \<Rightarrow> 'f list \<Rightarrow> int \<Rightarrow> 'f \<Rightarrow> 'f list res" where
  "addF F xs i d = bindR (nthI xs i) (\<lambda>x. updI xs i (f_add F x d))"

definition add64 :: "int list \<Rightarrow> int \<Rightarrow> int \<Rightarrow> int list res" where
  "add64 xs i d = bindR (nthI xs i) (\<lambda>x. updI xs i (wrap64 (x + d)))"

text \<open>\<open>time.Time.Sub\<close> saturates; \<open>Seconds\<close> and \<open>Milliseconds\<close> of a duration.\<close>

definition timeSub :: "time \<Rightarrow> time \<Rightarrow> int" where
  "timeSub t u = max (- (2 ^ 63)) (min (2 ^ 63 - 1) (t - u))"

definition durSeconds :: "'f fops \<Rightarrow> int \<Rightarrow> 'f" where
  "durSeconds F d =
     (let sec = goQuot d 1000000000; nsec = d - sec * 1000000000 in
      f_add F (f_ofInt F sec) (f_div F (f_ofInt F nsec) (f_ofInt F 1000000000)))"

definition durMillis :: "int \<Rightarrow> int" where
  "durMillis d = goQuot d 1000000"

text \<open>Milliseconds since 1970; the zero time is in the year 1.\<close>

definition UnixMilli :: "time \<Rightarrow> int" where
  "UnixMilli t = t div 1000000 - 62135596800000"

section \<open>CSV files\<close>

datatype 'f cell = CText string | CInt int | CFloat 'f int

text \<open>\<open>strconv.FormatFloat(x, 'f', '8', 64)\<close>: the precision is the character \<open>'8'\<close>.\<close>

definition fmtFloat :: "'f \<Rightarrow> 'f cell" where
  "fmtFloat x = CFloat x (of_char (CHR ''8''))"

definition WriteMetricsToCSV :: "string list \<Rightarrow> 'f cell list list \<Rightarrow> 'f cell list list \<Rightarrow> 'f cell list list" where
  "WriteMetricsToCSV colName colVals file =
     (if file = [] then [map CText colName] else file) @ colVals"

section \<open>The counters of an epoch\<close>

type_synonym halves = "BlockInfoMsg \<Rightarrow> Transaction list \<times> Transaction list"

definition relaySel :: halves where
  "relaySel b = (Relay1Txs b, Relay2Txs b)"

definition brokerSel :: halves where
  "brokerSel b = (Broker1Txs b, Broker2Txs b)"

definition sel1 :: "halves \<Rightarrow> BlockInfoMsg \<Rightarrow> int" where
  "sel1 sel b = int (length (fst (sel b)))"

definition sel2 :: "halves \<Rightarrow> BlockInfoMsg \<Rightarrow> int" where
  "sel2 sel b = int (length (snd (sel b)))"

definition innerNum :: "BlockInfoMsg \<Rightarrow> int" where
  "innerNum b = int (length (InnerShardTxs b))"

record epochCounts =
  epochID :: int
  firstTxNum :: "int list"
  secondTxNum :: "int list"
  normalTxNum :: "int list"

text \<open>The extension loop appends zeros until the epoch exists.\<close>

definition grow :: "'z epochCounts_scheme \<Rightarrow> int \<Rightarrow> 'a \<Rightarrow> 'a list \<Rightarrow> 'a list" where
  "grow c epochid z xs = xs @ replicate (nat (epochid - epochID c)) z"

definition extendTo :: "int \<Rightarrow> 'z epochCounts_scheme \<Rightarrow> 'z epochCounts_scheme" where
  "extendTo epochid c =
     c\<lparr>firstTxNum := grow c epochid 0 (firstTxNum c), secondTxNum := grow c epochid 0 (secondTxNum c),
       normalTxNum := grow c epochid 0 (normalTxNum c), epochID := max (epochID c) epochid\<rparr>"

definition countBlock :: "halves \<Rightarrow> BlockInfoMsg \<Rightarrow> 'z epochCounts_scheme \<Rightarrow> 'z epochCounts_scheme res" where
  "countBlock sel b c =
     (let c = extendTo (Epoch b) c in
      bindR (incI (firstTxNum c) (Epoch b) (sel1 sel b)) (\<lambda>xs.
      bindR (incI (secondTxNum c) (Epoch b) (sel2 sel b)) (\<lambda>ys.
      bindR (incI (normalTxNum c) (Epoch b) (innerNum b)) (\<lambda>zs.
        Inr (c\<lparr>firstTxNum := xs, secondTxNum := ys, normalTxNum := zs\<rparr>)))))"

section \<open>Cross-shard transaction ratio\<close>

record 'f CrossTxRate = epochCounts +
  totTxNum :: "'f list"
  totCrossTxNum :: "'f list"

definition NewTestCrossTxRate :: "'f CrossTxRate" where
  "NewTestCrossTxRate = \<lparr>epochID = -1, firstTxNum = [], secondTxNum = [], normalTxNum = [], totTxNum = [], totCrossTxNum = []\<rparr>"

definition crossRate_Update :: "'f fops \<Rightarrow> halves \<Rightarrow> (BlockInfoMsg \<Rightarrow> 'f) \<Rightarrow> BlockInfoMsg \<Rightarrow> 'f CrossTxRate \<Rightarrow> 'f CrossTxRate res" where
  "crossRate_Update F sel tot b c =
     (let z = f_ofInt F 0;
          c = c\<lparr>totTxNum := grow c (Epoch b) z (totTxNum c), totCrossTxNum := grow c (Epoch b) z (totCrossTxNum c)\<rparr> in
      bindR (countBlock sel b c) (\<lambda>c.
      bindR (addF F (totCrossTxNum c) (Epoch b) (half F (sel1 sel b + sel2 sel b))) (\<lambda>xs.
      bindR (addF F (totTxNum c) (Epoch b) (tot b)) (\<lambda>ys.
        Inr (c\<lparr>totCrossTxNum := xs, totTxNum := ys\<rparr>)))))"

definition CrossTxRate_Relay_Update :: "'f fops \<Rightarrow> BlockInfoMsg \<Rightarrow> 'f CrossTxRate \<Rightarrow> 'f CrossTxRate res" where
  "CrossTxRate_Relay_Update F b c =
     (if BlockBodyLength b = 0 then Inr c
      else crossRate_Update F relaySel
             (\<lambda>b. f_add F (half F (sel1 relaySel b + sel2 relaySel b)) (f_ofInt F (innerNum b))) b c)"

definition CrossTxRate_Broker_Update :: "'f fops \<Rightarrow> BlockInfoMsg \<Rightarrow> 'f CrossTxRate \<Rightarrow> 'f CrossTxRate res" where
  "CrossTxRate_Broker_Update F b c =
     (if BlockBodyLength b = 0 then Inr c
      else crossRate_Update F brokerSel
             (\<lambda>b. f_add F (f_ofInt F (innerNum b)) (half F (sel1 brokerSel b + sel2 brokerSel b))) b c)"

definition CrossTxRate_OutputRecord :: "'f fops \<Rightarrow> 'f CrossTxRate \<Rightarrow> ('f list \<times> 'f) res" where
  "CrossTxRate_OutputRecord F c =
     bindR (foldR (\<lambda>(rs, tot, ctx) (eid, totTxN).
              bindR (nthR (totCrossTxNum c) eid) (\<lambda>x.
                Inr (rs @ [f_div F x totTxN], f_add F tot totTxN, f_add F ctx x)))
            ([], f_ofInt F 0, f_ofInt F 0) (enumerate 0 (totTxNum c))) (\<lambda>(rs, tot, ctx).
       Inr (rs @ [tot, ctx], f_div F ctx tot))"

definition CrossTxRate_rows :: "'f fops \<Rightarrow> 'f CrossTxRate \<Rightarrow> 'f cell list list res" where
  "CrossTxRate_rows F c =
     foldR (\<lambda>rows (eid, tot).
       bindR (nthR (totCrossTxNum c) eid) (\<lambda>x. bindR (nthR (normalTxNum c) eid) (\<lambda>n.
       bindR (nthR (firstTxNum c) eid) (\<lambda>f. bindR (nthR (secondTxNum c) eid) (\<lambda>s.
         Inr (rows @ [[CInt (int eid), fmtFloat tot, fmtFloat x, CInt n, CInt f, CInt s, fmtFloat (f_div F x tot)]]))))))
       [] (enumerate 0 (totTxNum c))"

section \<open>Number of transactions\<close>

record 'f TxNumCount = epochCounts +
  txNum :: "'f list"

definition NewTestTxNumCount :: "'f TxNumCount" where
  "NewTestTxNumCount = \<lparr>epochID = -1, firstTxNum = [], secondTxNum = [], normalTxNum = [], txNum = []\<rparr>"

definition txNum_Update :: "'f fops \<Rightarrow> halves \<Rightarrow> 'f \<Rightarrow> BlockInfoMsg \<Rightarrow> 'f TxNumCount \<Rightarrow> 'f TxNumCount res" where
  "txNum_Update F sel d b c =
     bindR (countBlock sel b (c\<lparr>txNum := grow c (Epoch b) (f_ofInt F 0) (txNum c)\<rparr>)) (\<lambda>c.
     bindR (addF F (txNum c) (Epoch b) d) (\<lambda>xs. Inr (c\<lparr>txNum := xs\<rparr>)))"

definition TxNumCount_Broker_Update :: "'f fops \<Rightarrow> BlockInfoMsg \<Rightarrow> 'f TxNumCount \<Rightarrow> 'f TxNumCount res" where
  "TxNumCount_Broker_Update F b c =
     (if BlockBodyLength b = 0 then Inr c
      else txNum_Update F brokerSel
        (f_add F (f_ofInt F (innerNum b))
          (f_div F (f_add F (f_ofInt F (sel1 brokerSel b)) (f_ofInt F (sel2 brokerSel b))) (f_ofInt F 2))) b c)"

definition TxNumCount_Broker_rows :: "'f TxNumCount \<Rightarrow> 'f cell list list res" where
  "TxNumCount_Broker_rows c =
     foldR (\<lambda>rows (eid, tot).
       bindR (nthR (normalTxNum c) eid) (\<lambda>n. bindR (nthR (firstTxNum c) eid) (\<lambda>f. bindR (nthR (secondTxNum c) eid) (\<lambda>s.
         Inr (rows @ [[CInt (int eid), fmtFloat tot, CInt n, CInt f, CInt s]])))))
       [] (enumerate 0 (txNum c))"

text \<open>The relay form writes the newest epoch only, and none when there is no epoch.\<close>

definition TxNumCount_Relay_rows :: "'f TxNumCount \<Rightarrow> 'f cell list list res" where
  "TxNumCount_Relay_rows c =
     (if length (txNum c) = 0 then Inr []
      else let eid = length (txNum c) - 1 in
        bindR (nthR (txNum c) eid) (\<lambda>tot. bindR (nthR (normalTxNum c) eid) (\<lambda>n.
        bindR (nthR (firstTxNum c) eid) (\<lambda>f. bindR (nthR (secondTxNum c) eid) (\<lambda>s.
          Inr [[CInt (int eid), fmtFloat tot, CInt n, CInt f, CInt s]])))))"

text \<open>It also writes from the update, whenever the count of the epoch is a multiple of 50.\<close>

definition TxNumCount_Relay_Update ::
  "'f fops \<Rightarrow> BlockInfoMsg \<Rightarrow> 'f TxNumCount \<Rightarrow> ('f TxNumCount \<times> 'f cell list list) res" where
  "TxNumCount_Relay_Update F b c =
     (if BlockBodyLength b = 0 then Inr (c, [])
      else bindR (txNum_Update F relaySel
             (f_add F (f_ofInt F (innerNum b)) (half F (sel1 relaySel b + sel2 relaySel b))) b c) (\<lambda>c.
           bindR (nthI (normalTxNum c) (Epoch b)) (\<lambda>n.
             if n > 0 \<and> n mod 50 = 0 then bindR (TxNumCount_Relay_rows c) (\<lambda>rows. Inr (c, rows))
             else Inr (c, []))))"

definition TxNumCount_OutputRecord :: "'f fops \<Rightarrow> 'f TxNumCount \<Rightarrow> 'f list \<times> 'f" where
  "TxNumCount_OutputRecord F c = (txNum c, foldl (f_add F) (f_ofInt F 0) (txNum c))"

section \<open>Throughput\<close>

record 'f AvgTPS = epochCounts +
  excutedTxNum :: "'f list"
  startTime :: "time list"
  endTime :: "time list"

definition NewTestModule_avgTPS :: "'f AvgTPS" where
  "NewTestModule_avgTPS = \<lparr>epochID = -1, firstTxNum = [], secondTxNum = [], normalTxNum = [], excutedTxNum = [],
     startTime = [], endTime = []\<rparr>"

text \<open>\<open>ds\<close> are the amounts the code adds, one after the other.\<close>

definition tps_Update :: "'f fops \<Rightarrow> halves \<Rightarrow> 'f list \<Rightarrow> BlockInfoMsg \<Rightarrow> 'f AvgTPS \<Rightarrow> 'f AvgTPS res" where
  "tps_Update F sel ds b c =
     (let e = Epoch b;
          c = c\<lparr>excutedTxNum := grow c e (f_ofInt F 0) (excutedTxNum c),
                startTime := grow c e 0 (startTime c), endTime := grow c e 0 (endTime c)\<rparr> in
      bindR (countBlock sel b c) (\<lambda>c.
      bindR (foldR (\<lambda>xs d. addF F xs e d) (excutedTxNum c) ds) (\<lambda>xs.
      bindR (nthI (startTime c) e) (\<lambda>s.
      bindR (if s = 0 \<or> s > ProposeTime b then updI (startTime c) e (ProposeTime b) else Inr (startTime c)) (\<lambda>ss.
      bindR (nthI (endTime c) e) (\<lambda>t.
      bindR (if t = 0 \<or> CommitTime b > t then updI (endTime c) e (CommitTime b) else Inr (endTime c)) (\<lambda>ts.
        Inr (c\<lparr>excutedTxNum := xs, startTime := ss, endTime := ts\<rparr>))))))))"

definition avgTPS_Relay_Update :: "'f fops \<Rightarrow> BlockInfoMsg \<Rightarrow> 'f AvgTPS \<Rightarrow> 'f AvgTPS res" where
  "avgTPS_Relay_Update F b c =
     (if BlockBodyLength b = 0 then Inr c
      else tps_Update F relaySel [half F (sel1 relaySel b + sel2 relaySel b), f_ofInt F (innerNum b)] b c)"

definition avgTPS_Broker_Update :: "'f fops \<Rightarrow> BlockInfoMsg \<Rightarrow> 'f AvgTPS \<Rightarrow> 'f AvgTPS res" where
  "avgTPS_Broker_Update F b c =
     (if BlockBodyLength b = 0 then Inr c
      else tps_Update F brokerSel
             [f_add F (f_ofInt F (innerNum b)) (half F (sel1 brokerSel b + sel2 brokerSel b))] b c)"

text \<open>\<open>now\<close> is the clock when the record is put out.\<close>

definition avgTPS_OutputRecord :: "'f fops \<Rightarrow> time \<Rightarrow> 'f AvgTPS \<Rightarrow> ('f list \<times> 'f) res" where
  "avgTPS_OutputRecord F now c =
     bindR (makeInts (epochID c + 1)) (\<lambda>zs.
     bindR (foldR (\<lambda>(ps, tot, eT, lT) (eid, ex).
              bindR (nthR (endTime c) eid) (\<lambda>t. bindR (nthR (startTime c) eid) (\<lambda>s.
              bindR (updR ps eid (f_div F ex (durSeconds F (timeSub t s)))) (\<lambda>ps.
                Inr (ps, f_add F tot ex, if eT > s then s else eT, if t > lT then t else lT)))))
            (map (f_ofInt F) zs, f_ofInt F 0, now, 0) (enumerate 0 (excutedTxNum c))) (\<lambda>(ps, tot, eT, lT).
       Inr (ps, f_div F tot (durSeconds F (timeSub lT eT)))))"

definition avgTPS_rows :: "'f fops \<Rightarrow> 'f AvgTPS \<Rightarrow> 'f cell list list res" where
  "avgTPS_rows F c =
     foldR (\<lambda>rows (eid, ex).
       bindR (nthR (endTime c) eid) (\<lambda>t. bindR (nthR (startTime c) eid) (\<lambda>s0.
       bindR (nthR (normalTxNum c) eid) (\<lambda>n. bindR (nthR (firstTxNum c) eid) (\<lambda>f. bindR (nthR (secondTxNum c) eid) (\<lambda>s.
         Inr (rows @ [[CInt (int eid), fmtFloat ex, CInt n, CInt f, CInt s, CInt (UnixMilli s0), CInt (UnixMilli t),
                       fmtFloat (f_div F ex (durSeconds F (timeSub t s0)))]])))))))
       [] (enumerate 0 (excutedTxNum c))"

end
