(* ===== verification/Latencies.thy ===== *)
theory Latencies
  imports Measures
begin

text \<open>
  The latency modules of the supervisor (measure\_TCL\_relay.go, measure\_TCL\_Broker.go) and
  the times of single transactions (measure\_TxDetail.go).
\<close>

section \<open>Confirmation latency\<close>

record 'f TCL = epochCounts +
  totTxLatencyEpoch :: "'f list"
  firstCommitLatency :: "int list"
  secondCommitLatency :: "int list"
  ctxCommitLatency :: "int list"
  normalTxCommitLatency :: "int list"
  tcl_txNum :: "'f list"
  firstTime :: "bytes \<rightharpoonup> time"

definition NewTestModule_TCL :: "'f TCL" where
  "NewTestModule_TCL = \<lparr>epochID = -1, firstTxNum = [], secondTxNum = [], normalTxNum = [], totTxLatencyEpoch = [],
     firstCommitLatency = [], secondCommitLatency = [], ctxCommitLatency = [], normalTxCommitLatency = [],
     tcl_txNum = [], firstTime = Map.empty\<rparr>"

text \<open>The extension and the counts, which both forms do first.\<close>

definition tcl_open :: "'f fops \<Rightarrow> halves \<Rightarrow> BlockInfoMsg \<Rightarrow> 'f TCL \<Rightarrow> 'f TCL res" where
  "tcl_open F sel b c =
     (let e = Epoch b; z = f_ofInt F 0;
          c = c\<lparr>tcl_txNum := grow c e z (tcl_txNum c), totTxLatencyEpoch := grow c e z (totTxLatencyEpoch c),
                firstCommitLatency := grow c e 0 (firstCommitLatency c),
                secondCommitLatency := grow c e 0 (secondCommitLatency c),
                normalTxCommitLatency := grow c e 0 (normalTxCommitLatency c),
                ctxCommitLatency := grow c e 0 (ctxCommitLatency c)\<rparr> in
      bindR (countBlock sel b c) (\<lambda>c.
      bindR (addF F (tcl_txNum c) e (f_add F (f_ofInt F (innerNum b)) (half F (sel1 sel b + sel2 sel b)))) (\<lambda>xs.
        Inr (c\<lparr>tcl_txNum := xs\<rparr>))))"

text \<open>Adding the time since \<open>t\<close> in seconds to the total of the epoch.\<close>

definition addSeconds :: "'f fops \<Rightarrow> BlockInfoMsg \<Rightarrow> time \<Rightarrow> 'f TCL \<Rightarrow> 'f TCL res" where
  "addSeconds F b t c =
     bindR (addF F (totTxLatencyEpoch c) (Epoch b) (durSeconds F (timeSub (CommitTime b) t))) (\<lambda>xs.
       Inr (c\<lparr>totTxLatencyEpoch := xs\<rparr>))"

definition sinceMillis :: "BlockInfoMsg \<Rightarrow> time \<Rightarrow> int" where
  "sinceMillis b t = durMillis (timeSub (CommitTime b) t)"

definition tcl_normal :: "'f fops \<Rightarrow> BlockInfoMsg \<Rightarrow> 'f TCL \<Rightarrow> Transaction \<Rightarrow> 'f TCL res" where
  "tcl_normal F b c tx =
     bindR (addSeconds F b (Time tx) c) (\<lambda>c.
     bindR (add64 (normalTxCommitLatency c) (Epoch b) (sinceMillis b (Time tx))) (\<lambda>xs.
       Inr (c\<lparr>normalTxCommitLatency := xs\<rparr>)))"

definition tcl_relay1 :: "BlockInfoMsg \<Rightarrow> 'f TCL \<Rightarrow> Transaction \<Rightarrow> 'f TCL res" where
  "tcl_relay1 b c tx =
     bindR (add64 (firstCommitLatency c) (Epoch b) (sinceMillis b (Time tx))) (\<lambda>xs.
       Inr (c\<lparr>firstTime := (firstTime c)(TxHash tx \<mapsto> CommitTime b), firstCommitLatency := xs\<rparr>))"

definition tcl_relay2 :: "'f fops \<Rightarrow> BlockInfoMsg \<Rightarrow> 'f TCL \<Rightarrow> Transaction \<Rightarrow> 'f TCL res" where
  "tcl_relay2 F b c tx =
     bindR (addSeconds F b (Time tx) c) (\<lambda>c.
       case firstTime c (TxHash tx) of
         None \<Rightarrow> Inr c
       | Some r1CommitTime \<Rightarrow>
           bindR (add64 (secondCommitLatency c) (Epoch b) (sinceMillis b r1CommitTime)) (\<lambda>xs.
           bindR (add64 (ctxCommitLatency c) (Epoch b) (sinceMillis b (Time tx))) (\<lambda>ys.
             Inr (c\<lparr>secondCommitLatency := xs, ctxCommitLatency := ys\<rparr>))))"

definition TCL_Relay_Update :: "'f fops \<Rightarrow> BlockInfoMsg \<Rightarrow> 'f TCL \<Rightarrow> 'f TCL res" where
  "TCL_Relay_Update F b c =
     (if BlockBodyLength b = 0 then Inr c
      else bindR (tcl_open F relaySel b c) (\<lambda>c.
           bindR (foldR (tcl_relay1 b) c (Relay1Txs b)) (\<lambda>c.
           bindR (foldR (tcl_relay2 F b) c (Relay2Txs b)) (\<lambda>c.
             foldR (tcl_normal F b) c (InnerShardTxs b)))))"

text \<open>A nil \<open>RawTxHash\<close> is the empty string as a key.\<close>

definition rawKey :: "Transaction \<Rightarrow> bytes" where
  "rawKey tx = getOr '''' (RawTxHash tx)"

definition tcl_broker1 :: "BlockInfoMsg \<Rightarrow> 'f TCL \<Rightarrow> Transaction \<Rightarrow> 'f TCL res" where
  "tcl_broker1 b c tx =
     bindR (add64 (firstCommitLatency c) (Epoch b) (sinceMillis b (Time tx))) (\<lambda>xs.
       Inr (c\<lparr>firstTime := (firstTime c)(rawKey tx \<mapsto> Time tx), firstCommitLatency := xs\<rparr>))"

definition tcl_broker2 :: "'f fops \<Rightarrow> BlockInfoMsg \<Rightarrow> 'f TCL \<Rightarrow> Transaction \<Rightarrow> 'f TCL res" where
  "tcl_broker2 F b c tx =
     bindR (case firstTime c (rawKey tx) of
              None \<Rightarrow> Inr c
            | Some b1txProposeTime \<Rightarrow>
                bindR (addSeconds F b b1txProposeTime c) (\<lambda>c.
                bindR (add64 (ctxCommitLatency c) (Epoch b) (sinceMillis b b1txProposeTime)) (\<lambda>ys.
                  Inr (c\<lparr>ctxCommitLatency := ys\<rparr>)))) (\<lambda>c.
     bindR (add64 (secondCommitLatency c) (Epoch b) (sinceMillis b (Time tx))) (\<lambda>xs.
       Inr (c\<lparr>secondCommitLatency := xs\<rparr>)))"

definition TCL_Broker_Update :: "'f fops \<Rightarrow> BlockInfoMsg \<Rightarrow> 'f TCL \<Rightarrow> 'f TCL res" where
  "TCL_Broker_Update F b c =
     (if BlockBodyLength b = 0 then Inr c
      else bindR (tcl_open F brokerSel b c) (\<lambda>c.
           bindR (foldR (tcl_normal F b) c (InnerShardTxs b)) (\<lambda>c.
           bindR (foldR (tcl_broker1 b) c (Broker1Txs b)) (\<lambda>c.
             foldR (tcl_broker2 F b) c (Broker2Txs b)))))"

definition TCL_OutputRecord :: "'f fops \<Rightarrow> 'f TCL \<Rightarrow> ('f list \<times> 'f) res" where
  "TCL_OutputRecord F c =
     bindR (foldR (\<lambda>(ps, s, n) (eid, totLatency).
              bindR (nthR (tcl_txNum c) eid) (\<lambda>k.
                Inr (ps @ [f_div F totLatency k], f_add F s totLatency, f_add F n k)))
            ([], f_ofInt F 0, f_ofInt F 0) (enumerate 0 (totTxLatencyEpoch c))) (\<lambda>(ps, s, n).
       Inr (ps, f_div F s n))"

definition TCL_rows :: "'f TCL \<Rightarrow> 'f cell list list res" where
  "TCL_rows c =
     foldR (\<lambda>rows (eid, tot).
       bindR (nthR (normalTxNum c) eid) (\<lambda>n. bindR (nthR (firstTxNum c) eid) (\<lambda>f. bindR (nthR (secondTxNum c) eid) (\<lambda>s.
       bindR (nthR (firstCommitLatency c) eid) (\<lambda>fl. bindR (nthR (secondCommitLatency c) eid) (\<lambda>sl.
       bindR (nthR (normalTxCommitLatency c) eid) (\<lambda>nl. bindR (nthR (ctxCommitLatency c) eid) (\<lambda>cl.
       bindR (nthR (totTxLatencyEpoch c) eid) (\<lambda>tl.
         Inr (rows @ [[CInt (int eid), fmtFloat tot, CInt n, CInt f, CInt s, CInt fl, CInt sl, CInt nl, CInt cl,
                       fmtFloat tl]]))))))))))
       [] (enumerate 0 (tcl_txNum c))"

section \<open>The times of a transaction\<close>

record txMetricDetailTime =
  TxProposeTimestamp :: time
  BlockProposeTimestamp :: time
  TxCommitTimestamp :: time
  Relay1CommitTimestamp :: time
  Relay2CommitTimestamp :: time
  Broker1CommitTimestamp :: time
  Broker2CommitTimestamp :: time

definition zeroDetail :: txMetricDetailTime where
  "zeroDetail = \<lparr>TxProposeTimestamp = 0, BlockProposeTimestamp = 0, TxCommitTimestamp = 0, Relay1CommitTimestamp = 0,
     Relay2CommitTimestamp = 0, Broker1CommitTimestamp = 0, Broker2CommitTimestamp = 0\<rparr>"

type_synonym TxDetail = "bytes \<rightharpoonup> txMetricDetailTime"

definition NewTestTxDetail :: TxDetail where
  "NewTestTxDetail = Map.empty"

definition setDetail :: "(Transaction \<Rightarrow> bytes) \<Rightarrow> (Transaction \<Rightarrow> txMetricDetailTime \<Rightarrow> txMetricDetailTime) \<Rightarrow>
    TxDetail \<Rightarrow> Transaction \<Rightarrow> TxDetail" where
  "setDetail key f d tx = d(key tx \<mapsto> f tx (getOr zeroDetail (d (key tx))))"

definition TxDetail_Update :: "BlockInfoMsg \<Rightarrow> TxDetail \<Rightarrow> TxDetail" where
  "TxDetail_Update b d =
     (if BlockBodyLength b = 0 then d
      else
        let d = foldl (setDetail TxHash (\<lambda>tx x. x\<lparr>TxProposeTimestamp := Time tx, BlockProposeTimestamp := ProposeTime b,
                  TxCommitTimestamp := CommitTime b\<rparr>)) d (InnerShardTxs b);
            d = foldl (setDetail TxHash (\<lambda>tx x. x\<lparr>TxProposeTimestamp := Time tx, BlockProposeTimestamp := ProposeTime b,
                  Relay1CommitTimestamp := CommitTime b\<rparr>)) d (Relay1Txs b);
            d = foldl (setDetail TxHash (\<lambda>tx x. x\<lparr>Relay2CommitTimestamp := CommitTime b,
                  TxCommitTimestamp := CommitTime b\<rparr>)) d (Relay2Txs b);
            d = foldl (setDetail rawKey (\<lambda>tx x. x\<lparr>TxProposeTimestamp := Time tx, BlockProposeTimestamp := ProposeTime b,
                  Broker1CommitTimestamp := CommitTime b\<rparr>)) d (Broker1Txs b)
        in foldl (setDetail rawKey (\<lambda>tx x. x\<lparr>Broker2CommitTimestamp := CommitTime b,
                  TxCommitTimestamp := CommitTime b\<rparr>)) d (Broker2Txs b))"

definition timestampToString :: "time \<Rightarrow> 'f cell" where
  "timestampToString thisTime = (if thisTime = 0 then CText '''' else CInt (UnixMilli thisTime))"

text \<open>The rows in the order \<open>ks\<close> of the map's keys.\<close>

definition TxDetail_rows :: "bytes list \<Rightarrow> TxDetail \<Rightarrow> 'f cell list list" where
  "TxDetail_rows ks d =
     map (\<lambda>key. let val = getOr zeroDetail (d key) in
       [CInt (int (bigSetBytes key)), timestampToString (TxProposeTimestamp val),
        timestampToString (BlockProposeTimestamp val), timestampToString (TxCommitTimestamp val),
        timestampToString (Relay1CommitTimestamp val), timestampToString (Relay2CommitTimestamp val),
        timestampToString (Broker1CommitTimestamp val), timestampToString (Broker2CommitTimestamp val),
        CInt (durMillis (timeSub (TxCommitTimestamp val) (TxProposeTimestamp val)))]) ks"

end
