(* ===== verification/Supervisor.thy ===== *)
theory Supervisor
  imports CLPABrokerCommittee Latencies
begin

text \<open>
  The supervisor (supervisor/supervisor.go): it owns a committee, the stop signal and the
  measurement modules, and passes every message of the shards to them.

  \<^item> \<open>committeeMod\<close> and \<open>measureMod\<close> are the sums of the implementations of the two Go
    interfaces; \<open>UpdateMeasureRecord\<close> returns what a module writes to its file.
  \<^item> \<open>txHandling\<close> is the point \<open>SupervisorTxHandling\<close> has reached; a run of the supervisor
    (\<open>svRuns\<close>) interleaves it with the messages of the shards.
  \<^item> Log output and sleeping are left out.
\<close>

section \<open>Measurement modules\<close>

datatype 'f measureMod =
    M_TPS_Relay "'f AvgTPS"
  | M_TPS_Broker "'f AvgTPS"
  | M_TCL_Relay "'f TCL"
  | M_TCL_Broker "'f TCL"
  | M_CrossTxRate_Relay "'f CrossTxRate"
  | M_CrossTxRate_Broker "'f CrossTxRate"
  | M_TxNumCount_Relay "'f TxNumCount"
  | M_TxNumCount_Broker "'f TxNumCount"
  | M_TxDetail TxDetail

definition newMeasureMod :: "string \<Rightarrow> 'f measureMod option" where
  "newMeasureMod mModName =
     (if mModName = ''TPS_Relay'' then Some (M_TPS_Relay NewTestModule_avgTPS)
      else if mModName = ''TPS_Broker'' then Some (M_TPS_Broker NewTestModule_avgTPS)
      else if mModName = ''TCL_Relay'' then Some (M_TCL_Relay NewTestModule_TCL)
      else if mModName = ''TCL_Broker'' then Some (M_TCL_Broker NewTestModule_TCL)
      else if mModName = ''CrossTxRate_Relay'' then Some (M_CrossTxRate_Relay NewTestCrossTxRate)
      else if mModName = ''CrossTxRate_Broker'' then Some (M_CrossTxRate_Broker NewTestCrossTxRate)
      else if mModName = ''TxNumberCount_Relay'' then Some (M_TxNumCount_Relay NewTestTxNumCount)
      else if mModName = ''TxNumberCount_Broker'' then Some (M_TxNumCount_Broker NewTestTxNumCount)
      else if mModName = ''Tx_Details'' then Some (M_TxDetail NewTestTxDetail)
      else None)"

definition mapR :: "('a \<Rightarrow> 'b) \<Rightarrow> 'a res \<Rightarrow> 'b res" where
  "mapR f r = bindR r (\<lambda>x. Inr (f x))"

definition UpdateMeasureRecord ::
  "'f fops \<Rightarrow> BlockInfoMsg \<Rightarrow> 'f measureMod \<Rightarrow> ('f measureMod \<times> 'f cell list list) res" where
  "UpdateMeasureRecord F b mm =
     (case mm of
        M_TPS_Relay c \<Rightarrow> mapR (\<lambda>c. (M_TPS_Relay c, [])) (avgTPS_Relay_Update F b c)
      | M_TPS_Broker c \<Rightarrow> mapR (\<lambda>c. (M_TPS_Broker c, [])) (avgTPS_Broker_Update F b c)
      | M_TCL_Relay c \<Rightarrow> mapR (\<lambda>c. (M_TCL_Relay c, [])) (TCL_Relay_Update F b c)
      | M_TCL_Broker c \<Rightarrow> mapR (\<lambda>c. (M_TCL_Broker c, [])) (TCL_Broker_Update F b c)
      | M_CrossTxRate_Relay c \<Rightarrow> mapR (\<lambda>c. (M_CrossTxRate_Relay c, [])) (CrossTxRate_Relay_Update F b c)
      | M_CrossTxRate_Broker c \<Rightarrow> mapR (\<lambda>c. (M_CrossTxRate_Broker c, [])) (CrossTxRate_Broker_Update F b c)
      | M_TxNumCount_Relay c \<Rightarrow> mapR (\<lambda>(c, rows). (M_TxNumCount_Relay c, rows)) (TxNumCount_Relay_Update F b c)
      | M_TxNumCount_Broker c \<Rightarrow> mapR (\<lambda>c. (M_TxNumCount_Broker c, [])) (TxNumCount_Broker_Update F b c)
      | M_TxDetail d \<Rightarrow> Inr (M_TxDetail (TxDetail_Update b d), []))"

section \<open>Reading the measurements out\<close>

text \<open>The broker forms write the operations of the relay forms out again.\<close>

definition avgTPS_Broker_OutputRecord :: "'f fops \<Rightarrow> time \<Rightarrow> 'f AvgTPS \<Rightarrow> ('f list \<times> 'f) res" where
  "avgTPS_Broker_OutputRecord F now c = avgTPS_OutputRecord F now c"

definition avgTPS_Broker_rows :: "'f fops \<Rightarrow> 'f AvgTPS \<Rightarrow> 'f cell list list res" where
  "avgTPS_Broker_rows F c = avgTPS_rows F c"

definition CrossTxRate_Broker_OutputRecord :: "'f fops \<Rightarrow> 'f CrossTxRate \<Rightarrow> ('f list \<times> 'f) res" where
  "CrossTxRate_Broker_OutputRecord F c = CrossTxRate_OutputRecord F c"

definition CrossTxRate_Broker_rows :: "'f fops \<Rightarrow> 'f CrossTxRate \<Rightarrow> 'f cell list list res" where
  "CrossTxRate_Broker_rows F c = CrossTxRate_rows F c"

definition TCL_Broker_OutputRecord :: "'f fops \<Rightarrow> 'f TCL \<Rightarrow> ('f list \<times> 'f) res" where
  "TCL_Broker_OutputRecord F c = TCL_OutputRecord F c"

definition TCL_Broker_rows :: "'f TCL \<Rightarrow> 'f cell list list res" where
  "TCL_Broker_rows c = TCL_rows c"

definition TxNumCount_Broker_OutputRecord :: "'f fops \<Rightarrow> 'f TxNumCount \<Rightarrow> 'f list \<times> 'f" where
  "TxNumCount_Broker_OutputRecord F c = TxNumCount_OutputRecord F c"

text \<open>\<open>OutputRecord\<close> of a module with the rows it writes; \<open>ks\<close> is the order of the map of times.\<close>

definition withRows :: "('f list \<times> 'f) res \<Rightarrow> 'f cell list list res \<Rightarrow> (('f list \<times> 'f) \<times> 'f cell list list) res" where
  "withRows r rows = bindR rows (\<lambda>ws. bindR r (\<lambda>x. Inr (x, ws)))"

definition OutputRecord ::
  "'f fops \<Rightarrow> time \<Rightarrow> bytes list \<Rightarrow> 'f measureMod \<Rightarrow> (('f list \<times> 'f) \<times> 'f cell list list) res" where
  "OutputRecord F now ks mm =
     (case mm of
        M_TPS_Relay c \<Rightarrow> withRows (avgTPS_OutputRecord F now c) (avgTPS_rows F c)
      | M_TPS_Broker c \<Rightarrow> withRows (avgTPS_Broker_OutputRecord F now c) (avgTPS_Broker_rows F c)
      | M_TCL_Relay c \<Rightarrow> withRows (TCL_OutputRecord F c) (TCL_rows c)
      | M_TCL_Broker c \<Rightarrow> withRows (TCL_Broker_OutputRecord F c) (TCL_Broker_rows c)
      | M_CrossTxRate_Relay c \<Rightarrow> withRows (CrossTxRate_OutputRecord F c) (CrossTxRate_rows F c)
      | M_CrossTxRate_Broker c \<Rightarrow> withRows (CrossTxRate_Broker_OutputRecord F c) (CrossTxRate_Broker_rows F c)
      | M_TxNumCount_Relay c \<Rightarrow> withRows (Inr (TxNumCount_OutputRecord F c)) (TxNumCount_Relay_rows c)
      | M_TxNumCount_Broker c \<Rightarrow> withRows (Inr (TxNumCount_Broker_OutputRecord F c)) (TxNumCount_Broker_rows c)
      | M_TxDetail d \<Rightarrow> Inr (([], f_ofInt F 0), TxDetail_rows ks d))"

definition OutputMetricName :: "'f measureMod \<Rightarrow> string" where
  "OutputMetricName mm =
     (case mm of
        M_TPS_Relay c \<Rightarrow> ''Average_TPS'' | M_TPS_Broker c \<Rightarrow> ''Average_TPS''
      | M_TCL_Relay c \<Rightarrow> ''Transaction_Confirm_Latency'' | M_TCL_Broker c \<Rightarrow> ''Transaction_Confirm_Latency''
      | M_CrossTxRate_Relay c \<Rightarrow> ''CrossTransaction_ratio'' | M_CrossTxRate_Broker c \<Rightarrow> ''CrossTransaction_ratio''
      | M_TxNumCount_Relay c \<Rightarrow> ''Tx_number'' | M_TxNumCount_Broker c \<Rightarrow> ''Tx_number''
      | M_TxDetail d \<Rightarrow> ''Tx_Details'')"

section \<open>The supervisor\<close>

datatype 'f committeeMod =
    C_Relay committee
  | C_Broker brokerCommittee
  | C_CLPA "'f clpaCommittee"
  | C_CLPA_Broker "'f clpaBrokerCommittee"

record 'f Supervisor =
  sv_IPaddr :: string
  sv_ChainConfig :: ChainConfig
  Ip_nodeTable :: ipTable
  listenStop :: bool
  Ss :: StopSignal
  comMod :: "'f committeeMod"
  testMeasureMods :: "'f measureMod list"

text \<open>The parameters of the data set: the lines of the broker file and the numbers of params/.\<close>

record dataParams =
  brokerLines :: "string list"
  BrokerNum :: int
  TotalDataSize :: int
  TxBatchSize :: int
  ReconfigTimeGap :: int

definition newCommittee :: "'f f64 \<Rightarrow> params \<Rightarrow> dataParams \<Rightarrow> string \<Rightarrow> 'f committeeMod res" where
  "newCommittee F cfg dp committeeMethod =
     (if committeeMethod = ''CLPA_Broker'' then
        mapR C_CLPA_Broker (NewCLPACommitteeMod_Broker F cfg (brokerLines dp) (BrokerNum dp) (TotalDataSize dp)
          (TxBatchSize dp) (ReconfigTimeGap dp))
      else if committeeMethod = ''CLPA'' then
        mapR C_CLPA (NewCLPACommitteeModule F cfg (TotalDataSize dp) (TxBatchSize dp) (ReconfigTimeGap dp))
      else if committeeMethod = ''Broker'' then
        Inr (C_Broker (NewBrokerCommitteeMod (brokerLines dp) (BrokerNum dp) (TotalDataSize dp) (TxBatchSize dp)))
      else Inr (C_Relay (NewRelayCommitteeModule (TotalDataSize dp) (TxBatchSize dp))))"

definition NewSupervisor ::
  "'f f64 \<Rightarrow> params \<Rightarrow> dataParams \<Rightarrow> ipTable \<Rightarrow> string \<Rightarrow> ChainConfig \<Rightarrow> string \<Rightarrow> string list \<Rightarrow> 'f Supervisor res" where
  "NewSupervisor F cfg dp tbl ip pcc committeeMethod measureModNames =
     bindR (newCommittee F cfg dp committeeMethod) (\<lambda>cm.
       Inr \<lparr>sv_IPaddr = ip, sv_ChainConfig = pcc, Ip_nodeTable = tbl, listenStop = False,
            Ss = NewStopSignal (3 * sint (ShardNums pcc)), comMod = cm,
            testMeasureMods = List.map_filter newMeasureMod measureModNames\<rparr>)"

section \<open>Messages\<close>

definition committee_HandleBlockInfo ::
  "('t, 'd, 's) env \<Rightarrow> (BrokerRawMeg \<Rightarrow> bytes) \<Rightarrow> params \<Rightarrow> ipTable \<Rightarrow> (nat \<Rightarrow> time) \<Rightarrow> BlockInfoMsg \<Rightarrow>
   'f committeeMod \<Rightarrow> ('f committeeMod \<times> outs) res" where
  "committee_HandleBlockInfo E dg cfg tbl clk b cm =
     (case cm of
        C_Relay c \<Rightarrow> Inr (C_Relay (relay_HandleBlockInfo b c), [])
      | C_Broker m \<Rightarrow> mapR (\<lambda>(m, os). (C_Broker m, os)) (broker_HandleBlockInfo E dg cfg tbl clk b m)
      | C_CLPA m \<Rightarrow> mapR (\<lambda>m. (C_CLPA m, [])) (clpa_HandleBlockInfo cfg b m)
      | C_CLPA_Broker m \<Rightarrow> mapR (\<lambda>(m, os). (C_CLPA_Broker m, os)) (cb_HandleBlockInfo E dg cfg tbl clk b m))"

definition committee_HandleOtherMessage ::
  "('t, 'd, 's) env \<Rightarrow> (BrokerRawMeg \<Rightarrow> bytes) \<Rightarrow> params \<Rightarrow> ipTable \<Rightarrow> (nat \<Rightarrow> time) \<Rightarrow> wire \<Rightarrow>
   'f committeeMod \<Rightarrow> ('f committeeMod \<times> outs) res" where
  "committee_HandleOtherMessage E dg cfg tbl clk msg cm =
     (case cm of
        C_CLPA_Broker m \<Rightarrow> mapR (\<lambda>(m, os). (C_CLPA_Broker m, os)) (cb_HandleOtherMessage E dg cfg tbl clk msg m)
      | _ \<Rightarrow> Inr (cm, []))"

text \<open>The modules are updated in turn; their files are collected in the order of the modules.\<close>

definition updateMeasures ::
  "'f fops \<Rightarrow> BlockInfoMsg \<Rightarrow> 'f measureMod list \<Rightarrow> ('f measureMod list \<times> 'f cell list list list) res" where
  "updateMeasures F b mms =
     foldR (\<lambda>(done, rows) mm. mapR (\<lambda>(mm, r). (done @ [mm], rows @ [r])) (UpdateMeasureRecord F b mm)) ([], []) mms"

definition handleBlockInfos ::
  "('t, 'd, 's) env \<Rightarrow> (BrokerRawMeg \<Rightarrow> bytes) \<Rightarrow> 'f fops \<Rightarrow> params \<Rightarrow> (nat \<Rightarrow> time) \<Rightarrow> BlockInfoMsg \<Rightarrow>
   'f Supervisor \<Rightarrow> ('f Supervisor \<times> outs \<times> 'f cell list list list) res" where
  "handleBlockInfos E dg F cfg clk bim d =
     (let d = d\<lparr>Ss := (if BlockBodyLength bim = 0 then StopGap_Inc (Ss d) else StopGap_Reset (Ss d))\<rparr> in
      bindR (committee_HandleBlockInfo E dg cfg (Ip_nodeTable d) clk bim (comMod d)) (\<lambda>(cm, os).
      bindR (updateMeasures F bim (testMeasureMods d)) (\<lambda>(mms, rows).
        Inr (d\<lparr>comMod := cm, testMeasureMods := mms\<rparr>, os, rows))))"

definition sv_handleMessage ::
  "('t, 'd, 's) env \<Rightarrow> (BrokerRawMeg \<Rightarrow> bytes) \<Rightarrow> 'f fops \<Rightarrow> params \<Rightarrow> (nat \<Rightarrow> time) \<Rightarrow> wire \<Rightarrow>
   'f Supervisor \<Rightarrow> ('f Supervisor \<times> outs \<times> 'f cell list list list) res" where
  "sv_handleMessage E dg F cfg clk msg d =
     (case msg of
        WBlockInfo bim \<Rightarrow> handleBlockInfos E dg F cfg clk bim d
      | _ \<Rightarrow> bindR (committee_HandleOtherMessage E dg cfg (Ip_nodeTable d) clk msg (comMod d)) (\<lambda>(cm, os).
               Inr (d\<lparr>comMod := cm\<rparr>, os, [])))"

text \<open>What the sending loop does to the stop signal.\<close>

definition noteAction :: "'f Supervisor \<Rightarrow> action \<Rightarrow> 'f Supervisor" where
  "noteAction d a = (case a of AResetGap \<Rightarrow> d\<lparr>Ss := StopGap_Reset (Ss d)\<rparr> | ASend ip m \<Rightarrow> d)"

text \<open>
  How far \<open>SupervisorTxHandling\<close> has got: the committee's \<open>MsgSendingControl\<close> has not returned
  yet; it has, and the stop signal is polled; the stop messages are out.
\<close>

datatype txHandling = InSendingControl | AwaitingQuiet | StopSent

text \<open>
  What holds when a committee's \<open>MsgSendingControl\<close> returns: the loop of the CLPA committee leaves its
  last wait, that of the 200th repartition (\<open>waitTurn\<close>), and the CLPA broker committee drains until the
  stop signal is set (\<open>cb_drainTurn\<close>); the other two return when the data set is sent.
\<close>

definition sendingOver :: "'f Supervisor \<Rightarrow> bool" where
  "sendingOver d =
     (case comMod d of
        C_CLPA m \<Rightarrow> 200 \<le> curEpoch m
      | C_CLPA_Broker m \<Rightarrow> GapEnough (Ss d)
      | _ \<Rightarrow> True)"

text \<open>After the loop and the wait for the stop signal: a stop message to every node of every shard.\<close>

definition stopMessages :: "'f Supervisor \<Rightarrow> outs" where
  "stopMessages d =
     concat (map (\<lambda>sid. map (\<lambda>nid. (ipOf (Ip_nodeTable d) sid nid, WStop))
         (map word_of_nat [0..<unat (Nodes_perShard (sv_ChainConfig d))]))
       (map word_of_nat [0..<unat (ShardNums (sv_ChainConfig d))]))"

definition finishHandling :: "txHandling \<Rightarrow> 'f Supervisor \<Rightarrow> ('f Supervisor \<times> outs) option" where
  "finishHandling h d =
     (if h = AwaitingQuiet \<and> GapEnough (Ss d) then Some (d\<lparr>listenStop := True\<rparr>, stopMessages d) else None)"

text \<open>Closing: the name, the record and the written rows of every module, in their order.\<close>

definition CloseSupervisor ::
  "'f fops \<Rightarrow> time \<Rightarrow> (TxDetail \<Rightarrow> bytes list) \<Rightarrow> 'f Supervisor \<Rightarrow>
   (string \<times> ('f list \<times> 'f) \<times> 'f cell list list) list res" where
  "CloseSupervisor F now ord d =
     foldR (\<lambda>out mm.
       bindR (OutputRecord F now (case mm of M_TxDetail t \<Rightarrow> ord t | _ \<Rightarrow> []) mm) (\<lambda>(r, rows).
         Inr (out @ [(OutputMetricName mm, r, rows)]))) [] (testMeasureMods d)"

section \<open>Runs\<close>

text \<open>
  A message of a shard; an action of the sending loop, or its work on the committee's state, while
  \<open>MsgSendingControl\<close> runs; its return; and the stop messages. A message may arrive at any time.
\<close>

datatype svEvent = SvMessage wire | SvAction action | SvWork | SvSent | SvStop outs

definition committeeKind :: "'f committeeMod \<Rightarrow> string" where
  "committeeKind cm =
     (case cm of C_Relay _ \<Rightarrow> ''Relay'' | C_Broker _ \<Rightarrow> ''Broker'' | C_CLPA _ \<Rightarrow> ''CLPA'' | C_CLPA_Broker _ \<Rightarrow> ''CLPA_Broker'')"

inductive svStep ::
  "('t, 'd, 's) env \<Rightarrow> (BrokerRawMeg \<Rightarrow> bytes) \<Rightarrow> 'f fops \<Rightarrow> params \<Rightarrow> txHandling \<times> 'f Supervisor \<Rightarrow> svEvent \<Rightarrow>
   txHandling \<times> 'f Supervisor \<Rightarrow> bool"
  for E dg F cfg where
  message: "sv_handleMessage E dg F cfg clk msg d = Inr (d', os, rows) \<Longrightarrow>
     svStep E dg F cfg (h, d) (SvMessage msg) (h, d')"
| action: "svStep E dg F cfg (InSendingControl, d) (SvAction a) (InSendingControl, noteAction d a)"
| work: "committeeKind cm = committeeKind (comMod d) \<Longrightarrow>
     svStep E dg F cfg (InSendingControl, d) SvWork (InSendingControl, d\<lparr>comMod := cm\<rparr>)"
| sent: "sendingOver d \<Longrightarrow> svStep E dg F cfg (InSendingControl, d) SvSent (AwaitingQuiet, d)"
| finish: "finishHandling h d = Some (d', os) \<Longrightarrow> svStep E dg F cfg (h, d) (SvStop os) (StopSent, d')"

inductive_cases svStep_MessageE: "svStep E dg F cfg c (SvMessage msg) c'"
inductive_cases svStep_ActionE: "svStep E dg F cfg c (SvAction a) c'"
inductive_cases svStep_SentE: "svStep E dg F cfg c SvSent c'"
inductive_cases svStep_StopE: "svStep E dg F cfg c (SvStop os) c'"

inductive svRuns ::
  "('t, 'd, 's) env \<Rightarrow> (BrokerRawMeg \<Rightarrow> bytes) \<Rightarrow> 'f fops \<Rightarrow> params \<Rightarrow> 'f Supervisor \<Rightarrow> svEvent list \<Rightarrow>
   txHandling \<times> 'f Supervisor \<Rightarrow> bool"
  for E dg F cfg d0 where
  svInit: "svRuns E dg F cfg d0 [] (InSendingControl, d0)"
| svNext: "svRuns E dg F cfg d0 es c \<Longrightarrow> svStep E dg F cfg c e c' \<Longrightarrow> svRuns E dg F cfg d0 (es @ [e]) c'"

inductive_cases svRuns_NilE: "svRuns E dg F cfg d0 [] c"

text \<open>A run splits at any of its events.\<close>

lemma svRuns_split:
  assumes "svRuns E dg F cfg d0 (es1 @ e # es2) c"
  shows "\<exists>c1 c2. svRuns E dg F cfg d0 es1 c1 \<and> svStep E dg F cfg c1 e c2 \<and> svRuns E dg F cfg d0 (es1 @ [e]) c2"
  using assms
proof (induction es2 arbitrary: c rule: rev_induct)
  case Nil
  then obtain c1 where "svRuns E dg F cfg d0 es1 c1" "svStep E dg F cfg c1 e c"
    by (cases rule: svRuns.cases) auto
  then show ?case by (blast intro: svRuns.svNext)
next
  case (snoc x es2)
  from snoc.prems obtain c' where "svRuns E dg F cfg d0 (es1 @ e # es2) c'"
    by (cases rule: svRuns.cases) (auto simp flip: append_Cons append_assoc)
  with snoc.IH show ?case by blast
qed

end
