(* ===== verification/MeasureProps.thy ===== *)
theory MeasureProps
  imports Supervisor
begin

text \<open>
  Properties of the measurement modules: the counters of every module are the sums over the
  reports it got, its lists grow together with the epochs, and reading a module out never fails.
\<close>

section \<open>Counters\<close>

text \<open>The largest epoch of the reports \<open>h\<close>, and what a number adds up to in epoch \<open>e\<close>.\<close>

definition lastEpoch :: "BlockInfoMsg list \<Rightarrow> int" where
  "lastEpoch h = foldl max (-1) (map Epoch h)"

definition epochSum :: "(BlockInfoMsg \<Rightarrow> int) \<Rightarrow> BlockInfoMsg list \<Rightarrow> nat \<Rightarrow> int" where
  "epochSum f h e = sum_list (map f (filter (\<lambda>b. Epoch b = int e) h))"

definition tally :: "(BlockInfoMsg \<Rightarrow> int) \<Rightarrow> BlockInfoMsg list \<Rightarrow> int list" where
  "tally f h = map (epochSum f h) [0..<nat (lastEpoch h + 1)]"

definition countsAre :: "halves \<Rightarrow> BlockInfoMsg list \<Rightarrow> 'z epochCounts_scheme \<Rightarrow> bool" where
  "countsAre sel h c \<longleftrightarrow> epochID c = lastEpoch h \<and> firstTxNum c = tally (sel1 sel) h \<and>
     secondTxNum c = tally (sel2 sel) h \<and> normalTxNum c = tally innerNum h"

lemma lastEpoch_snoc [simp]: "lastEpoch (h @ [b]) = max (lastEpoch h) (Epoch b)"
  by (simp add: lastEpoch_def)

lemma lastEpoch_Nil [simp]: "lastEpoch [] = -1"
  by (simp add: lastEpoch_def)

lemma lastEpoch_min: "-1 \<le> lastEpoch h"
  by (induction h rule: rev_induct) auto

lemma lastEpoch_max: "b \<in> set h \<Longrightarrow> Epoch b \<le> lastEpoch h"
  by (induction h rule: rev_induct) auto

lemma epochSum_snoc: "epochSum f (h @ [b]) e = epochSum f h e + (if Epoch b = int e then f b else 0)"
  by (simp add: epochSum_def)

lemma epochSum_late: "lastEpoch h < int e \<Longrightarrow> epochSum f h e = 0"
proof -
  assume "lastEpoch h < int e"
  then have "filter (\<lambda>b. Epoch b = int e) h = []" using lastEpoch_max [of _ h] by (force simp: filter_empty_conv)
  then show ?thesis by (simp add: epochSum_def)
qed

lemma length_tally [simp]: "length (tally f h) = nat (lastEpoch h + 1)"
  by (simp add: tally_def)

lemma length_grow:
  assumes "-1 \<le> epochID c" "length xs = nat (epochID c + 1)" "0 \<le> e"
  shows "length (grow c e z xs) = nat (max (epochID c) e + 1)"
  using assms by (auto simp: grow_def)

lemma grow_tally:
  assumes "epochID c = lastEpoch h" "0 \<le> e"
  shows "grow c e 0 (tally f h) = map (epochSum f h) [0..<nat (max (lastEpoch h) e + 1)]"
proof (rule nth_equalityI)
  show "length (grow c e 0 (tally f h)) = length (map (epochSum f h) [0..<nat (max (lastEpoch h) e + 1)])"
    using assms lastEpoch_min [of h] by (simp add: length_grow)
next
  fix i assume "i < length (grow c e 0 (tally f h))"
  moreover have "length (grow c e 0 (tally f h)) = nat (max (lastEpoch h) e + 1)"
    using assms lastEpoch_min [of h] by (simp add: length_grow)
  ultimately show "grow c e 0 (tally f h) ! i = map (epochSum f h) [0..<nat (max (lastEpoch h) e + 1)] ! i"
    using assms epochSum_late [of h i f] by (auto simp: grow_def nth_append tally_def)
qed

lemma incI_tally:
  assumes "epochID c = lastEpoch h" "0 \<le> Epoch b"
  shows "incI (grow c (Epoch b) 0 (tally f h)) (Epoch b) (f b) = Inr (tally f (h @ [b]))"
proof -
  define n where "n = nat (max (lastEpoch h) (Epoch b) + 1)"
  have i: "nat (Epoch b) < n" "Epoch b < int n" using assms by (auto simp: n_def)
  have t: "tally f (h @ [b]) = map (epochSum f (h @ [b])) [0..<n]" by (simp add: tally_def n_def)
  have "(map (epochSum f h) [0..<n])[nat (Epoch b) := epochSum f h (nat (Epoch b)) + f b] = map (epochSum f (h @ [b])) [0..<n]"
    using assms i by (intro nth_equalityI) (auto simp: nth_list_update epochSum_snoc)
  then show ?thesis
    using assms i unfolding grow_tally [OF assms] n_def [symmetric] t
    by (simp add: incI_def nthI_def updI_def)
qed

lemma countBlock_counts:
  assumes "countsAre sel h c" "0 \<le> Epoch b"
  shows "countBlock sel b c = Inr (c\<lparr>epochID := lastEpoch (h @ [b]), firstTxNum := tally (sel1 sel) (h @ [b]),
     secondTxNum := tally (sel2 sel) (h @ [b]), normalTxNum := tally innerNum (h @ [b])\<rparr>)"
  using assms incI_tally [of c h b] by (simp add: countBlock_def extendTo_def countsAre_def Let_def)

section \<open>Lists that grow with the epochs\<close>

text \<open>A list with one entry per epoch of the reports \<open>h\<close>.\<close>

definition perEpoch :: "BlockInfoMsg list \<Rightarrow> 'a list \<Rightarrow> bool" where
  "perEpoch h xs \<longleftrightarrow> length xs = nat (lastEpoch h + 1)"

lemma perEpoch_grow:
  assumes "epochID c = lastEpoch h" "0 \<le> Epoch b" "perEpoch h xs"
  shows "perEpoch (h @ [b]) (grow c (Epoch b) z xs)"
  using assms lastEpoch_min [of h] by (simp add: perEpoch_def length_grow)

lemma perEpoch_inside: "perEpoch (h @ [b]) xs \<Longrightarrow> 0 \<le> Epoch b \<Longrightarrow> Epoch b < int (length xs)"
  by (auto simp: perEpoch_def)

lemma addF_ok:
  assumes "perEpoch (h @ [b]) xs" "0 \<le> Epoch b"
  shows "\<exists>ys. addF F xs (Epoch b) d = Inr ys \<and> perEpoch (h @ [b]) ys"
  using assms perEpoch_inside [OF assms] by (auto simp: addF_def nthI_def updI_def perEpoch_def)

lemma add64_ok:
  assumes "perEpoch (h @ [b]) xs" "0 \<le> Epoch b"
  shows "\<exists>ys. add64 xs (Epoch b) d = Inr ys \<and> perEpoch (h @ [b]) ys"
  using assms perEpoch_inside [OF assms] by (auto simp: add64_def nthI_def updI_def perEpoch_def)

lemma addFs_ok:
  assumes "perEpoch (h @ [b]) xs" "0 \<le> Epoch b"
  shows "\<exists>ys. foldR (\<lambda>xs d. addF F xs (Epoch b) d) xs ds = Inr ys \<and> perEpoch (h @ [b]) ys"
proof (rule foldR_total)
  fix s :: "'a list" and d
  assume "perEpoch (h @ [b]) s"
  then show "\<exists>ys. addF F s (Epoch b) d = Inr ys \<and> perEpoch (h @ [b]) ys" using assms(2) by (rule addF_ok)
qed (rule assms(1))

lemma nth_upd_ok:
  assumes "perEpoch (h @ [b]) xs" "0 \<le> Epoch b"
  shows "nthI xs (Epoch b) = Inr (xs ! nat (Epoch b))"
    and "updI xs (Epoch b) x = Inr (xs[nat (Epoch b) := x])" and "perEpoch (h @ [b]) (xs[nat (Epoch b) := x])"
  using assms perEpoch_inside [OF assms] by (auto simp: nthI_def updI_def perEpoch_def)

section \<open>Every module\<close>

definition rateInv :: "halves \<Rightarrow> BlockInfoMsg list \<Rightarrow> 'f CrossTxRate \<Rightarrow> bool" where
  "rateInv sel h c \<longleftrightarrow> countsAre sel h c \<and> perEpoch h (totTxNum c) \<and> perEpoch h (totCrossTxNum c)"

definition numInv :: "halves \<Rightarrow> BlockInfoMsg list \<Rightarrow> 'f TxNumCount \<Rightarrow> bool" where
  "numInv sel h c \<longleftrightarrow> countsAre sel h c \<and> perEpoch h (txNum c)"

definition tpsInv :: "halves \<Rightarrow> BlockInfoMsg list \<Rightarrow> 'f AvgTPS \<Rightarrow> bool" where
  "tpsInv sel h c \<longleftrightarrow> countsAre sel h c \<and> perEpoch h (excutedTxNum c) \<and> perEpoch h (startTime c) \<and> perEpoch h (endTime c)"

definition tclInv :: "halves \<Rightarrow> BlockInfoMsg list \<Rightarrow> 'f TCL \<Rightarrow> bool" where
  "tclInv sel h c \<longleftrightarrow> countsAre sel h c \<and> perEpoch h (tcl_txNum c) \<and> perEpoch h (totTxLatencyEpoch c) \<and>
     perEpoch h (firstCommitLatency c) \<and> perEpoch h (secondCommitLatency c) \<and>
     perEpoch h (normalTxCommitLatency c) \<and> perEpoch h (ctxCommitLatency c)"

lemma rate_step:
  assumes I: "rateInv sel h c" and e: "0 \<le> Epoch b"
  shows "\<exists>c'. crossRate_Update F sel tot b c = Inr c' \<and> rateInv sel (h @ [b]) c'"
proof -
  note g = perEpoch_grow [OF _ e, of c h]
  define c1 where "c1 = c\<lparr>totTxNum := grow c (Epoch b) (f_ofInt F 0) (totTxNum c), totCrossTxNum := grow c (Epoch b) (f_ofInt F 0) (totCrossTxNum c)\<rparr>"
  have C: "countsAre sel h c1" using I by (simp add: rateInv_def c1_def countsAre_def)
  have P: "perEpoch (h @ [b]) (totTxNum c1)" "perEpoch (h @ [b]) (totCrossTxNum c1)"
    using I g by (auto simp: rateInv_def c1_def countsAre_def)
  obtain xs ys where "addF F (totCrossTxNum c1) (Epoch b) (half F (sel1 sel b + sel2 sel b)) = Inr xs" "perEpoch (h @ [b]) xs"
    "addF F (totTxNum c1) (Epoch b) (tot b) = Inr ys" "perEpoch (h @ [b]) ys"
    using addF_ok [OF P(1) e] addF_ok [OF P(2) e] by blast
  then show ?thesis
    by (simp add: crossRate_Update_def Let_def c1_def [symmetric] countBlock_counts [OF C e] rateInv_def countsAre_def)
qed

lemma num_step:
  assumes I: "numInv sel h c" and e: "0 \<le> Epoch b"
  shows "\<exists>c'. txNum_Update F sel d b c = Inr c' \<and> numInv sel (h @ [b]) c'"
proof -
  note g = perEpoch_grow [OF _ e, of c h]
  define c1 where "c1 = c\<lparr>txNum := grow c (Epoch b) (f_ofInt F 0) (txNum c)\<rparr>"
  have C: "countsAre sel h c1" using I by (simp add: numInv_def c1_def countsAre_def)
  have P: "perEpoch (h @ [b]) (txNum c1)" using I g by (auto simp: numInv_def c1_def countsAre_def)
  obtain xs where "addF F (txNum c1) (Epoch b) d = Inr xs" "perEpoch (h @ [b]) xs"
    using addF_ok [OF P e] by blast
  then show ?thesis
    by (simp add: txNum_Update_def c1_def [symmetric] countBlock_counts [OF C e] numInv_def countsAre_def)
qed

lemma tps_step:
  assumes I: "tpsInv sel h c" and e: "0 \<le> Epoch b"
  shows "\<exists>c'. tps_Update F sel ds b c = Inr c' \<and> tpsInv sel (h @ [b]) c'"
proof -
  note g = perEpoch_grow [OF _ e, of c h]
  define c1 where "c1 = c\<lparr>excutedTxNum := grow c (Epoch b) (f_ofInt F 0) (excutedTxNum c),
      startTime := grow c (Epoch b) 0 (startTime c), endTime := grow c (Epoch b) 0 (endTime c)\<rparr>"
  have C: "countsAre sel h c1" using I by (simp add: tpsInv_def c1_def countsAre_def)
  have P: "perEpoch (h @ [b]) (excutedTxNum c1)" "perEpoch (h @ [b]) (startTime c1)" "perEpoch (h @ [b]) (endTime c1)"
    using I g by (auto simp: tpsInv_def c1_def countsAre_def)
  obtain xs where "foldR (\<lambda>xs d. addF F xs (Epoch b) d) (excutedTxNum c1) ds = Inr xs" "perEpoch (h @ [b]) xs"
    using addFs_ok [OF P(1) e] by blast
  then show ?thesis
    using P nth_upd_ok [OF P(2) e] nth_upd_ok [OF P(3) e]
    by (simp add: tps_Update_def Let_def c1_def [symmetric] countBlock_counts [OF C e] tpsInv_def countsAre_def)
qed

lemma tcl_open_step:
  assumes I: "tclInv sel h c" and e: "0 \<le> Epoch b"
  shows "\<exists>c'. tcl_open F sel b c = Inr c' \<and> tclInv sel (h @ [b]) c'"
proof -
  note g = perEpoch_grow [OF _ e, of c h]
  define c1 where "c1 = c\<lparr>tcl_txNum := grow c (Epoch b) (f_ofInt F 0) (tcl_txNum c),
      totTxLatencyEpoch := grow c (Epoch b) (f_ofInt F 0) (totTxLatencyEpoch c),
      firstCommitLatency := grow c (Epoch b) 0 (firstCommitLatency c),
      secondCommitLatency := grow c (Epoch b) 0 (secondCommitLatency c),
      normalTxCommitLatency := grow c (Epoch b) 0 (normalTxCommitLatency c),
      ctxCommitLatency := grow c (Epoch b) 0 (ctxCommitLatency c)\<rparr>"
  have C: "countsAre sel h c1" using I by (simp add: tclInv_def c1_def countsAre_def)
  have P: "perEpoch (h @ [b]) (tcl_txNum c1)" "perEpoch (h @ [b]) (totTxLatencyEpoch c1)"
    "perEpoch (h @ [b]) (firstCommitLatency c1)" "perEpoch (h @ [b]) (secondCommitLatency c1)"
    "perEpoch (h @ [b]) (normalTxCommitLatency c1)" "perEpoch (h @ [b]) (ctxCommitLatency c1)"
    using I g by (auto simp: tclInv_def c1_def countsAre_def)
  obtain xs where "addF F (tcl_txNum c1) (Epoch b) (f_add F (f_ofInt F (innerNum b)) (half F (sel1 sel b + sel2 sel b))) = Inr xs"
    "perEpoch (h @ [b]) xs"
    using addF_ok [OF P(1) e] by blast
  then show ?thesis
    using P(2-) by (simp add: tcl_open_def Let_def c1_def [symmetric] countBlock_counts [OF C e] tclInv_def countsAre_def)
qed

text \<open>The updates of single lists keep the others.\<close>

lemma tclInv_upds [intro]:
  assumes "tclInv sel h c" 
  shows "perEpoch h xs \<Longrightarrow> tclInv sel h (c\<lparr>totTxLatencyEpoch := xs\<rparr>)"
    and "perEpoch h ys \<Longrightarrow> tclInv sel h (c\<lparr>firstCommitLatency := ys\<rparr>)"
    and "perEpoch h ys \<Longrightarrow> tclInv sel h (c\<lparr>firstTime := m, firstCommitLatency := ys\<rparr>)"
    and "perEpoch h ys \<Longrightarrow> tclInv sel h (c\<lparr>secondCommitLatency := ys\<rparr>)"
    and "perEpoch h ys \<Longrightarrow> tclInv sel h (c\<lparr>normalTxCommitLatency := ys\<rparr>)"
    and "perEpoch h ys \<Longrightarrow> tclInv sel h (c\<lparr>ctxCommitLatency := ys\<rparr>)"
    and "perEpoch h ys \<Longrightarrow> perEpoch h zs \<Longrightarrow> tclInv sel h (c\<lparr>secondCommitLatency := ys, ctxCommitLatency := zs\<rparr>)"
  using assms by (simp_all add: tclInv_def countsAre_def)

lemma tclInv_lists:
  assumes "tclInv sel h c"
  shows "perEpoch h (totTxLatencyEpoch c)" "perEpoch h (firstCommitLatency c)" "perEpoch h (secondCommitLatency c)"
    "perEpoch h (normalTxCommitLatency c)" "perEpoch h (ctxCommitLatency c)"
  using assms by (simp_all add: tclInv_def)

lemma addSeconds_step:
  assumes "tclInv sel (h @ [b]) c" "0 \<le> Epoch b"
  shows "\<exists>c'. addSeconds F b t c = Inr c' \<and> tclInv sel (h @ [b]) c'"
proof -
  obtain xs where "addF F (totTxLatencyEpoch c) (Epoch b) (durSeconds F (timeSub (CommitTime b) t)) = Inr xs" "perEpoch (h @ [b]) xs"
    using addF_ok [OF tclInv_lists(1) [OF assms(1)] assms(2)] by blast
  with assms(1) show ?thesis by (auto simp: addSeconds_def)
qed

lemma tcl_normal_step:
  assumes "tclInv sel (h @ [b]) c" "0 \<le> Epoch b"
  shows "\<exists>c'. tcl_normal F b c tx = Inr c' \<and> tclInv sel (h @ [b]) c'"
proof -
  obtain c1 where c1: "addSeconds F b (Time tx) c = Inr c1" "tclInv sel (h @ [b]) c1" using addSeconds_step [OF assms] by blast
  obtain xs where "add64 (normalTxCommitLatency c1) (Epoch b) (sinceMillis b (Time tx)) = Inr xs" "perEpoch (h @ [b]) xs"
      using add64_ok [OF tclInv_lists(4) [OF c1(2)] assms(2)] by blast
  with c1 show ?thesis by (auto simp: tcl_normal_def)
qed

lemma tcl_first_step:
  assumes "tclInv sel (h @ [b]) c" "0 \<le> Epoch b"
  shows "\<exists>c'. tcl_relay1 b c tx = Inr c' \<and> tclInv sel (h @ [b]) c'"
    and "\<exists>c'. tcl_broker1 b c tx = Inr c' \<and> tclInv sel (h @ [b]) c'"
proof -
  obtain xs where "add64 (firstCommitLatency c) (Epoch b) (sinceMillis b (Time tx)) = Inr xs" "perEpoch (h @ [b]) xs"
      using add64_ok [OF tclInv_lists(2) [OF assms(1)] assms(2)] by blast
  with assms(1) show "\<exists>c'. tcl_relay1 b c tx = Inr c' \<and> tclInv sel (h @ [b]) c'"
    "\<exists>c'. tcl_broker1 b c tx = Inr c' \<and> tclInv sel (h @ [b]) c'"
    by (auto simp: tcl_relay1_def tcl_broker1_def)
qed

lemma tcl_relay2_step:
  assumes "tclInv sel (h @ [b]) c" "0 \<le> Epoch b"
  shows "\<exists>c'. tcl_relay2 F b c tx = Inr c' \<and> tclInv sel (h @ [b]) c'"
proof -
  obtain c1 where c1: "addSeconds F b (Time tx) c = Inr c1" "tclInv sel (h @ [b]) c1" using addSeconds_step [OF assms] by blast
  show ?thesis
  proof (cases "firstTime c1 (TxHash tx)")
    case None
    with c1 show ?thesis by (simp add: tcl_relay2_def)
  next
    case (Some t)
    obtain xs ys where "add64 (secondCommitLatency c1) (Epoch b) (sinceMillis b t) = Inr xs" "perEpoch (h @ [b]) xs"
      "add64 (ctxCommitLatency c1) (Epoch b) (sinceMillis b (Time tx)) = Inr ys" "perEpoch (h @ [b]) ys"
      using add64_ok [OF tclInv_lists(3) [OF c1(2)] assms(2)] add64_ok [OF tclInv_lists(5) [OF c1(2)] assms(2)] by blast
    with c1 Some show ?thesis by (auto simp: tcl_relay2_def)
  qed
qed

lemma tcl_broker2_step:
  assumes I: "tclInv sel (h @ [b]) c" and e: "0 \<le> Epoch b"
  shows "\<exists>c'. tcl_broker2 F b c tx = Inr c' \<and> tclInv sel (h @ [b]) c'"
proof -
  have "\<exists>c2. (case firstTime c (rawKey tx) of None \<Rightarrow> Inr c
      | Some t \<Rightarrow> bindR (addSeconds F b t c) (\<lambda>c. bindR (add64 (ctxCommitLatency c) (Epoch b) (sinceMillis b t)) (\<lambda>ys.
          Inr (c\<lparr>ctxCommitLatency := ys\<rparr>)))) = Inr c2 \<and> tclInv sel (h @ [b]) c2"
  proof (cases "firstTime c (rawKey tx)")
    case None
    with I show ?thesis by simp
  next
    case (Some t)
    obtain c1 where c1: "addSeconds F b t c = Inr c1" "tclInv sel (h @ [b]) c1" using addSeconds_step [OF I e] by blast
    obtain ys where "add64 (ctxCommitLatency c1) (Epoch b) (sinceMillis b t) = Inr ys" "perEpoch (h @ [b]) ys"
      using add64_ok [OF tclInv_lists(5) [OF c1(2)] e] by blast
    with c1 Some show ?thesis by auto
  qed
  then obtain c2 where c2: "(case firstTime c (rawKey tx) of None \<Rightarrow> Inr c
      | Some t \<Rightarrow> bindR (addSeconds F b t c) (\<lambda>c. bindR (add64 (ctxCommitLatency c) (Epoch b) (sinceMillis b t)) (\<lambda>ys.
          Inr (c\<lparr>ctxCommitLatency := ys\<rparr>)))) = Inr c2" "tclInv sel (h @ [b]) c2"
    by blast
  obtain xs where "add64 (secondCommitLatency c2) (Epoch b) (sinceMillis b (Time tx)) = Inr xs" "perEpoch (h @ [b]) xs"
      using add64_ok [OF tclInv_lists(3) [OF c2(2)] e] by blast
  with c2(2) show ?thesis unfolding tcl_broker2_def c2(1) by auto
qed

lemma tcl_step:
  assumes I: "tclInv sel h c" and e: "0 \<le> Epoch b"
  shows "sel = relaySel \<Longrightarrow> BlockBodyLength b \<noteq> 0 \<Longrightarrow> \<exists>c'. TCL_Relay_Update F b c = Inr c' \<and> tclInv sel (h @ [b]) c'"
    and "sel = brokerSel \<Longrightarrow> BlockBodyLength b \<noteq> 0 \<Longrightarrow> \<exists>c'. TCL_Broker_Update F b c = Inr c' \<and> tclInv sel (h @ [b]) c'"
proof -
  obtain c1 where c1: "tcl_open F sel b c = Inr c1" "tclInv sel (h @ [b]) c1" using tcl_open_step [OF I e] by blast
  have fold: "\<exists>c2. foldR f c1 txs = Inr c2 \<and> tclInv sel (h @ [b]) c2"
    if "\<And>c tx. tclInv sel (h @ [b]) c \<Longrightarrow> \<exists>c'. f c tx = Inr c' \<and> tclInv sel (h @ [b]) c'" "tclInv sel (h @ [b]) c1"
    for f :: "'f TCL \<Rightarrow> Transaction \<Rightarrow> 'f TCL res" and txs c1
    using foldR_total [of txs "tclInv sel (h @ [b])" f c1] that by blast
  show "\<exists>c'. TCL_Relay_Update F b c = Inr c' \<and> tclInv sel (h @ [b]) c'" if "sel = relaySel" "BlockBodyLength b \<noteq> 0"
  proof -
    obtain c2 where c2: "foldR (tcl_relay1 b) c1 (Relay1Txs b) = Inr c2" "tclInv sel (h @ [b]) c2"
      using fold [OF _ c1(2)] tcl_first_step(1) [OF _ e] by blast
    obtain c3 where c3: "foldR (tcl_relay2 F b) c2 (Relay2Txs b) = Inr c3" "tclInv sel (h @ [b]) c3"
      using fold [OF _ c2(2)] tcl_relay2_step [OF _ e] by blast
    obtain c4 where c4: "foldR (tcl_normal F b) c3 (InnerShardTxs b) = Inr c4" "tclInv sel (h @ [b]) c4"
      using fold [OF _ c3(2)] tcl_normal_step [OF _ e] by blast
    show ?thesis using that c1 c2 c3 c4 by (simp add: TCL_Relay_Update_def)
  qed
  show "\<exists>c'. TCL_Broker_Update F b c = Inr c' \<and> tclInv sel (h @ [b]) c'" if "sel = brokerSel" "BlockBodyLength b \<noteq> 0"
  proof -
    obtain c2 where c2: "foldR (tcl_normal F b) c1 (InnerShardTxs b) = Inr c2" "tclInv sel (h @ [b]) c2"
      using fold [OF _ c1(2)] tcl_normal_step [OF _ e] by blast
    obtain c3 where c3: "foldR (tcl_broker1 b) c2 (Broker1Txs b) = Inr c3" "tclInv sel (h @ [b]) c3"
      using fold [OF _ c2(2)] tcl_first_step(2) [OF _ e] by blast
    obtain c4 where c4: "foldR (tcl_broker2 F b) c3 (Broker2Txs b) = Inr c4" "tclInv sel (h @ [b]) c4"
      using fold [OF _ c3(2)] tcl_broker2_step [OF _ e] by blast
    show ?thesis using that c1 c2 c3 c4 by (simp add: TCL_Broker_Update_def)
  qed
qed

section \<open>The modules as one type\<close>

text \<open>The reports a module counts: those of non-empty blocks.\<close>

definition busy :: "BlockInfoMsg list \<Rightarrow> BlockInfoMsg list" where
  "busy h = filter (\<lambda>b. BlockBodyLength b \<noteq> 0) h"

definition modInv :: "BlockInfoMsg list \<Rightarrow> 'f measureMod \<Rightarrow> bool" where
  "modInv h mm = (case mm of
     M_TPS_Relay c \<Rightarrow> tpsInv relaySel h c | M_TPS_Broker c \<Rightarrow> tpsInv brokerSel h c
   | M_TCL_Relay c \<Rightarrow> tclInv relaySel h c | M_TCL_Broker c \<Rightarrow> tclInv brokerSel h c
   | M_CrossTxRate_Relay c \<Rightarrow> rateInv relaySel h c | M_CrossTxRate_Broker c \<Rightarrow> rateInv brokerSel h c
   | M_TxNumCount_Relay c \<Rightarrow> numInv relaySel h c | M_TxNumCount_Broker c \<Rightarrow> numInv brokerSel h c
   | M_TxDetail d \<Rightarrow> True)"

lemma busy_snoc [simp]: "busy (h @ [b]) = (if BlockBodyLength b = 0 then busy h else busy h @ [b])"
  by (simp add: busy_def)

lemma mapR_Inr [simp]: "mapR f (Inr x) = Inr (f x)"
  by (simp add: mapR_def)

lemma relayRows_ok: "numInv sel h c \<Longrightarrow> \<exists>rows. TxNumCount_Relay_rows c = Inr rows"
  by (auto simp: TxNumCount_Relay_rows_def numInv_def countsAre_def perEpoch_def nthR_def Let_def)

lemma num_relay_step:
  assumes I: "numInv relaySel h c" and e: "0 \<le> Epoch b" and b: "BlockBodyLength b \<noteq> 0"
  shows "\<exists>c' rows. TxNumCount_Relay_Update F b c = Inr (c', rows) \<and> numInv relaySel (h @ [b]) c'"
proof -
  obtain c' where c': "txNum_Update F relaySel (f_add F (f_ofInt F (innerNum b)) (half F (sel1 relaySel b + sel2 relaySel b))) b c = Inr c'"
    "numInv relaySel (h @ [b]) c'"
    using num_step [OF I e] by blast
  obtain rows where "TxNumCount_Relay_rows c' = Inr rows" using relayRows_ok [OF c'(2)] by blast
  moreover have "perEpoch (h @ [b]) (normalTxNum c')" using c'(2) by (simp add: numInv_def countsAre_def perEpoch_def)
  from nth_upd_ok(1) [OF this e] have "nthI (normalTxNum c') (Epoch b) = Inr (normalTxNum c' ! nat (Epoch b))" .
  ultimately show ?thesis using b c' by (simp add: TxNumCount_Relay_Update_def)
qed

text \<open>A report of a non-empty block, module by module.\<close>

lemma module_steps:
  assumes e: "0 \<le> Epoch b" and b: "BlockBodyLength b \<noteq> 0"
  shows "tpsInv relaySel h c1 \<Longrightarrow> \<exists>c'. avgTPS_Relay_Update F b c1 = Inr c' \<and> tpsInv relaySel (h @ [b]) c'"
    and "tpsInv brokerSel h c2 \<Longrightarrow> \<exists>c'. avgTPS_Broker_Update F b c2 = Inr c' \<and> tpsInv brokerSel (h @ [b]) c'"
    and "tclInv relaySel h c3 \<Longrightarrow> \<exists>c'. TCL_Relay_Update F b c3 = Inr c' \<and> tclInv relaySel (h @ [b]) c'"
    and "tclInv brokerSel h c4 \<Longrightarrow> \<exists>c'. TCL_Broker_Update F b c4 = Inr c' \<and> tclInv brokerSel (h @ [b]) c'"
    and "rateInv relaySel h c5 \<Longrightarrow> \<exists>c'. CrossTxRate_Relay_Update F b c5 = Inr c' \<and> rateInv relaySel (h @ [b]) c'"
    and "rateInv brokerSel h c6 \<Longrightarrow> \<exists>c'. CrossTxRate_Broker_Update F b c6 = Inr c' \<and> rateInv brokerSel (h @ [b]) c'"
    and "numInv relaySel h c7 \<Longrightarrow> \<exists>c' rows. TxNumCount_Relay_Update F b c7 = Inr (c', rows) \<and> numInv relaySel (h @ [b]) c'"
    and "numInv brokerSel h c8 \<Longrightarrow> \<exists>c'. TxNumCount_Broker_Update F b c8 = Inr c' \<and> numInv brokerSel (h @ [b]) c'"
  using b tps_step [OF _ e, of relaySel h c1 F] tps_step [OF _ e, of brokerSel h c2 F] tcl_step(1) [OF _ e refl b, of h c3 F]
    tcl_step(2) [OF _ e refl b, of h c4 F] rate_step [OF _ e, of relaySel h c5 F] rate_step [OF _ e, of brokerSel h c6 F]
    num_relay_step [OF _ e b, of h c7 F] num_step [OF _ e, of brokerSel h c8 F]
  by (simp_all add: avgTPS_Relay_Update_def avgTPS_Broker_Update_def CrossTxRate_Relay_Update_def CrossTxRate_Broker_Update_def
      TxNumCount_Broker_Update_def)

text \<open>An update never fails, keeps the invariant and the kind of the module.\<close>

lemma update_step:
  assumes I: "modInv (busy h) mm" and e: "0 \<le> Epoch b"
  shows "\<exists>mm' rows. UpdateMeasureRecord F b mm = Inr (mm', rows) \<and> modInv (busy (h @ [b])) mm' \<and>
     OutputMetricName mm' = OutputMetricName mm"
proof (cases "BlockBodyLength b = 0")
  case True
  with I show ?thesis
    by (cases mm) (simp_all add: UpdateMeasureRecord_def modInv_def OutputMetricName_def avgTPS_Relay_Update_def
        avgTPS_Broker_Update_def TCL_Relay_Update_def TCL_Broker_Update_def CrossTxRate_Relay_Update_def
        CrossTxRate_Broker_Update_def TxNumCount_Relay_Update_def TxNumCount_Broker_Update_def)
next
  case b: False
  show ?thesis
  proof (cases mm)
    case (M_TPS_Relay c)
    then obtain c' where "avgTPS_Relay_Update F b c = Inr c'" "tpsInv relaySel (busy h @ [b]) c'"
      using I module_steps(1) [OF e b, of "busy h" c F] by (auto simp: modInv_def)
    with M_TPS_Relay b show ?thesis by (simp add: UpdateMeasureRecord_def modInv_def OutputMetricName_def)
  next
    case (M_TPS_Broker c)
    then obtain c' where "avgTPS_Broker_Update F b c = Inr c'" "tpsInv brokerSel (busy h @ [b]) c'"
      using I module_steps(2) [OF e b, of "busy h" c F] by (auto simp: modInv_def)
    with M_TPS_Broker b show ?thesis by (simp add: UpdateMeasureRecord_def modInv_def OutputMetricName_def)
  next
    case (M_TCL_Relay c)
    then obtain c' where "TCL_Relay_Update F b c = Inr c'" "tclInv relaySel (busy h @ [b]) c'"
      using I module_steps(3) [OF e b, of "busy h" c F] by (auto simp: modInv_def)
    with M_TCL_Relay b show ?thesis by (simp add: UpdateMeasureRecord_def modInv_def OutputMetricName_def)
  next
    case (M_TCL_Broker c)
    then obtain c' where "TCL_Broker_Update F b c = Inr c'" "tclInv brokerSel (busy h @ [b]) c'"
      using I module_steps(4) [OF e b, of "busy h" c F] by (auto simp: modInv_def)
    with M_TCL_Broker b show ?thesis by (simp add: UpdateMeasureRecord_def modInv_def OutputMetricName_def)
  next
    case (M_CrossTxRate_Relay c)
    then obtain c' where "CrossTxRate_Relay_Update F b c = Inr c'" "rateInv relaySel (busy h @ [b]) c'"
      using I module_steps(5) [OF e b, of "busy h" c F] by (auto simp: modInv_def)
    with M_CrossTxRate_Relay b show ?thesis by (simp add: UpdateMeasureRecord_def modInv_def OutputMetricName_def)
  next
    case (M_CrossTxRate_Broker c)
    then obtain c' where "CrossTxRate_Broker_Update F b c = Inr c'" "rateInv brokerSel (busy h @ [b]) c'"
      using I module_steps(6) [OF e b, of "busy h" c F] by (auto simp: modInv_def)
    with M_CrossTxRate_Broker b show ?thesis by (simp add: UpdateMeasureRecord_def modInv_def OutputMetricName_def)
  next
    case (M_TxNumCount_Relay c)
    then obtain c' rows where "TxNumCount_Relay_Update F b c = Inr (c', rows)" "numInv relaySel (busy h @ [b]) c'"
      using I module_steps(7) [OF e b, of "busy h" c F] by (auto simp: modInv_def)
    with M_TxNumCount_Relay b show ?thesis by (simp add: UpdateMeasureRecord_def modInv_def OutputMetricName_def)
  next
    case (M_TxNumCount_Broker c)
    then obtain c' where "TxNumCount_Broker_Update F b c = Inr c'" "numInv brokerSel (busy h @ [b]) c'"
      using I module_steps(8) [OF e b, of "busy h" c F] by (auto simp: modInv_def)
    with M_TxNumCount_Broker b show ?thesis by (simp add: UpdateMeasureRecord_def modInv_def OutputMetricName_def)
  next
    case (M_TxDetail d)
    then show ?thesis by (simp add: UpdateMeasureRecord_def modInv_def OutputMetricName_def)
  qed
qed

lemma modInv_new: "newMeasureMod name = Some mm \<Longrightarrow> modInv [] mm"
  by (auto simp: newMeasureMod_def modInv_def tpsInv_def tclInv_def rateInv_def numInv_def countsAre_def perEpoch_def tally_def
      NewTestModule_avgTPS_def NewTestModule_TCL_def NewTestCrossTxRate_def NewTestTxNumCount_def split: if_splits)

end
