(* ===== verification/PbftCore.thy ===== *)
theory PbftCore
  imports PbftNode
begin

text \<open>
  The consensus protocol (messageHandle.go, view_change.go, the dispatch of pbft.go).

  A handler is a critical section of \<open>pbftLock\<close>, so it is one step. Each of the three
  stage handlers reads the view before it takes the lock (\<open>curView\<close>) and then waits on a
  condition variable until its stage is reached: the model returns \<open>None\<close> while it waits,
  and the step can be tried again in a later state. The result of a step is the new state
  and the messages sent, or a panic.
\<close>

type_synonym ('d, 's) step = "(('d, 's) pnode \<times> outs) res option"

definition mustWait :: "int \<Rightarrow> u64 \<Rightarrow> int \<Rightarrow> ('d, 's) pnode \<Rightarrow> bool" where
  "mustWait stage seq curView p \<longleftrightarrow> pbftStage p < stage \<and> seq \<ge> sequenceID p \<and> view p = curView"

definition outOfDate :: "u64 \<Rightarrow> int \<Rightarrow> ('d, 's) pnode \<Rightarrow> bool" where
  "outOfDate seq curView p \<longleftrightarrow> seq < sequenceID p \<or> view p \<noteq> curView"

text \<open>The threshold of both counting stages.\<close>

definition quorum :: "('d, 's) pnode \<Rightarrow> u64" where
  "quorum p = 2 * malicious_nums p + 1"

definition putRequest :: "bytes \<Rightarrow> Request \<Rightarrow> u64 \<Rightarrow> ('d, 's) pnode \<Rightarrow> ('d, 's) pnode" where
  "putRequest digest r seq p =
     p\<lparr>requestPool := (requestPool p)(digest \<mapsto> r), height2Digest := (height2Digest p)(seq \<mapsto> digest)\<rparr>"

definition prepareMsg :: "bytes \<Rightarrow> u64 \<Rightarrow> ('d, 's) pnode \<Rightarrow> wire" where
  "prepareMsg digest seq p = WPrepare \<lparr>p_Digest = digest, p_SeqID = seq, p_SenderNode = RunningNode p\<rparr>"

definition toAll :: "wire \<Rightarrow> ('d, 's) pnode \<Rightarrow> outs" where
  "toAll msg p = broadcastShard p msg @ [(IPaddr (RunningNode p), msg)]"

section \<open>The three stages\<close>

definition handlePrePrepare ::
  "('t, 'd, 's) env \<Rightarrow> ('d, 's) ihm \<Rightarrow> PrePrepare \<Rightarrow> int \<Rightarrow> ('d, 's) pnode \<Rightarrow> ('d, 's) step" where
  "handlePrePrepare E ihm ppmsg curView p =
     (if mustWait 1 (pp_SeqID ppmsg) curView p then None
      else if outOfDate (pp_SeqID ppmsg) curView p then Some (Inr (p, []))
      else
        let digest = reqDigest E (RequestMsg ppmsg) in
        if digest \<noteq> pp_Digest ppmsg then Some (Inr (p, []))
        else if sequenceID p < pp_SeqID ppmsg then
          Some (Inr (putRequest digest (RequestMsg ppmsg) (pp_SeqID ppmsg) p, []))
        else Some (bindR (HandleinPrePrepare ihm ppmsg p) (\<lambda>(flag, p).
               let p = putRequest digest (RequestMsg ppmsg) (pp_SeqID ppmsg) p in
               if flag then Inr (p\<lparr>pbftStage := pbftStage p + 1\<rparr>,
                                 toAll (prepareMsg (pp_Digest ppmsg) (pp_SeqID ppmsg) p) p)
               else Inr (p, []))))"

text \<open>\<open>ptr\<close> is the address of the sender node the message was decoded to.\<close>

definition handlePrepare ::
  "('d, 's) ihm \<Rightarrow> Prepare \<Rightarrow> nat \<Rightarrow> int \<Rightarrow> ('d, 's) pnode \<Rightarrow> ('d, 's) step" where
  "handlePrepare ihm pmsg ptr curView p =
     (if mustWait 2 (p_SeqID pmsg) curView p then None
      else if outOfDate (p_SeqID pmsg) curView p then Some (Inr (p, []))
      else if requestPool p (p_Digest pmsg) = None then Some (Inr (p, []))
      else if sequenceID p < p_SeqID pmsg then Some (Inr (p, []))
      else
        let p = snd (HandleinPrepare ihm pmsg p);
            p = set2DMap True (p_Digest pmsg) ptr p;
            cnt = card (cntPrepareConfirm p (p_Digest pmsg))
        in if word_of_nat cnt \<ge> quorum p \<and> p_Digest pmsg \<notin> isCommitBordcast p then
             let c = WCommit \<lparr>c_Digest = p_Digest pmsg, c_SeqID = p_SeqID pmsg, c_SenderNode = RunningNode p\<rparr>
             in Some (Inr (p\<lparr>isCommitBordcast := insert (p_Digest pmsg) (isCommitBordcast p),
                             pbftStage := pbftStage p + 1\<rparr>, toAll c p))
           else Some (Inr (p, [])))"

text \<open>The end of a round: back to stage 1, and a leader releases the sequence lock.\<close>

definition endRound :: "time \<Rightarrow> ('d, 's) pnode \<times> outs \<Rightarrow> (('d, 's) pnode \<times> outs) res" where
  "endRound now po =
     (let p = (fst po)\<lparr>pbftStage := 1, lastCommitTime := unixMilli now\<rparr> in
      if isLeader p then
        if sequenceLocked p then Inr (p\<lparr>sequenceLocked := False\<rparr>, snd po) else Inl UnlockOfUnlocked
      else Inr (p, snd po))"

text \<open>A node that has no request for a committed digest asks the leader for the missing ones.\<close>

definition askForOld :: "Commit \<Rightarrow> ('d, 's) pnode \<Rightarrow> ('d, 's) pnode \<times> outs" where
  "askForOld cmsg p =
     (let v = word_of_int (view p);
          sn = \<lparr>NodeID = v, ShardID = n_ShardID p, IPaddr = ipOf (ip_nodeTable p) (n_ShardID p) v\<rparr>;
          orequest = \<lparr>ro_SeqStartHeight = sequenceID p + 1, ro_SeqEndHeight = c_SeqID cmsg,
                      ServerNode = sn, ro_SenderNode = RunningNode p\<rparr>
      in (p\<lparr>isReply := insert (c_Digest cmsg) (isReply p), askForLocked := True\<rparr>,
          [(IPaddr sn, WRequestOld orequest)]))"

definition handleCommit ::
  "('d, 's) ihm \<Rightarrow> sched \<Rightarrow> Commit \<Rightarrow> nat \<Rightarrow> int \<Rightarrow> ('d, 's) pnode \<Rightarrow> ('d, 's) step" where
  "handleCommit ihm sch cmsg ptr curView p =
     (if mustWait 3 (c_SeqID cmsg) curView p then None
      else if outOfDate (c_SeqID cmsg) curView p then Some (Inr (p, []))
      else
        let p = set2DMap False (c_Digest cmsg) ptr p;
            cnt = card (cntCommitConfirm p (c_Digest cmsg))
        in if word_of_nat cnt \<ge> quorum p \<and> c_Digest cmsg \<notin> isReply p then
             if requestPool p (c_Digest cmsg) = None then
               if askForLocked p then None
               else Some (endRound (s_now sch) (askForOld cmsg p))
             else Some (bindR (HandleinCommit ihm sch cmsg p) (\<lambda>(p, os).
                    endRound (s_now sch)
                      (p\<lparr>isReply := insert (c_Digest cmsg) (isReply p), sequenceID := sequenceID p + 1\<rparr>, os)))
           else Some (Inr (p, [])))"

section \<open>Catching up\<close>

text \<open>The requests from \<open>height\<close> on, at most \<open>n\<close>, up to the first one missing.\<close>

fun collectOld :: "('d, 's) pnode \<Rightarrow> u64 \<Rightarrow> nat \<Rightarrow> Request list" where
  "collectOld p height 0 = []"
| "collectOld p height (Suc n) =
     (case height2Digest p height of
        None \<Rightarrow> []
      | Some d \<Rightarrow> (case requestPool p d of
          None \<Rightarrow> []
        | Some r \<Rightarrow> r # collectOld p (height + 1) n))"

definition heightCount :: "u64 \<Rightarrow> u64 \<Rightarrow> nat" where
  "heightCount a b = (if a \<le> b then unat (b - a) + 1 else 0)"

definition handleRequestOldSeq :: "('d, 's) ihm \<Rightarrow> RequestOldMessage \<Rightarrow> ('d, 's) pnode \<Rightarrow> ('d, 's) pnode \<times> outs" where
  "handleRequestOldSeq ihm rom p =
     (if \<not> isLeader p then (p, [])
      else
        let oldR = collectOld p (ro_SeqStartHeight rom) (heightCount (ro_SeqStartHeight rom) (ro_SeqEndHeight rom));
            p = snd (HandleReqestforOldSeq ihm rom p);
            sb = \<lparr>SeqStartHeight = ro_SeqStartHeight rom, SeqEndHeight = ro_SeqEndHeight rom,
                  OldRequest = oldR, so_SenderNode = RunningNode p\<rparr>
        in (p, [(IPaddr (ro_SenderNode rom), WSendOld sb)]))"

definition storeOld :: "('t, 'd, 's) env \<Rightarrow> u64 \<Rightarrow> ('d, 's) pnode \<Rightarrow> nat \<times> Request \<Rightarrow> ('d, 's) pnode" where
  "storeOld E beginSeq p ir =
     (let d = reqDigest E (snd ir);
          p = putRequest d (snd ir) (word_of_nat (fst ir) + beginSeq) p
      in p\<lparr>isReply := insert d (isReply p)\<rparr>)"

definition handleSendOldSeq ::
  "('t, 'd, 's) env \<Rightarrow> ('d, 's) ihm \<Rightarrow> SendOldMessage \<Rightarrow> ('d, 's) pnode \<Rightarrow> (('d, 's) pnode \<times> outs) res" where
  "handleSendOldSeq E ihm som p =
     bindR (HandleforSequentialRequest ihm som p) (\<lambda>p.
       let p = foldl (storeOld E (SeqStartHeight som)) p (enumerate 0 (OldRequest som));
           p = p\<lparr>sequenceID := SeqEndHeight som + 1\<rparr>
       in bindR (case height2Digest p (sequenceID p) of
                   None \<Rightarrow> Inr (p, [])
                 | Some rDigest \<Rightarrow> (case requestPool p rDigest of
                     None \<Rightarrow> Inr (p, [])
                   | Some r \<Rightarrow>
                       let ppmsg = \<lparr>RequestMsg = r, pp_Digest = reqDigest E r, pp_SeqID = sequenceID p\<rparr>
                       in bindR (HandleinPrePrepare ihm ppmsg p) (\<lambda>(flag, p).
                            if flag then Inr (p, broadcastShard p (prepareMsg (pp_Digest ppmsg) (pp_SeqID ppmsg) p))
                            else Inr (p, []))))
            (\<lambda>(p, os). if askForLocked p then Inr (p\<lparr>askForLocked := False\<rparr>, os) else Inl UnlockOfUnlocked))"

section \<open>View change\<close>

text \<open>The view is an \<open>int32\<close>.\<close>

definition nextView :: "('d, 's) pnode \<Rightarrow> int res" where
  "nextView p = goRem (toInt32 (view p + 1)) (sint (node_nums p))"

definition viewChangePropose :: "('d, 's) pnode \<Rightarrow> (('d, 's) pnode \<times> outs) res" where
  "viewChangePropose p =
     (let p = p\<lparr>pbftStage := 5\<rparr> in
      bindR (nextView p) (\<lambda>nv.
        Inr (p, toAll (WViewChange \<lparr>vc_CurView = view p, vc_NextView = nv, vc_SeqID = sequenceID p,
                                    vc_FromNode = n_NodeID p\<rparr>) p)))"

definition handleViewChangeMsg :: "ViewChangeMsg \<Rightarrow> ('d, 's) pnode \<Rightarrow> (('d, 's) pnode \<times> outs) res" where
  "handleViewChangeMsg vcmsg p =
     (let vcData = (vc_NextView vcmsg, vc_SeqID vcmsg);
          p = p\<lparr>viewChangeMap := (viewChangeMap p)(vcData := insert (vc_FromNode vcmsg) (viewChangeMap p vcData))\<rparr>
      in if int (card (viewChangeMap p vcData)) = 2 * sint (malicious_nums p) + 1 then
           bindR (nextView p) (\<lambda>nv.
             Inr (p, toAll (WNewView \<lparr>nv_CurView = view p, nv_NextView = nv, NewSeqID = sequenceID p,
                                      nv_FromNode = n_NodeID p\<rparr>) p))
         else Inr (p, []))"

definition handleNewViewMsg :: "time \<Rightarrow> NewViewMsg \<Rightarrow> ('d, 's) pnode \<Rightarrow> ('d, 's) pnode" where
  "handleNewViewMsg now nvmsg p =
     (let vcData = (nv_NextView nvmsg, NewSeqID nvmsg);
          p = p\<lparr>newViewMap := (newViewMap p)(vcData := insert (nv_FromNode nvmsg) (newViewMap p vcData))\<rparr>
      in if int (card (newViewMap p vcData)) = 2 * sint (malicious_nums p) + 1 then
           p\<lparr>view := toInt32 (fst vcData), sequenceID := NewSeqID nvmsg, pbftStage := 1, lastCommitTime := unixMilli now\<rparr>
         else p)"

section \<open>Proposing\<close>

text \<open>
  The round of a leader: check that it leads (phase 0), take the sequence lock and ask the
  module for a request (phase 1; \<open>None\<close> while the lock is held), resume the module if it had
  to wait (later phases), then put the request in the pool, broadcast it and enter stage 2.
  The view may change between the check and the lock.
\<close>

definition proposeFinish :: "('t, 'd, 's) env \<Rightarrow> Request \<Rightarrow> ('d, 's) pnode \<Rightarrow> ('d, 's) pnode \<times> outs" where
  "proposeFinish E r p =
     (let digest = reqDigest E r;
          p = putRequest digest r (sequenceID p) p;
          ppmsg = \<lparr>RequestMsg = r, pp_Digest = digest, pp_SeqID = sequenceID p\<rparr>
      in (p\<lparr>pbftStage := 2\<rparr>, toAll (WPrePrepare ppmsg) p))"

definition proposeRound ::
  "('t, 'd, 's) env \<Rightarrow> ('d, 's) ihm \<Rightarrow> sched \<Rightarrow> nat \<Rightarrow> ('d, 's) pnode \<Rightarrow>
   (nat option \<times> ('d, 's) pnode \<times> outs) res option" where
  "proposeRound E ihm sch phase p =
     (if phase = 0 then Some (Inr (if isLeader p then Some 1 else None, p, []))
      else if phase = 1 \<and> sequenceLocked p then None
      else
        let p = (if phase = 1 then p\<lparr>sequenceLocked := True\<rparr> else p) in
        Some (bindR (HandleinPropose ihm sch (phase - 1) p) (\<lambda>(r, p, os).
          case r of
            Waiting n \<Rightarrow> Inr (Some (n + 1), p, os)
          | Proposed req \<Rightarrow> let (p, os') = proposeFinish E req p in Inr (None, p, os @ os'))))"

text \<open>
  The monitor that runs once a second. It remembers the last stage and when it changed; a
  stage other than 1 kept for more than 30 seconds during a repartition is reset. The
  three clock readings are those of one turn of its loop.
\<close>

record monitor =
  lastStage :: int
  lastStageChangeTime :: int

definition monitorTick ::
  "int \<Rightarrow> int \<Rightarrow> int \<Rightarrow> int \<Rightarrow> bool \<Rightarrow> monitor \<Rightarrow> ('d, 's) pnode \<Rightarrow> (monitor \<times> ('d, 's) pnode \<times> outs) res" where
  "monitorTick timeout now now2 now3 isCLPA m p =
     (let currentStage = pbftStage p;
          m = (if currentStage \<noteq> lastStage m then \<lparr>lastStage = currentStage, lastStageChangeTime = now\<rparr> else m)
      in bindR
        (if isCLPA \<and> PartitionOn (cdm p) \<and> currentStage \<noteq> 1 \<and> now - lastStageChangeTime m > 30000 then
           let p = p\<lparr>pbftStage := 1\<rparr>;
               m = m\<lparr>lastStageChangeTime := now2\<rparr>
           in if now - lastStageChangeTime m > 30000 then
                let p = p\<lparr>pbftStage := 1\<rparr>; m = m\<lparr>lastStageChangeTime := now2\<rparr>
                in if isLeader p then
                     if sequenceLocked p then Inr (m, p\<lparr>sequenceLocked := False\<rparr>) else Inl UnlockOfUnlocked
                   else Inr (m, p)
              else Inr (m, p)
         else Inr (m, p))
        (\<lambda>(m, p).
          if now3 - lastCommitTime p > timeout then
            bindR (viewChangePropose (p\<lparr>lastCommitTime := now3\<rparr>)) (\<lambda>(p, os). Inr (m, p, os))
          else Inr (m, p, [])))"

end
