(* ===== verification/InsideModules.thy ===== *)
theory InsideModules
  imports PbftCore
begin

text \<open>
  The four modules that plug into the consensus (\<open>ExtraOpInConsensus\<close>): transaction relay
  (pbftInside_module.go), brokers (pbftInside_moduleBroker.go), relay with account transfer
  (pbftInside_moduleCLPA.go, accountTransfer_module.go) and brokers with account transfer
  (pbftInside_modCLPABroker.go, accountTransfermod_Broker.go).

  The section of a commit that holds the pool's mutex only reads the queue's length for the
  CSV line, which is the last message of the step.
\<close>

section \<open>Blocks\<close>

definition proposeBlock ::
  "('t, 'd, 's) env \<Rightarrow> params \<Rightarrow> sched \<Rightarrow> ('d, 's) pnode \<Rightarrow> (proposal \<times> ('d, 's) pnode \<times> outs) res" where
  "proposeBlock E cfg sch p =
     bindR (GenerateBlock E cfg (ucast (n_NodeID p)) (s_now sch) (CurChain p)) (\<lambda>(block, bc).
       Inr (Proposed \<lparr>reqType = BlockRequest, Content = encB E block, ReqTime = s_now sch\<rparr>,
            p\<lparr>CurChain := bc\<rparr>, []))"

definition checkBlock ::
  "('t, 'd, 's) env \<Rightarrow> PrePrepare \<Rightarrow> ('d, 's) pnode \<Rightarrow> (bool \<times> ('d, 's) pnode) res" where
  "checkBlock E ppmsg p =
     bindR (ofOption LogPanic (decB E (Content (RequestMsg ppmsg)))) (\<lambda>b.
       if IsValidBlock E b (CurChain p) \<noteq> None then Inr (False, p)
       else Inr (True, p\<lparr>requestPool := (requestPool p)(pp_Digest ppmsg \<mapsto> RequestMsg ppmsg)\<rparr>))"

definition addRequestBlock ::
  "('t, 'd, 's) env \<Rightarrow> params \<Rightarrow> Request \<Rightarrow> ('d, 's) pnode \<Rightarrow> (Block \<times> ('d, 's) pnode) res" where
  "addRequestBlock E cfg r p =
     bindR (ofOption LogPanic (decB E (Content r))) (\<lambda>b.
     bindR (AddBlock E cfg b (CurChain p)) (\<lambda>bc. Inr (b, p\<lparr>CurChain := bc\<rparr>)))"

section \<open>Committing with relay\<close>

text \<open>
  One transaction of a committed block: \<open>strict\<close> is the raw relay module, which panics on
  a transaction that does not belong to the shard; the account-transfer module lets it pass.
\<close>

type_synonym relayAcc = "Transaction list \<times> Transaction list \<times> Transaction list \<times> TxPool"

definition relayTx ::
  "bool \<Rightarrow> params \<Rightarrow> ('d, 's) pnode \<Rightarrow> relayAcc \<Rightarrow> Transaction \<Rightarrow> relayAcc res" where
  "relayTx strict cfg p acc tx =
     (case acc of (interShardTxs, relay1Txs, relay2Txs, pool) \<Rightarrow>
        bindR (Get_PartitionMap cfg (CurChain p) (Sender tx)) (\<lambda>ssid.
        bindR (Get_PartitionMap cfg (CurChain p) (Recipient tx)) (\<lambda>rsid.
          if strict \<and> \<not> Relayed tx \<and> ssid \<noteq> n_ShardID p then Inl LogPanic
          else if strict \<and> Relayed tx \<and> rsid \<noteq> n_ShardID p then Inl LogPanic
          else if rsid \<noteq> n_ShardID p then
            let tx = tx\<lparr>Relayed := True\<rparr> in
            bindR (AddRelayTx tx rsid pool) (\<lambda>pool.
              Inr (interShardTxs, relay1Txs @ [tx], relay2Txs, pool))
          else if Relayed tx then Inr (interShardTxs, relay1Txs, relay2Txs @ [tx], pool)
          else Inr (interShardTxs @ [tx], relay1Txs, relay2Txs, pool))))"

definition csvLine ::
  "Block \<Rightarrow> int \<Rightarrow> nat \<Rightarrow> Transaction list \<Rightarrow> Transaction list \<Rightarrow> time \<Rightarrow> time \<Rightarrow> wire" where
  "csvLine block epoch qlen txs1 txs2 ptime ctime =
     WCsvLine [uint (Number (Header block)), epoch, int qlen, int (length (Body block)),
               int (length txs1), int (length txs2), unixMilli ptime, unixMilli ctime,
               computeTCL (Body block) ctime, computeTCL txs1 ctime, computeTCL txs2 ctime]"

text \<open>What the leader does after appending the block: relay, then report to the supervisor.\<close>

definition relayReport ::
  "('t, 'd, 's) env \<Rightarrow> params \<Rightarrow> bool \<Rightarrow> int \<Rightarrow> sched \<Rightarrow> Request \<Rightarrow> Block \<Rightarrow> ('d, 's) pnode \<Rightarrow>
   (('d, 's) pnode \<times> outs) res" where
  "relayReport E cfg strict epoch sch r block p =
     (let p = onPool (\<lambda>pool. pool\<lparr>RelayPool := Some Map.empty\<rparr>) p in
      bindR (foldR (relayTx strict cfg p) ([], [], [], Txpool (CurChain p)) (Body block))
        (\<lambda>(interShardTxs, relay1Txs, relay2Txs, pool).
      let p = onPool (\<lambda>_. pool) p in
      bindR (if RelayWithMerkleProof cfg = 1 then RelayWithProofSend E cfg block p else RelayMsgSend cfg p)
        (\<lambda>(p, os).
      let bim = \<lparr>BlockBodyLength = length (Body block), InnerShardTxs = interShardTxs, Epoch = epoch,
                 ProposeTime = ReqTime r, CommitTime = s_now sch, SenderShardID = n_ShardID p,
                 Relay1Txs = relay1Txs, Relay2Txs = relay2Txs, Broker1Txs = [], Broker2Txs = []\<rparr>
      in Inr (p, os @ [(ipOf (ip_nodeTable p) SupervisorShard 0, WBlockInfo bim),
                       ('''', csvLine block epoch (length (TxQueue (Txpool (CurChain p)))) relay1Txs relay2Txs
                          (ReqTime r) (s_now sch))]))))"

definition relayCommit ::
  "('t, 'd, 's) env \<Rightarrow> params \<Rightarrow> bool \<Rightarrow> int \<Rightarrow> sched \<Rightarrow> Request \<Rightarrow> ('d, 's) pnode \<Rightarrow> (('d, 's) pnode \<times> outs) res" where
  "relayCommit E cfg strict epoch sch r p =
     bindR (addRequestBlock E cfg r p) (\<lambda>(block, p).
       if isLeader p then relayReport E cfg strict epoch sch r block p else Inr (p, []))"

section \<open>Committing with brokers\<close>

definition brokerClass :: "bool \<Rightarrow> Transaction \<Rightarrow> bool \<times> bool" where
  "brokerClass raw tx =
     (if raw then (RawTxHash tx \<noteq> None \<and> Sender tx = OriginalSender tx,
                   RawTxHash tx \<noteq> None \<and> Recipient tx = FinalRecipient tx)
      else (Sender tx = OriginalSender tx, Recipient tx = FinalRecipient tx))"

text \<open>The checks of the account-transfer variant; the raw module makes none.\<close>

definition brokerChecks :: "params \<Rightarrow> ('d, 's) pnode \<Rightarrow> Transaction \<Rightarrow> unit res" where
  "brokerChecks cfg p tx =
     bindR (Get_PartitionMap cfg (CurChain p) (Sender tx)) (\<lambda>ssid.
     bindR (Get_PartitionMap cfg (CurChain p) (Recipient tx)) (\<lambda>rsid.
       let (isBroker1Tx, isBroker2Tx) = brokerClass False tx;
           senderIsInshard = (ssid = n_ShardID p);
           recipientIsInshard = (rsid = n_ShardID p)
       in if isBroker1Tx \<and> \<not> senderIsInshard then Inl LogPanic
          else if isBroker2Tx \<and> \<not> recipientIsInshard then Inl LogPanic
          else if RawTxHash tx = None then
            if HasBroker tx then
              if SenderIsBroker tx \<and> \<not> recipientIsInshard then Inl LogPanic
              else if \<not> SenderIsBroker tx \<and> \<not> senderIsInshard then Inl LogPanic
              else Inr ()
            else if \<not> senderIsInshard \<or> \<not> recipientIsInshard then Inl LogPanic
            else Inr ()
          else Inr ()))"

definition brokerTx ::
  "bool \<Rightarrow> params \<Rightarrow> ('d, 's) pnode \<Rightarrow> Transaction list \<times> Transaction list \<times> Transaction list \<Rightarrow>
   Transaction \<Rightarrow> (Transaction list \<times> Transaction list \<times> Transaction list) res" where
  "brokerTx raw cfg p acc tx =
     (case acc of (innerShardTxs, broker1Txs, broker2Txs) \<Rightarrow>
        bindR (if raw then Inr () else brokerChecks cfg p tx) (\<lambda>_.
          let (isBroker1Tx, isBroker2Tx) = brokerClass raw tx in
          if isBroker2Tx then Inr (innerShardTxs, broker1Txs, broker2Txs @ [tx])
          else if isBroker1Tx then Inr (innerShardTxs, broker1Txs @ [tx], broker2Txs)
          else Inr (innerShardTxs @ [tx], broker1Txs, broker2Txs)))"

definition seqInfoOuts :: "('d, 's) pnode \<Rightarrow> outs" where
  "seqInfoOuts p = map (\<lambda>sid. (ipOf (ip_nodeTable p) sid 0,
     WSeqIDinfo \<lparr>si_SenderShardID = n_ShardID p, si_SenderSeq = sequenceID p\<rparr>)) (otherShards p)"

definition brokerCommit ::
  "('t, 'd, 's) env \<Rightarrow> params \<Rightarrow> bool \<Rightarrow> int \<Rightarrow> sched \<Rightarrow> Request \<Rightarrow> ('d, 's) pnode \<Rightarrow> (('d, 's) pnode \<times> outs) res" where
  "brokerCommit E cfg raw epoch sch r p =
     bindR (addRequestBlock E cfg r p) (\<lambda>(block, p).
       if isLeader p then
         bindR (foldR (brokerTx raw cfg p) ([], [], []) (Body block)) (\<lambda>(innerShardTxs, broker1Txs, broker2Txs).
           let bim = \<lparr>BlockBodyLength = length (Body block), InnerShardTxs = innerShardTxs, Epoch = epoch,
                      ProposeTime = ReqTime r, CommitTime = s_now sch, SenderShardID = n_ShardID p,
                      Relay1Txs = [], Relay2Txs = [], Broker1Txs = broker1Txs, Broker2Txs = broker2Txs\<rparr>
           in Inr (p, seqInfoOuts p @
                [(ipOf (ip_nodeTable p) SupervisorShard 0, WBlockInfo bim),
                 ('''', csvLine block epoch (length (TxQueue (Txpool (CurChain p)))) broker1Txs broker2Txs
                    (ReqTime r) (s_now sch))]))
       else Inr (p, []))"

section \<open>Account transfer\<close>

definition onCdm :: "(CLPAData \<Rightarrow> CLPAData) \<Rightarrow> ('d, 's) pnode \<Rightarrow> ('d, 's) pnode" where
  "onCdm f p = p\<lparr>cdm := f (cdm p)\<rparr>"

definition pmGet :: "partitionMap \<Rightarrow> address \<Rightarrow> u64" where
  "pmGet m a = getOr 0 (map_of m a)"

definition accountTransfer_do ::
  "('t, 'd, 's) env \<Rightarrow> params \<Rightarrow> AccountTransferMsg \<Rightarrow> ('d, 's) pnode \<Rightarrow> ('d, 's) pnode res" where
  "accountTransfer_do E cfg atm p =
     (let bc = foldl (\<lambda>bc kv. Update_PartitionMap (fst kv) (snd kv) bc) (CurChain p) (atm_ModifiedMap atm) in
      bindR (AddAccounts E cfg (atm_Addrs atm) (atm_AccountState atm) (word_of_int (view p)) bc) (\<lambda>bc.
        Inr (onCdm (\<lambda>c. c\<lparr>ModifiedMap := (if word_of_nat (length (ModifiedMap c)) \<noteq> ATid atm
                                           then ModifiedMap c @ [atm_ModifiedMap atm] else ModifiedMap c),
                          AccountTransferRound := ATid atm, AccountStateTx := Map.empty,
                          ReceivedNewAccountState := Map.empty, ReceivedNewTx := [],
                          PartitionOn := False, CollectOver := False, PartitionReady := {}\<rparr>)
               (p\<lparr>CurChain := bc\<rparr>))))"

definition decodeTransfer ::
  "('t, 'd, 's) env \<Rightarrow> params \<Rightarrow> Request \<Rightarrow> ('d, 's) pnode \<Rightarrow> ('d, 's) pnode res" where
  "decodeTransfer E cfg r p =
     bindR (ofOption LogPanic (decATM E (Content r))) (\<lambda>atm. accountTransfer_do E cfg atm p)"

text \<open>\<open>SendPartitionReady\<close> of the relay module goes to the node's own shard.\<close>

definition partitionReadyMsg :: "('d, 's) pnode \<Rightarrow> wire" where
  "partitionReadyMsg p = WPartitionReady \<lparr>FromShard = n_ShardID p, NowSeqID = sequenceID p\<rparr>"

definition SendPartitionReady :: "('d, 's) pnode \<Rightarrow> outs" where
  "SendPartitionReady p = broadcastShard p (partitionReadyMsg p)"

definition GetPartitionReady :: "('d, 's) pnode \<Rightarrow> bool" where
  "GetPartitionReady p \<longleftrightarrow>
     int (card (PartitionReady (cdm p))) \<ge> sint (ShardNums (ChainCfg (CurChain p))) - 1"

definition sendPartitionReady :: "('d, 's) pnode \<Rightarrow> ('d, 's) pnode \<times> outs" where
  "sendPartitionReady p =
     (let p = onCdm (\<lambda>c. c\<lparr>PartitionReady := insert (n_ShardID p) (PartitionReady c)\<rparr>) p
      in (p, map (\<lambda>sid. (ipOf (ip_nodeTable p) sid 0, partitionReadyMsg p)) (otherShards p)))"

definition getPartitionReady :: "sched \<Rightarrow> ('d, 's) pnode \<Rightarrow> bool" where
  "getPartitionReady sch p \<longleftrightarrow>
     int (card (PartitionReady (cdm p))) = sint (ShardNums (ChainCfg (CurChain p))) \<and>
     list_all (\<lambda>sid. \<exists>rval. ReadySeq (cdm p) sid = Some rval \<and> Some (rval - 1) = seqIDMap p sid)
       (s_ordS sch (dom (seqIDMap p)))"

definition getCollectOver :: "('d, 's) pnode \<Rightarrow> bool" where
  "getCollectOver p = CollectOver (cdm p)"

text \<open>The accounts of the last map that leave this shard, in the map's order.\<close>

definition accountsToFetch :: "params \<Rightarrow> partitionMap \<Rightarrow> ('d, 's) pnode \<Rightarrow> address list res" where
  "accountsToFetch cfg m p =
     foldR (\<lambda>acc kv.
       if snd kv \<noteq> n_ShardID p then
         bindR (Get_PartitionMap cfg (CurChain p) (fst kv)) (\<lambda>sid.
           if sid = n_ShardID p then Inr (acc @ [fst kv]) else Inr acc)
       else Inr acc) [] m"

text \<open>The pass over the queue for one destination, compacting the queue in place.\<close>

definition leavesRelay :: "address set \<Rightarrow> Transaction \<Rightarrow> bool" where
  "leavesRelay addrSet ptx \<longleftrightarrow>
     (Sender ptx \<in> addrSet \<and> \<not> Relayed ptx) \<or> (Recipient ptx \<in> addrSet \<and> Relayed ptx)"

fun queuePass :: "(Transaction \<Rightarrow> bool) \<Rightarrow> Transaction list \<Rightarrow> Transaction list \<times> Transaction list \<Rightarrow>
    Transaction list \<times> Transaction list" where
  "queuePass sends [] acc = acc"
| "queuePass sends (ptx # txs) (txSend, kept) =
     (if sends ptx then queuePass sends txs (txSend @ [ptx], kept)
      else queuePass sends txs (txSend, kept @ [ptx]))"

text \<open>The addresses and states for one destination.\<close>

definition forShard :: "partitionMap \<Rightarrow> (address \<times> AccountState) list \<Rightarrow> u64 \<Rightarrow> (address \<times> AccountState) list" where
  "forShard m fetched i = filter (\<lambda>x. pmGet m (fst x) = i) fetched"

definition sendOne ::
  "partitionMap \<Rightarrow> (address \<times> AccountState) list \<Rightarrow> ('d, 's) pnode \<times> outs \<Rightarrow> u64 \<Rightarrow> ('d, 's) pnode \<times> outs" where
  "sendOne m fetched po i =
     (let p = fst po;
          sel = forShard m fetched i;
          (txSend, kept) = queuePass (leavesRelay (set (map fst sel))) (TxQueue (Txpool (CurChain p))) ([], []);
          ast = \<lparr>ast_Addrs = map fst sel, ast_AccountState = map snd sel, ast_Txs = txSend,
                 ast_FromShard = n_ShardID p\<rparr>
      in (onPool (\<lambda>q. q\<lparr>TxQueue := kept\<rparr>) p,
          snd po @ [(ipOf (ip_nodeTable p) i 0, WAccountStateAndTx ast)]))"

definition sendAccounts_and_Txs ::
  "('t, 'd, 's) env \<Rightarrow> params \<Rightarrow> ('d, 's) pnode \<Rightarrow> (('d, 's) pnode \<times> outs) res" where
  "sendAccounts_and_Txs E cfg p =
     bindR (nthI (ModifiedMap (cdm p)) (int (length (ModifiedMap (cdm p))) - 1)) (\<lambda>m.
     bindR (accountsToFetch cfg m p) (\<lambda>accountToFetch.
     bindR (FetchAccounts E (CurChain p) accountToFetch) (\<lambda>asFetched.
       Inr (foldl (sendOne m (zip accountToFetch asFetched)) (p, []) (otherShards p)))))"

text \<open>
  The broker variant: an inner-shard transaction of a leaving account goes back to the
  supervisor as a cross-shard one; broker transactions follow their non-broker end.
  The three lists are those sent, those returned, those kept.
\<close>

fun brokerPass :: "address set \<Rightarrow> Transaction list \<Rightarrow> Transaction list \<times> Transaction list \<times> Transaction list \<Rightarrow>
    Transaction list \<times> Transaction list \<times> Transaction list" where
  "brokerPass addrSet [] acc = acc"
| "brokerPass addrSet (ptx # txs) (txSend, txsBeCross, kept) =
     (let ok1 = (Sender ptx \<in> addrSet); ok2 = (Recipient ptx \<in> addrSet) in
      if RawTxHash ptx = None then
        if HasBroker ptx then
          if (if SenderIsBroker ptx then ok2 else ok1)
          then brokerPass addrSet txs (txSend @ [ptx], txsBeCross, kept)
          else brokerPass addrSet txs (txSend, txsBeCross, kept @ [ptx])
        else if ok1 \<or> ok2 then brokerPass addrSet txs (txSend, txsBeCross @ [ptx], kept)
        else brokerPass addrSet txs (txSend, txsBeCross, kept @ [ptx])
      else if FinalRecipient ptx = Recipient ptx then
        if ok2 then brokerPass addrSet txs (txSend @ [ptx], txsBeCross, kept)
        else brokerPass addrSet txs (txSend, txsBeCross, kept @ [ptx])
      else if OriginalSender ptx = Sender ptx then
        if ok1 then brokerPass addrSet txs (txSend @ [ptx], txsBeCross, kept)
        else brokerPass addrSet txs (txSend, txsBeCross, kept @ [ptx])
      else brokerPass addrSet txs (txSend, txsBeCross, kept @ [ptx]))"

definition sendOneBroker ::
  "partitionMap \<Rightarrow> (address \<times> AccountState) list \<Rightarrow> (('d, 's) pnode \<times> outs) \<times> Transaction list \<Rightarrow> u64 \<Rightarrow>
   (('d, 's) pnode \<times> outs) \<times> Transaction list" where
  "sendOneBroker m fetched st i =
     (let p = fst (fst st);
          sel = forShard m fetched i;
          (txSend, txsBeCross, kept) =
            brokerPass (set (map fst sel)) (TxQueue (Txpool (CurChain p))) ([], snd st, []);
          ast = \<lparr>ast_Addrs = map fst sel, ast_AccountState = map snd sel, ast_Txs = txSend,
                 ast_FromShard = n_ShardID p\<rparr>
      in ((onPool (\<lambda>q. q\<lparr>TxQueue := kept\<rparr>) p,
           snd (fst st) @ [(ipOf (ip_nodeTable p) i 0, WAccountTransferBroker ast)]), txsBeCross))"

definition sendAccounts_and_Txs_broker ::
  "('t, 'd, 's) env \<Rightarrow> params \<Rightarrow> ('d, 's) pnode \<Rightarrow> (('d, 's) pnode \<times> outs) res" where
  "sendAccounts_and_Txs_broker E cfg p =
     bindR (nthI (ModifiedMap (cdm p)) (int (length (ModifiedMap (cdm p))) - 1)) (\<lambda>m.
     bindR (accountsToFetch cfg m p) (\<lambda>accountToFetch.
     bindR (FetchAccounts E (CurChain p) accountToFetch) (\<lambda>asFetched.
       let ((p, os), txsBeCross) =
             foldl (sendOneBroker m (zip accountToFetch asFetched)) ((p, []), []) (otherShards p)
       in Inr (p, os @ [(ipOf (ip_nodeTable p) SupervisorShard 0, WInner2Cross txsBeCross)]))))"

section \<open>Proposing a repartition\<close>

text \<open>Merging what the other shards have sent into the received accounts and transactions.\<close>

definition mergeReceived :: "sched \<Rightarrow> CLPAData \<Rightarrow> CLPAData res" where
  "mergeReceived sch c =
     foldR (\<lambda>c sid.
       case AccountStateTx c sid of
         None \<Rightarrow> Inr c
       | Some at \<Rightarrow>
           bindR (foldR (\<lambda>m ia. bindR (nthR (ast_AccountState at) (fst ia)) (\<lambda>a. Inr (m(snd ia \<mapsto> a))))
                    (ReceivedNewAccountState c) (enumerate 0 (ast_Addrs at))) (\<lambda>m.
             Inr (c\<lparr>ReceivedNewAccountState := m, ReceivedNewTx := ReceivedNewTx c @ ast_Txs at\<rparr>)))
       c (s_ordS sch (dom (AccountStateTx c)))"

text \<open>The transfer message built from the received accounts.\<close>

definition transferRequest ::
  "('t, 'd, 's) env \<Rightarrow> sched \<Rightarrow> ('d, 's) pnode \<Rightarrow> (proposal \<times> ('d, 's) pnode \<times> outs) res" where
  "transferRequest E sch p =
     (let c = cdm p; addrs = s_ordA sch (dom (ReceivedNewAccountState c)) in
      bindR (nthR (ModifiedMap c) (unat (AccountTransferRound c))) (\<lambda>m.
        let atm = \<lparr>atm_ModifiedMap = m, atm_Addrs = addrs,
                   atm_AccountState = List.map_filter (ReceivedNewAccountState c) addrs,
                   ATid = word_of_nat (length (ModifiedMap c))\<rparr>
        in Inr (Proposed \<lparr>reqType = PartitionReq, Content = encATM E atm, ReqTime = s_now sch\<rparr>, p, [])))"

text \<open>The relay variant drops the transactions whose account did not move here.\<close>

definition belongsHere :: "partitionMap \<Rightarrow> u64 \<Rightarrow> Transaction \<Rightarrow> bool" where
  "belongsHere m sid tx \<longleftrightarrow>
     \<not> (\<not> Relayed tx \<and> pmGet m (Sender tx) \<noteq> sid) \<and> \<not> (Relayed tx \<and> pmGet m (Recipient tx) \<noteq> sid)"

definition proposePartition ::
  "('t, 'd, 's) env \<Rightarrow> sched \<Rightarrow> ('d, 's) pnode \<Rightarrow> (proposal \<times> ('d, 's) pnode \<times> outs) res" where
  "proposePartition E sch p =
     bindR (mergeReceived sch (cdm p)) (\<lambda>c.
     bindR (if ReceivedNewTx c = [] then Inr []
            else bindR (nthR (ModifiedMap c) (unat (AccountTransferRound c))) (\<lambda>m.
                   Inr (filter (belongsHere m (n_ShardID p)) (ReceivedNewTx c)))) (\<lambda>validTxs.
       let c = c\<lparr>ReceivedNewTx := validTxs\<rparr>;
           p = onPool (AddTxs2Pool (s_clk sch) validTxs) (p\<lparr>cdm := c\<rparr>)
       in transferRequest E sch p))"

definition proposePartition_broker ::
  "('t, 'd, 's) env \<Rightarrow> sched \<Rightarrow> ('d, 's) pnode \<Rightarrow> (proposal \<times> ('d, 's) pnode \<times> outs) res" where
  "proposePartition_broker E sch p =
     bindR (mergeReceived sch (cdm p)) (\<lambda>c.
       let p = onPool (AddTxs2Pool (s_clk sch) (ReceivedNewTx c)) (p\<lparr>cdm := c\<rparr>)
       in transferRequest E sch p)"

definition proposeCLPA ::
  "('t, 'd, 's) env \<Rightarrow> params \<Rightarrow> sched \<Rightarrow> ('d, 's) pnode \<Rightarrow> (proposal \<times> ('d, 's) pnode \<times> outs) res" where
  "proposeCLPA E cfg sch p =
     (if PartitionOn (cdm p) then
        bindR (sendAccounts_and_Txs E cfg p) (\<lambda>(p, os).
        bindR (proposePartition E sch p) (\<lambda>(r, p, os'). Inr (r, p, os @ os')))
      else proposeBlock E cfg sch p)"

text \<open>The broker variant waits for the other shards before each of its two last phases.\<close>

definition proposeCLPABroker ::
  "('t, 'd, 's) env \<Rightarrow> params \<Rightarrow> sched \<Rightarrow> nat \<Rightarrow> ('d, 's) pnode \<Rightarrow> (proposal \<times> ('d, 's) pnode \<times> outs) res" where
  "proposeCLPABroker E cfg sch phase p =
     (if phase = 0 then
        if PartitionOn (cdm p) then let (p, os) = sendPartitionReady p in Inr (Waiting 1, p, os)
        else proposeBlock E cfg sch p
      else if phase = 1 then
        if getPartitionReady sch p then
          bindR (sendAccounts_and_Txs_broker E cfg p) (\<lambda>(p, os). Inr (Waiting 2, p, os))
        else Inr (Waiting 1, p, [])
      else if getCollectOver p then proposePartition_broker E sch p
      else Inr (Waiting 2, p, []))"

section \<open>Sequential requests\<close>

text \<open>
  The loop over the heights of a reply: the index is the distance from the first height,
  and a last height of \<open>2\<^sup>64 - 1\<close> would run past the slice.
\<close>

definition replayAll ::
  "(Request \<Rightarrow> ('d, 's) pnode \<Rightarrow> ('d, 's) pnode res) \<Rightarrow> SendOldMessage \<Rightarrow> ('d, 's) pnode \<Rightarrow> ('d, 's) pnode res" where
  "replayAll replay som p =
     bindR (foldR (\<lambda>p i. bindR (nthR (OldRequest som) i) (\<lambda>r. replay r p)) p
              [0..<heightCount (SeqStartHeight som) (SeqEndHeight som)]) (\<lambda>p.
       if SeqStartHeight som \<le> SeqEndHeight som \<and> SeqEndHeight som = - 1 then Inl IndexRange
       else Inr (p\<lparr>sequenceID := SeqEndHeight som + 1\<rparr>))"

definition enoughRequests :: "SendOldMessage \<Rightarrow> bool" where
  "enoughRequests som \<longleftrightarrow> sint (SeqEndHeight som - SeqStartHeight som + 1) = int (length (OldRequest som))"

text \<open>The raw broker module subtracts the other way round.\<close>

definition enoughRequests_broker :: "SendOldMessage \<Rightarrow> bool" where
  "enoughRequests_broker som \<longleftrightarrow> sint (SeqStartHeight som - SeqEndHeight som) = int (length (OldRequest som))"

definition replayBlock :: "('t, 'd, 's) env \<Rightarrow> params \<Rightarrow> Request \<Rightarrow> ('d, 's) pnode \<Rightarrow> ('d, 's) pnode res" where
  "replayBlock E cfg r p =
     (if reqType r = BlockRequest then bindR (addRequestBlock E cfg r p) (\<lambda>(b, p). Inr p) else Inr p)"

definition replayAny :: "('t, 'd, 's) env \<Rightarrow> params \<Rightarrow> Request \<Rightarrow> ('d, 's) pnode \<Rightarrow> ('d, 's) pnode res" where
  "replayAny E cfg r p =
     (if reqType r = BlockRequest then bindR (addRequestBlock E cfg r p) (\<lambda>(b, p). Inr p)
      else decodeTransfer E cfg r p)"

section \<open>The modules\<close>

definition onRequest ::
  "(Request \<Rightarrow> ('d, 's) pnode \<Rightarrow> (('d, 's) pnode \<times> outs) res) \<Rightarrow> Commit \<Rightarrow> ('d, 's) pnode \<Rightarrow>
   (('d, 's) pnode \<times> outs) res" where
  "onRequest f cmsg p = bindR (ofOption NilDeref (requestPool p (c_Digest cmsg))) (\<lambda>r. f r p)"

definition relayMod :: "('t, 'd, 's) env \<Rightarrow> params \<Rightarrow> ('d, 's) ihm" where
  "relayMod E cfg = \<lparr>HandleinPropose = (\<lambda>sch phase p. proposeBlock E cfg sch p),
     HandleinPrePrepare = checkBlock E, HandleinPrepare = (\<lambda>m p. (True, p)),
     HandleinCommit = (\<lambda>sch. onRequest (relayCommit E cfg True 0 sch)),
     HandleReqestforOldSeq = (\<lambda>m p. (True, p)),
     HandleforSequentialRequest = (\<lambda>som p. if enoughRequests som then replayAll (replayBlock E cfg) som p else Inr p)\<rparr>"

definition brokerMod :: "('t, 'd, 's) env \<Rightarrow> params \<Rightarrow> ('d, 's) ihm" where
  "brokerMod E cfg = \<lparr>HandleinPropose = (\<lambda>sch phase p. proposeBlock E cfg sch p),
     HandleinPrePrepare = checkBlock E, HandleinPrepare = (\<lambda>m p. (True, p)),
     HandleinCommit = (\<lambda>sch. onRequest (brokerCommit E cfg True 0 sch)),
     HandleReqestforOldSeq = (\<lambda>m p. (True, p)),
     HandleforSequentialRequest =
       (\<lambda>som p. if enoughRequests_broker som then replayAll (replayBlock E cfg) som p else Inr p)\<rparr>"

definition checkCLPA ::
  "('t, 'd, 's) env \<Rightarrow> PrePrepare \<Rightarrow> ('d, 's) pnode \<Rightarrow> (bool \<times> ('d, 's) pnode) res" where
  "checkCLPA E ppmsg p =
     (if reqType (RequestMsg ppmsg) = PartitionReq then
        if \<not> PartitionOn (cdm p) then Inr (False, p)
        else Inr (True, p\<lparr>requestPool := (requestPool p)(pp_Digest ppmsg \<mapsto> RequestMsg ppmsg)\<rparr>)
      else checkBlock E ppmsg p)"

definition clpaMod :: "('t, 'd, 's) env \<Rightarrow> params \<Rightarrow> ('d, 's) ihm" where
  "clpaMod E cfg = \<lparr>HandleinPropose = (\<lambda>sch phase p. proposeCLPA E cfg sch p),
     HandleinPrePrepare = checkCLPA E, HandleinPrepare = (\<lambda>m p. (False, p)),
     HandleinCommit = (\<lambda>sch. onRequest (\<lambda>r p.
       if reqType r = PartitionReq then bindR (decodeTransfer E cfg r p) (\<lambda>p. Inr (p, []))
       else relayCommit E cfg False (sint (AccountTransferRound (cdm p))) sch r p)),
     HandleReqestforOldSeq = (\<lambda>m p. (True, p)),
     HandleforSequentialRequest = (\<lambda>som p. if enoughRequests som then replayAll (replayAny E cfg) som p else Inr p)\<rparr>"

definition checkCLPABroker ::
  "('t, 'd, 's) env \<Rightarrow> PrePrepare \<Rightarrow> ('d, 's) pnode \<Rightarrow> (bool \<times> ('d, 's) pnode) res" where
  "checkCLPABroker E ppmsg p =
     (if reqType (RequestMsg ppmsg) = PartitionReq then
        Inr (True, p\<lparr>requestPool := (requestPool p)(pp_Digest ppmsg \<mapsto> RequestMsg ppmsg)\<rparr>)
      else checkBlock E ppmsg p)"

definition clpaBrokerMod :: "('t, 'd, 's) env \<Rightarrow> params \<Rightarrow> ('d, 's) ihm" where
  "clpaBrokerMod E cfg = \<lparr>HandleinPropose = proposeCLPABroker E cfg,
     HandleinPrePrepare = checkCLPABroker E, HandleinPrepare = (\<lambda>m p. (True, p)),
     HandleinCommit = (\<lambda>sch. onRequest (\<lambda>r p.
       if reqType r = PartitionReq then bindR (decodeTransfer E cfg r p) (\<lambda>p. Inr (p, []))
       else brokerCommit E cfg False (sint (AccountTransferRound (cdm p))) sch r p)),
     HandleReqestforOldSeq = (\<lambda>m p. (True, p)),
     HandleforSequentialRequest = (\<lambda>som p. if enoughRequests som then replayAll (replayAny E cfg) som p else Inr p)\<rparr>"

definition moduleOf :: "moduleKind \<Rightarrow> ('t, 'd, 's) env \<Rightarrow> params \<Rightarrow> ('d, 's) ihm" where
  "moduleOf k E cfg = (case k of
     KRelay \<Rightarrow> relayMod E cfg | KBroker \<Rightarrow> brokerMod E cfg
   | KCLPA \<Rightarrow> clpaMod E cfg | KCLPABroker \<Rightarrow> clpaBrokerMod E cfg)"

end
