(* ===== verification/OutsideModules.thy ===== *)
theory OutsideModules
  imports InsideModules
begin

text \<open>
  The messages that do not belong to the consensus (the \<open>pbftOutside\<close> modules), the
  dispatch of a received message (pbft.go) and the node as a transition system.

  \<^item> Each handler of an outside message is one step: the pool, the sequence map and the
    account-transfer data it touches have a mutex each, and no handler reads what another
    one writes between its own critical sections.
  \<^item> \<open>handleMessage\<close> runs the stage handlers and the outside handlers in goroutines of
    their own; it returns the goroutine it starts as a \<open>task\<close>.
\<close>

section \<open>Handlers\<close>

definition noteSeq :: "u64 \<Rightarrow> u64 \<Rightarrow> ('d, 's) pnode \<Rightarrow> ('d, 's) pnode" where
  "noteSeq sid seq p = p\<lparr>seqIDMap := (seqIDMap p)(sid \<mapsto> seq)\<rparr>"

definition handleRelay :: "(nat \<Rightarrow> time) \<Rightarrow> Relay \<Rightarrow> ('d, 's) pnode \<Rightarrow> ('d, 's) pnode" where
  "handleRelay clk relay p =
     noteSeq (r_SenderShardID relay) (r_SenderSeq relay) (onPool (AddTxs2Pool clk (r_Txs relay)) p)"

text \<open>The proof of the transaction at index \<open>i\<close> is read at index \<open>i\<close>, unchecked.\<close>

fun verifyAll :: "('t, 'd, 's) env \<Rightarrow> TxProofResult list \<Rightarrow> nat \<Rightarrow> Transaction list \<Rightarrow> bool res" where
  "verifyAll E proofs i [] = Inr True"
| "verifyAll E proofs i (tx # txs) =
     bindR (nthR proofs i) (\<lambda>proof.
     bindR (TxProofVerify E (TxHash tx) proof) (\<lambda>(ok, err).
       if ok then verifyAll E proofs (Suc i) txs else Inr False))"

definition handleRelayWithProof ::
  "('t, 'd, 's) env \<Rightarrow> (nat \<Rightarrow> time) \<Rightarrow> RelayWithProof \<Rightarrow> ('d, 's) pnode \<Rightarrow> ('d, 's) pnode res" where
  "handleRelayWithProof E clk rwp p =
     bindR (verifyAll E (TxProofs rwp) 0 (rwp_Txs rwp)) (\<lambda>isAllCorrect.
       let p = (if isAllCorrect then onPool (AddTxs2Pool clk (rwp_Txs rwp)) p else p)
       in Inr (noteSeq (rwp_SenderShardID rwp) (rwp_SenderSeq rwp) p))"

definition handleInjectTx :: "(nat \<Rightarrow> time) \<Rightarrow> InjectTxs \<Rightarrow> ('d, 's) pnode \<Rightarrow> ('d, 's) pnode" where
  "handleInjectTx clk it p = onPool (AddTxs2Pool clk (it_Txs it)) p"

definition handleSeqIDinfos :: "SeqIDinfo \<Rightarrow> ('d, 's) pnode \<Rightarrow> ('d, 's) pnode" where
  "handleSeqIDinfos sii p = noteSeq (si_SenderShardID sii) (si_SenderSeq sii) p"

text \<open>
  The relay variant prints the first ten bytes of one key of the map: \<open>k[:10]\<close> panics when
  that key is shorter. The map is given in the order of its iteration.
\<close>

definition handlePartitionMsg :: "partitionMap \<Rightarrow> ('d, 's) pnode \<Rightarrow> ('d, 's) pnode res" where
  "handlePartitionMsg pm p =
     (let p = onCdm (\<lambda>c. c\<lparr>ModifiedMap := ModifiedMap c @ [pm]\<rparr>) p in
      bindR (case pm of [] \<Rightarrow> Inr '''' | (k, v) # _ \<Rightarrow> sliceTo k 10) (\<lambda>_.
        Inr (onCdm (\<lambda>c. c\<lparr>PartitionOn := True\<rparr>) p)))"

definition handlePartitionMsg_broker :: "partitionMap \<Rightarrow> ('d, 's) pnode \<Rightarrow> ('d, 's) pnode" where
  "handlePartitionMsg_broker pm p =
     onCdm (\<lambda>c. c\<lparr>ModifiedMap := ModifiedMap c @ [pm], PartitionOn := True\<rparr>) p"

definition handlePartitionReady :: "PartitionReadyMsg \<Rightarrow> ('d, 's) pnode \<Rightarrow> ('d, 's) pnode" where
  "handlePartitionReady pr p =
     onCdm (\<lambda>c. c\<lparr>PartitionReady := insert (FromShard pr) (PartitionReady c),
                  ReadySeq := (ReadySeq c)(FromShard pr \<mapsto> NowSeqID pr)\<rparr>) p"

definition handleAccountStateAndTxMsg :: "AccountStateAndTx \<Rightarrow> ('d, 's) pnode \<Rightarrow> ('d, 's) pnode" where
  "handleAccountStateAndTxMsg at p =
     onCdm (\<lambda>c. let c = c\<lparr>AccountStateTx := (AccountStateTx c)(ast_FromShard at \<mapsto> at)\<rparr> in
       if int (card (dom (AccountStateTx c))) = sint (ShardNums (ChainCfg (CurChain p))) - 1
       then c\<lparr>CollectOver := True\<rparr> else c) p"

section \<open>The four dispatchers\<close>

definition outsideRelay ::
  "('t, 'd, 's) env \<Rightarrow> (nat \<Rightarrow> time) \<Rightarrow> wire \<Rightarrow> ('d, 's) pnode \<Rightarrow> ('d, 's) pnode res" where
  "outsideRelay E clk m p = (case m of
       WRelay r \<Rightarrow> Inr (handleRelay clk r p)
     | WRelayWithProof r \<Rightarrow> handleRelayWithProof E clk r p
     | WInject it \<Rightarrow> Inr (handleInjectTx clk it p)
     | _ \<Rightarrow> Inr p)"

definition outsideBroker :: "(nat \<Rightarrow> time) \<Rightarrow> wire \<Rightarrow> ('d, 's) pnode \<Rightarrow> ('d, 's) pnode res" where
  "outsideBroker clk m p = (case m of
       WSeqIDinfo s \<Rightarrow> Inr (handleSeqIDinfos s p)
     | WInject it \<Rightarrow> Inr (handleInjectTx clk it p)
     | _ \<Rightarrow> Inr p)"

definition outsideCLPA ::
  "('t, 'd, 's) env \<Rightarrow> (nat \<Rightarrow> time) \<Rightarrow> wire \<Rightarrow> ('d, 's) pnode \<Rightarrow> ('d, 's) pnode res" where
  "outsideCLPA E clk m p = (case m of
       WRelay r \<Rightarrow> Inr (handleRelay clk r p)
     | WRelayWithProof r \<Rightarrow> handleRelayWithProof E clk r p
     | WInject it \<Rightarrow> Inr (handleInjectTx clk it p)
     | WPartition pm \<Rightarrow> handlePartitionMsg pm p
     | WAccountStateAndTx at \<Rightarrow> Inr (handleAccountStateAndTxMsg at p)
     | WPartitionReady pr \<Rightarrow> Inr (handlePartitionReady pr p)
     | _ \<Rightarrow> Inr p)"

definition outsideCLPABroker :: "(nat \<Rightarrow> time) \<Rightarrow> wire \<Rightarrow> ('d, 's) pnode \<Rightarrow> ('d, 's) pnode res" where
  "outsideCLPABroker clk m p = (case m of
       WSeqIDinfo s \<Rightarrow> Inr (handleSeqIDinfos s p)
     | WInject it \<Rightarrow> Inr (handleInjectTx clk it p)
     | WPartition pm \<Rightarrow> Inr (handlePartitionMsg_broker pm p)
     | WAccountTransferBroker at \<Rightarrow> Inr (handleAccountStateAndTxMsg at p)
     | WPartitionReady pr \<Rightarrow> Inr (handlePartitionReady pr p)
     | _ \<Rightarrow> Inr p)"

definition outsideOf ::
  "moduleKind \<Rightarrow> ('t, 'd, 's) env \<Rightarrow> (nat \<Rightarrow> time) \<Rightarrow> wire \<Rightarrow> ('d, 's) pnode \<Rightarrow> ('d, 's) pnode res" where
  "outsideOf k E = (case k of
     KRelay \<Rightarrow> outsideRelay E | KBroker \<Rightarrow> outsideBroker
   | KCLPA \<Rightarrow> outsideCLPA E | KCLPABroker \<Rightarrow> outsideCLPABroker)"

section \<open>Receiving a message\<close>

text \<open>
  \<open>ptr\<close> is the address the message's sender is decoded to. A stop message ends the node;
  the answer is the task started, if any, or the handler's own result.
\<close>

datatype task =
    TPrePrepare PrePrepare
  | TPrepare Prepare nat
  | TCommit Commit nat
  | TOutside wire
  | TStop

definition handleMessage ::
  "('t, 'd, 's) env \<Rightarrow> ('d, 's) ihm \<Rightarrow> time \<Rightarrow> nat \<Rightarrow> wire \<Rightarrow> ('d, 's) pnode \<Rightarrow>
   (task option \<times> ('d, 's) pnode \<times> outs) res" where
  "handleMessage E ihm now ptr m p =
     (let done = (\<lambda>(p, os). Inr (None, p, os)) in
      case m of
        WPrePrepare x \<Rightarrow> Inr (Some (TPrePrepare x), p, [])
      | WPrepare x \<Rightarrow> Inr (Some (TPrepare x ptr), p, [])
      | WCommit x \<Rightarrow> Inr (Some (TCommit x ptr), p, [])
      | WViewChange x \<Rightarrow> bindR (handleViewChangeMsg x p) done
      | WNewView x \<Rightarrow> done (handleNewViewMsg now x p, [])
      | WRequestOld x \<Rightarrow> done (handleRequestOldSeq ihm x p)
      | WSendOld x \<Rightarrow> bindR (handleSendOldSeq E ihm x p) done
      | WStop \<Rightarrow> Inr (Some TStop, p, [])
      | _ \<Rightarrow> Inr (Some (TOutside m), p, []))"

text \<open>
  A task runs when its guard allows it; \<open>curView\<close> is the view its goroutine read when it
  started. \<open>None\<close> is a task that waits.
\<close>

definition runTask ::
  "moduleKind \<Rightarrow> ('t, 'd, 's) env \<Rightarrow> params \<Rightarrow> sched \<Rightarrow> int \<Rightarrow> task \<Rightarrow> ('d, 's) pnode \<Rightarrow> ('d, 's) step" where
  "runTask k E cfg sch curView t p = (case t of
       TPrePrepare x \<Rightarrow> handlePrePrepare E (moduleOf k E cfg) x curView p
     | TPrepare x ptr \<Rightarrow> handlePrepare (moduleOf k E cfg) x ptr curView p
     | TCommit x ptr \<Rightarrow> handleCommit (moduleOf k E cfg) sch x ptr curView p
     | TOutside m \<Rightarrow> Some (bindR (outsideOf k E (s_clk sch) m p) (\<lambda>p. Inr (p, [])))
     | TStop \<Rightarrow> Some (Inr (p, [])))"

section \<open>The pause of a leader before a repartition\<close>

text \<open>
  Before it takes the lock, a leader of the relay module with a pending repartition
  broadcasts that it is ready and waits, looking once a second and at most 20 times.
\<close>

definition syncOuts :: "moduleKind \<Rightarrow> ('d, 's) pnode \<Rightarrow> outs" where
  "syncOuts k p = (if k = KCLPA \<and> PartitionOn (cdm p) then SendPartitionReady p else [])"

definition syncDone :: "nat \<Rightarrow> ('d, 's) pnode \<Rightarrow> bool" where
  "syncDone waitCount p \<longleftrightarrow> GetPartitionReady p \<or> 20 \<le> waitCount"

section \<open>The node as a transition system\<close>

text \<open>
  Every step a node can take: a received message, a task, a phase of the leader's round and
  a tick of the monitor, each with any clock, order and arguments. The goroutines a node
  has started are not kept: a task can run at any time, which allows every schedule.
\<close>

inductive nodeStep ::
  "moduleKind \<Rightarrow> ('t, 'd, 's) env \<Rightarrow> params \<Rightarrow> ('d, 's) pnode \<Rightarrow> outs \<Rightarrow> ('d, 's) pnode \<Rightarrow> bool"
  for k E cfg where
  receive: "handleMessage E (moduleOf k E cfg) now ptr m p = Inr (t, p', os) \<Longrightarrow> nodeStep k E cfg p os p'"
| task: "runTask k E cfg sch curView t p = Some (Inr (p', os)) \<Longrightarrow> nodeStep k E cfg p os p'"
| propose: "proposeRound E (moduleOf k E cfg) sch phase p = Some (Inr (n, p', os)) \<Longrightarrow> nodeStep k E cfg p os p'"
| sync: "isLeader p \<Longrightarrow> nodeStep k E cfg p (syncOuts k p) p"
| tick: "monitorTick timeout now now2 now3 b m p = Inr (m', p', os) \<Longrightarrow> nodeStep k E cfg p os p'"

inductive nodeReach :: "moduleKind \<Rightarrow> ('t, 'd, 's) env \<Rightarrow> params \<Rightarrow> ('d, 's) pnode \<Rightarrow> ('d, 's) pnode \<Rightarrow> bool"
  for k E cfg p0 where
  start: "nodeReach k E cfg p0 p0"
| step: "nodeReach k E cfg p0 p \<Longrightarrow> nodeStep k E cfg p os p' \<Longrightarrow> nodeReach k E cfg p0 p'"

end
