(* ===== verification/PbftInvariants.thy ===== *)
theory PbftInvariants
  imports OutsideModules
begin

text \<open>
  The contract between the consensus and a module (\<open>consensus_module\<close>), the lemmas on the
  handlers proved under it, and its interpretation on the four modules of the code.

  The contract is what messageHandle.go needs of a module: it may touch the chain and the
  account-transfer data, its pre-prepare check may store the request it was shown, its
  catch-up may set the sequence number, and nothing else of the node.
\<close>

section \<open>How a node evolves\<close>

text \<open>Only the chain and the account-transfer data differ.\<close>

definition moved :: "('d, 's) pnode \<Rightarrow> ('d, 's) pnode \<Rightarrow> bool" where
  "moved p p' \<longleftrightarrow> (\<exists>bc c. p' = p\<lparr>CurChain := bc, cdm := c\<rparr>)"

lemma moved_refl [simp, intro]: "moved p p"
  unfolding moved_def by (intro exI [of _ "CurChain p"] exI [of _ "cdm p"]) simp

lemma moved_upd [intro]: "moved p (p\<lparr>CurChain := bc, cdm := c\<rparr>)"
  unfolding moved_def by (intro exI) (rule refl)

lemma moved_upd' [intro]: "moved p (p\<lparr>cdm := c, CurChain := bc\<rparr>)"
  unfolding moved_def by (intro exI [of _ bc] exI [of _ c]) simp

lemma moved_trans: "moved p q \<Longrightarrow> moved q r \<Longrightarrow> moved p r"
  by (subst (asm) moved_def, subst (asm) moved_def, elim exE) (simp add: moved_upd)

lemma moved_chain [intro]: "moved p (p\<lparr>CurChain := bc\<rparr>)"
  unfolding moved_def by (intro exI [of _ bc] exI [of _ "cdm p"]) simp

lemma moved_cdm [intro]: "moved p (p\<lparr>cdm := c\<rparr>)"
  unfolding moved_def by (intro exI [of _ "CurChain p"] exI [of _ c]) simp

lemma moved_onPool [simp, intro]: "moved p (onPool f p)"
  by (auto simp: onPool_def)

lemma moved_onCdm [simp, intro]: "moved p (onCdm f p)"
  by (auto simp: onCdm_def)

lemma moved_fields:
  assumes "moved p p'"
  shows "RunningNode p' = RunningNode p" "n_ShardID p' = n_ShardID p" "n_NodeID p' = n_NodeID p"
    "ip_nodeTable p' = ip_nodeTable p" "node_nums p' = node_nums p" "malicious_nums p' = malicious_nums p"
    "view p' = view p" "sequenceID p' = sequenceID p" "requestPool p' = requestPool p"
    "cntPrepareConfirm p' = cntPrepareConfirm p" "cntCommitConfirm p' = cntCommitConfirm p"
    "isCommitBordcast p' = isCommitBordcast p" "isReply p' = isReply p"
    "height2Digest p' = height2Digest p" "pbftStage p' = pbftStage p"
    "sequenceLocked p' = sequenceLocked p" "askForLocked p' = askForLocked p"
    "viewChangeMap p' = viewChangeMap p" "newViewMap p' = newViewMap p"
  using assms by (auto simp: moved_def)

text \<open>Every request is stored under its own digest, and every height names a stored request.\<close>

definition pool_ok :: "('t, 'd, 's) env \<Rightarrow> ('d, 's) pnode \<Rightarrow> bool" where
  "pool_ok E p \<longleftrightarrow> (\<forall>d r. requestPool p d = Some r \<longrightarrow> reqDigest E r = d) \<and>
     (\<forall>h d. height2Digest p h = Some d \<longrightarrow> requestPool p d \<noteq> None)"

text \<open>
  What no step of a node undoes: its identity, the requests it holds, the digests it has
  committed or broadcast a commit for, and the integrity of its request pool.
\<close>

definition evolves :: "('t, 'd, 's) env \<Rightarrow> ('d, 's) pnode \<Rightarrow> ('d, 's) pnode \<Rightarrow> bool" where
  "evolves E p p' \<longleftrightarrow>
     RunningNode p' = RunningNode p \<and> n_ShardID p' = n_ShardID p \<and> n_NodeID p' = n_NodeID p \<and>
     ip_nodeTable p' = ip_nodeTable p \<and> node_nums p' = node_nums p \<and> malicious_nums p' = malicious_nums p \<and>
     dom (requestPool p) \<subseteq> dom (requestPool p') \<and>
     isReply p \<subseteq> isReply p' \<and> isCommitBordcast p \<subseteq> isCommitBordcast p' \<and>
     (pool_ok E p \<longrightarrow> pool_ok E p')"

lemma evolves_refl [simp, intro]: "evolves E p p"
  by (simp add: evolves_def)

lemma evolves_trans: "evolves E p q \<Longrightarrow> evolves E q r \<Longrightarrow> evolves E p r"
  unfolding evolves_def by (intro conjI; simp; blast)

lemma moved_evolves: "moved p p' \<Longrightarrow> evolves E p p'"
  by (auto simp: moved_def evolves_def pool_ok_def)

text \<open>A state that differs in none of the fields \<open>evolves\<close> reads.\<close>

lemma evolves_other:
  assumes "RunningNode p' = RunningNode p" "n_ShardID p' = n_ShardID p" "n_NodeID p' = n_NodeID p"
    "ip_nodeTable p' = ip_nodeTable p" "node_nums p' = node_nums p" "malicious_nums p' = malicious_nums p"
    "requestPool p' = requestPool p" "height2Digest p' = height2Digest p"
    "isReply p \<subseteq> isReply p'" "isCommitBordcast p \<subseteq> isCommitBordcast p'"
  shows "evolves E p p'"
  using assms by (simp add: evolves_def pool_ok_def)

lemma evolves_put:
  "reqDigest E r = d \<Longrightarrow> evolves E p (putRequest d r s p)"
  by (auto simp: evolves_def pool_ok_def putRequest_def)

lemma evolves_pool:
  "reqDigest E r = d \<Longrightarrow> evolves E p (p\<lparr>requestPool := (requestPool p)(d \<mapsto> r)\<rparr>)"
  by (auto simp: evolves_def pool_ok_def)

lemma evolves_set2DMap [simp, intro]: "evolves E p (set2DMap b d ptr p)"
  by (rule evolves_other) (auto simp: set2DMap_def)

lemma evolves_storeOld: "evolves E p (storeOld E s p ir)"
  unfolding storeOld_def Let_def
  by (rule evolves_trans [OF evolves_put evolves_other]) auto

lemma evolves_foldl_storeOld: "evolves E p (foldl (storeOld E s) p irs)"
proof (induction irs arbitrary: p)
  case Nil
  then show ?case by simp
next
  case (Cons ir irs)
  show ?case using evolves_trans [OF evolves_storeOld Cons.IH] by simp
qed

text \<open>The four ways a commit message is handled to the end.\<close>

lemma handleCommit_cases:
  assumes "handleCommit ihm sch cm ptr v p = Some (Inr (p', os))"
  obtains (same) "p' = p" "os = []"
    | (count) "p' = set2DMap False (c_Digest cm) ptr p" "os = []"
    | (ask) "endRound (s_now sch) (askForOld cm (set2DMap False (c_Digest cm) ptr p)) = Inr (p', os)"
    | (run) r os' where "HandleinCommit ihm sch cm (set2DMap False (c_Digest cm) ptr p) = Inr (r, os')"
        "endRound (s_now sch)
           (r\<lparr>isReply := insert (c_Digest cm) (isReply r), sequenceID := sequenceID r + 1\<rparr>, os') = Inr (p', os)"
  using assms unfolding handleCommit_def Let_def by (auto simp: res_simps split: if_splits)

section \<open>The contract\<close>

locale consensus_module =
  fixes ihm :: "('d, 's) ihm"
  assumes propose_law: "HandleinPropose ihm sch phase p = Inr (r, p', os) \<Longrightarrow> moved p p'"
    and preprepare_law: "HandleinPrePrepare ihm pp p = Inr (ok, p') \<Longrightarrow>
      p' = p \<or> p' = p\<lparr>requestPool := (requestPool p)(pp_Digest pp \<mapsto> RequestMsg pp)\<rparr>"
    and prepare_law: "snd (HandleinPrepare ihm pm p) = p"
    and commit_law: "HandleinCommit ihm sch cm p = Inr (p', os) \<Longrightarrow> moved p p'"
    and old_law: "snd (HandleReqestforOldSeq ihm rom p) = p"
    and sequential_law: "HandleforSequentialRequest ihm som p = Inr p' \<Longrightarrow> \<exists>s. moved (p\<lparr>sequenceID := s\<rparr>) p'"
begin

lemma prePrepare_evolves:
  assumes "handlePrePrepare E ihm pp v p = Some (Inr (p', os))"
  shows "evolves E p p'"
proof (cases "mustWait 1 (pp_SeqID pp) v p \<or> outOfDate (pp_SeqID pp) v p \<or>
    reqDigest E (RequestMsg pp) \<noteq> pp_Digest pp \<or> sequenceID p < pp_SeqID pp")
  case True
  then show ?thesis
    using assms by (auto simp: handlePrePrepare_def Let_def evolves_put split: if_splits)
next
  case False
  then obtain ok q where q: "HandleinPrePrepare ihm pp p = Inr (ok, q)"
    and p': "p' = putRequest (pp_Digest pp) (RequestMsg pp) (pp_SeqID pp) q \<or>
             p' = (putRequest (pp_Digest pp) (RequestMsg pp) (pp_SeqID pp) q)\<lparr>pbftStage := pbftStage q + 1\<rparr>"
    using assms by (auto simp: handlePrePrepare_def Let_def res_simps putRequest_def split: if_splits)
  have "evolves E p q"
    using preprepare_law [OF q] False by (auto simp: evolves_pool)
  moreover have "evolves E q (putRequest (pp_Digest pp) (RequestMsg pp) (pp_SeqID pp) q)"
    using False by (simp add: evolves_put)
  ultimately have "evolves E p (putRequest (pp_Digest pp) (RequestMsg pp) (pp_SeqID pp) q)"
    by (rule evolves_trans)
  moreover have "evolves E x (x\<lparr>pbftStage := s\<rparr>)" for x and s
    by (rule evolves_other) auto
  ultimately show ?thesis
    using p' evolves_trans by blast
qed

lemma prepare_evolves:
  assumes "handlePrepare ihm pm ptr v p = Some (Inr (p', os))"
  shows "evolves E p p'"
  using assms unfolding handlePrepare_def Let_def prepare_law
  by (auto simp: set2DMap_def intro!: evolves_other split: if_splits)

lemma endRound_evolves: "endRound now po = Inr (p', os) \<Longrightarrow> evolves E (fst po) p'"
  by (auto simp: endRound_def Let_def intro!: evolves_other split: if_splits)

lemma commit_evolves:
  assumes "handleCommit ihm sch cm ptr v p = Some (Inr (p', os))"
  shows "evolves E p p'"
proof -
  define q where "q = set2DMap False (c_Digest cm) ptr p"
  have pq: "evolves E p q" by (simp add: q_def)
  from assms show ?thesis
  proof (cases rule: handleCommit_cases)
    case same
    then show ?thesis by simp
  next
    case count
    then show ?thesis by simp
  next
    case ask
    have "evolves E q (fst (askForOld cm q))"
      by (rule evolves_other) (auto simp: askForOld_def Let_def)
    then show ?thesis using endRound_evolves [OF ask] pq evolves_trans unfolding q_def by blast
  next
    case (run r os')
    have "evolves E q r" using commit_law [OF run(1)] unfolding q_def by (rule moved_evolves)
    moreover have "evolves E r (r\<lparr>isReply := insert (c_Digest cm) (isReply r), sequenceID := sequenceID r + 1\<rparr>)"
      by (rule evolves_other) auto
    ultimately show ?thesis using endRound_evolves [OF run(2)] pq evolves_trans by (metis fst_conv)
  qed
qed

lemma sendOld_evolves:
  assumes "handleSendOldSeq E ihm som p = Inr (p', os)"
  shows "evolves E p p'"
proof -
  obtain q where q: "HandleforSequentialRequest ihm som p = Inr q"
    using assms by (auto simp: handleSendOldSeq_def res_simps)
  then obtain s where "moved (p\<lparr>sequenceID := s\<rparr>) q" using sequential_law by blast
  then have "evolves E (p\<lparr>sequenceID := s\<rparr>) q" by (rule moved_evolves)
  moreover have "evolves E p (p\<lparr>sequenceID := s\<rparr>)" by (rule evolves_other) auto
  ultimately have pq: "evolves E p q" using evolves_trans by blast
  define r where "r = (foldl (storeOld E (SeqStartHeight som)) q (enumerate 0 (OldRequest som)))
    \<lparr>sequenceID := SeqEndHeight som + 1\<rparr>"
  have "evolves E (foldl (storeOld E (SeqStartHeight som)) q (enumerate 0 (OldRequest som))) r"
    by (rule evolves_other) (auto simp: r_def)
  then have pr: "evolves E p r"
    using pq evolves_foldl_storeOld evolves_trans by blast
  have chk: "evolves E r t" if "HandleinPrePrepare ihm \<lparr>RequestMsg = x, pp_Digest = reqDigest E x, pp_SeqID = s\<rparr> r
      = Inr (ok, t)" for x s ok t
    using preprepare_law [OF that] by (auto simp: evolves_pool)
  have unl: "evolves E t (t\<lparr>askForLocked := b\<rparr>)" for t b by (rule evolves_other) auto
  obtain t where "evolves E r t" and "p' = t\<lparr>askForLocked := False\<rparr>"
    using assms q unfolding handleSendOldSeq_def Let_def
    by (auto simp: r_def [symmetric] res_simps Let_def split: option.splits if_splits dest: chk)
  then show ?thesis using pr unl evolves_trans by blast
qed

lemma requestOld_evolves: "evolves E p (fst (handleRequestOldSeq ihm rom p))"
  by (simp add: handleRequestOldSeq_def Let_def old_law)

lemma receive_evolves:
  assumes "handleMessage E ihm now ptr m p = Inr (t, p', os)"
  shows "evolves E p p'"
proof (cases m)
  case (WViewChange x)
  then show ?thesis using assms
    by (auto simp: handleMessage_def handleViewChangeMsg_def Let_def res_simps intro!: evolves_other split: if_splits)
next
  case (WNewView x)
  then show ?thesis using assms
    by (auto simp: handleMessage_def handleNewViewMsg_def Let_def res_simps intro!: evolves_other split: if_splits)
next
  case (WRequestOld x)
  then show ?thesis using assms requestOld_evolves [of E p x]
    by (auto simp: handleMessage_def split: prod.splits)
next
  case (WSendOld x)
  then show ?thesis using assms sendOld_evolves by (auto simp: handleMessage_def res_simps)
qed (use assms in \<open>auto simp: handleMessage_def\<close>)

lemma propose_evolves:
  assumes "proposeRound E ihm sch phase p = Some (Inr (n, p', os))"
  shows "evolves E p p'"
proof -
  define q where "q = (if phase = 1 then p\<lparr>sequenceLocked := True\<rparr> else p)"
  have pq: "evolves E p q" by (rule evolves_other) (auto simp: q_def)
  have fin: "evolves E r (fst (proposeFinish E req r))" for req and r :: "('d, 's) pnode"
    unfolding proposeFinish_def Let_def fst_conv
    by (rule evolves_trans [OF evolves_put evolves_other]) auto
  show ?thesis
  proof (cases "HandleinPropose ihm sch (phase - 1) q")
    case (Inl e)
    then show ?thesis
      using assms unfolding proposeRound_def Let_def q_def [symmetric] by (auto split: if_splits)
  next
    case (Inr y)
    obtain x r os' where y: "y = (x, r, os')" by (cases y)
    have pr: "evolves E p r"
      using pq moved_evolves [OF propose_law] Inr y evolves_trans by blast
    have "p' = p \<or> p' = r \<or> (\<exists>req. p' = fst (proposeFinish E req r))"
      using assms Inr unfolding proposeRound_def Let_def q_def [symmetric] y
      by (cases x) (auto split: if_splits prod.splits, (metis fst_conv)+)
    then show ?thesis
      using pr fin evolves_trans by blast
  qed
qed

end

section \<open>The modules keep the contract\<close>

lemma proposeBlock_moved: "proposeBlock E cfg sch p = Inr (r, p', os) \<Longrightarrow> moved p p'"
  by (auto simp: proposeBlock_def res_simps)

lemma checkBlock_law:
  "checkBlock E pp p = Inr (ok, p') \<Longrightarrow>
   p' = p \<or> p' = p\<lparr>requestPool := (requestPool p)(pp_Digest pp \<mapsto> RequestMsg pp)\<rparr>"
  by (auto simp: checkBlock_def res_simps split: if_splits)

lemma addRequestBlock_moved: "addRequestBlock E cfg r p = Inr (b, p') \<Longrightarrow> moved p p'"
  by (auto simp: addRequestBlock_def res_simps)

lemma RelayMsgSend_moved: "RelayMsgSend cfg p = Inr (p', os) \<Longrightarrow> moved p p'"
  by (auto simp: RelayMsgSend_def split: if_splits)

lemma RelayWithProofSend_moved: "RelayWithProofSend E cfg b p = Inr (p', os) \<Longrightarrow> moved p p'"
  by (auto simp: RelayWithProofSend_def res_simps split: if_splits)

lemma relayReport_moved:
  assumes "relayReport E cfg strict epoch sch r b p = Inr (p', os)"
  shows "moved p p'"
proof -
  define q where "q = onPool (\<lambda>pool. pool\<lparr>RelayPool := Some Map.empty\<rparr>) p"
  obtain pool os' where "(if RelayWithMerkleProof cfg = 1 then RelayWithProofSend E cfg b (onPool (\<lambda>_. pool) q)
      else RelayMsgSend cfg (onPool (\<lambda>_. pool) q)) = Inr (p', os')"
    using assms unfolding relayReport_def Let_def q_def [symmetric] by (auto simp: res_simps)
  then have "moved (onPool (\<lambda>_. pool) q) p'"
    using RelayMsgSend_moved RelayWithProofSend_moved by (metis (full_types))
  then show ?thesis
    unfolding q_def using moved_trans moved_onPool by meson
qed

lemma relayCommit_moved:
  assumes "relayCommit E cfg strict epoch sch r p = Inr (p', os)"
  shows "moved p p'"
  using assms unfolding relayCommit_def
  by (auto simp: res_simps split: if_splits
      dest!: relayReport_moved addRequestBlock_moved intro: moved_trans)

lemma brokerCommit_moved:
  assumes "brokerCommit E cfg raw epoch sch r p = Inr (p', os)"
  shows "moved p p'"
  using assms unfolding brokerCommit_def
  by (auto simp: res_simps Let_def split: if_splits dest!: addRequestBlock_moved)

lemma accountTransfer_do_moved: "accountTransfer_do E cfg atm p = Inr p' \<Longrightarrow> moved p p'"
  by (auto simp: accountTransfer_do_def res_simps onCdm_def)

lemma decodeTransfer_moved: "decodeTransfer E cfg r p = Inr p' \<Longrightarrow> moved p p'"
  by (auto simp: decodeTransfer_def res_simps dest: accountTransfer_do_moved)

lemma onRequest_moved:
  assumes "\<And>r p' os. f r p = Inr (p', os) \<Longrightarrow> moved p p'" and "onRequest f cm p = Inr (p', os)"
  shows "moved p p'"
  using assms by (auto simp: onRequest_def res_simps)

lemma sendOne_moved: "moved p (fst po) \<Longrightarrow> moved p (fst (sendOne m fetched po i))"
  by (auto simp: sendOne_def Let_def split: prod.splits intro: moved_trans)

lemma sendAccounts_and_Txs_moved:
  assumes "sendAccounts_and_Txs E cfg p = Inr (p', os)"
  shows "moved p p'"
proof -
  obtain m fetched where "foldl (sendOne m fetched) (p, []) (otherShards p) = (p', os)"
    using assms by (auto simp: sendAccounts_and_Txs_def res_simps)
  moreover have "moved p (fst (foldl (sendOne m fetched) po sids))" if "moved p (fst po)" for po sids
    using that by (induction sids arbitrary: po) (auto simp: sendOne_moved)
  ultimately show ?thesis by (metis fst_conv moved_refl)
qed

lemma sendOneBroker_moved: "moved p (fst (fst st)) \<Longrightarrow> moved p (fst (fst (sendOneBroker m fetched st i)))"
  by (auto simp: sendOneBroker_def Let_def split: prod.splits intro: moved_trans)

lemma sendAccounts_and_Txs_broker_moved:
  assumes "sendAccounts_and_Txs_broker E cfg p = Inr (p', os)"
  shows "moved p p'"
proof -
  obtain m fetched where "p' = fst (fst (foldl (sendOneBroker m fetched) ((p, []), []) (otherShards p)))"
    using assms by (auto simp: sendAccounts_and_Txs_broker_def res_simps Let_def case_prod_unfold)
  moreover have "moved p (fst (fst (foldl (sendOneBroker m fetched) po sids)))" if "moved p (fst (fst po))" for po sids
    using that by (induction sids arbitrary: po) (auto simp: sendOneBroker_moved)
  ultimately show ?thesis by simp
qed

lemma transferRequest_same: "transferRequest E sch p = Inr (r, p', os) \<Longrightarrow> p' = p \<and> os = []"
  by (auto simp: transferRequest_def Let_def res_simps)

lemma proposePartition_moved: "proposePartition E sch p = Inr (r, p', os) \<Longrightarrow> moved p p'"
  by (auto simp: proposePartition_def res_simps Let_def onPool_def dest!: transferRequest_same)

lemma proposePartition_broker_moved: "proposePartition_broker E sch p = Inr (r, p', os) \<Longrightarrow> moved p p'"
  by (auto simp: proposePartition_broker_def res_simps Let_def onPool_def dest!: transferRequest_same)

lemma proposeCLPA_moved: "proposeCLPA E cfg sch p = Inr (r, p', os) \<Longrightarrow> moved p p'"
  by (auto simp: proposeCLPA_def res_simps split: if_splits intro: moved_trans
      dest!: sendAccounts_and_Txs_moved proposePartition_moved proposeBlock_moved)

lemma proposeCLPABroker_moved: "proposeCLPABroker E cfg sch phase p = Inr (r, p', os) \<Longrightarrow> moved p p'"
  by (auto simp: proposeCLPABroker_def sendPartitionReady_def Let_def res_simps split: if_splits
      dest!: sendAccounts_and_Txs_broker_moved proposePartition_broker_moved proposeBlock_moved)

lemma replayAll_moved:
  assumes replay: "\<And>r q q'. replay r q = Inr q' \<Longrightarrow> moved q q'" and "replayAll replay som p = Inr p'"
  shows "\<exists>s. moved (p\<lparr>sequenceID := s\<rparr>) p'"
proof -
  obtain q where q: "foldR (\<lambda>p i. bindR (nthR (OldRequest som) i) (\<lambda>r. replay r p)) p
        [0..<heightCount (SeqStartHeight som) (SeqEndHeight som)] = Inr q"
    and p': "p' = q\<lparr>sequenceID := SeqEndHeight som + 1\<rparr>"
    using assms(2) by (auto simp: replayAll_def res_simps split: if_splits)
  have "moved p q"
    by (rule foldR_invariant [OF _ moved_refl q]) (auto simp: res_simps dest!: replay intro: moved_trans)
  then obtain bc c where "q = p\<lparr>CurChain := bc, cdm := c\<rparr>" by (auto simp: moved_def)
  then have "p' = p\<lparr>sequenceID := SeqEndHeight som + 1, CurChain := bc, cdm := c\<rparr>"
    by (simp add: p')
  then show ?thesis unfolding moved_def by blast
qed

lemma replayBlock_moved: "replayBlock E cfg r p = Inr p' \<Longrightarrow> moved p p'"
  by (auto simp: replayBlock_def res_simps split: if_splits dest: addRequestBlock_moved)

lemma replayAny_moved: "replayAny E cfg r p = Inr p' \<Longrightarrow> moved p p'"
  by (auto simp: replayAny_def res_simps split: if_splits dest: addRequestBlock_moved decodeTransfer_moved)

lemma consensus_module_moduleOf:
  fixes E :: "('t, 'd, 's) env"
  shows "consensus_module (moduleOf k E cfg)"
proof
  fix sch phase p r p' os
  show "HandleinPropose (moduleOf k E cfg) sch phase p = Inr (r, p', os) \<Longrightarrow> moved p p'"
    by (cases k) (auto simp: moduleOf_def relayMod_def brokerMod_def clpaMod_def clpaBrokerMod_def
        dest: proposeBlock_moved proposeCLPA_moved proposeCLPABroker_moved)
next
  fix pp p ok p'
  show "HandleinPrePrepare (moduleOf k E cfg) pp p = Inr (ok, p') \<Longrightarrow>
      p' = p \<or> p' = p\<lparr>requestPool := (requestPool p)(pp_Digest pp \<mapsto> RequestMsg pp)\<rparr>"
    by (cases k) (auto simp: moduleOf_def relayMod_def brokerMod_def clpaMod_def clpaBrokerMod_def
        checkCLPA_def checkCLPABroker_def split: if_splits dest: checkBlock_law)
next
  fix pm p
  show "snd (HandleinPrepare (moduleOf k E cfg) pm p) = p"
    by (cases k) (auto simp: moduleOf_def relayMod_def brokerMod_def clpaMod_def clpaBrokerMod_def)
next
  fix sch cm p p' os
  assume "HandleinCommit (moduleOf k E cfg) sch cm p = Inr (p', os)"
  then show "moved p p'"
    by (cases k) (auto simp: moduleOf_def relayMod_def brokerMod_def clpaMod_def clpaBrokerMod_def
        onRequest_def res_simps split: if_splits
        dest: relayCommit_moved brokerCommit_moved decodeTransfer_moved)
next
  fix rom p
  show "snd (HandleReqestforOldSeq (moduleOf k E cfg) rom p) = p"
    by (cases k) (auto simp: moduleOf_def relayMod_def brokerMod_def clpaMod_def clpaBrokerMod_def)
next
  fix som and p p' :: "('d, 's) pnode"
  have rb: "replayAll (replayBlock E cfg) som p = Inr p' \<Longrightarrow> \<exists>s. moved (p\<lparr>sequenceID := s\<rparr>) p'"
    by (rule replayAll_moved [where replay = "replayBlock E cfg"]) (rule replayBlock_moved)
  have ra: "replayAll (replayAny E cfg) som p = Inr p' \<Longrightarrow> \<exists>s. moved (p\<lparr>sequenceID := s\<rparr>) p'"
    by (rule replayAll_moved [where replay = "replayAny E cfg"]) (rule replayAny_moved)
  have same: "\<exists>s. moved (p\<lparr>sequenceID := s\<rparr>) p"
    by (intro exI [of _ "sequenceID p"]) simp
  show "HandleforSequentialRequest (moduleOf k E cfg) som p = Inr p' \<Longrightarrow> \<exists>s. moved (p\<lparr>sequenceID := s\<rparr>) p'"
    using same
    by (cases k) (auto simp: moduleOf_def relayMod_def brokerMod_def clpaMod_def clpaBrokerMod_def
        split: if_splits dest: rb ra)
qed

interpretation mods: consensus_module "moduleOf k E cfg" for k and E :: "('t, 'd, 's) env" and cfg
  by (rule consensus_module_moduleOf)

section \<open>Every step of a node\<close>

lemma outside_moved_fields:
  assumes "outsideOf k E clk m p = Inr p'"
  shows "evolves E p p'"
proof -
  have 1: "evolves E p (noteSeq sid s q)" if "moved p q" for sid s q
    using that by (intro evolves_other) (auto simp: noteSeq_def moved_fields)
  have 2: "evolves E p (onPool f p)" "evolves E p (onCdm g p)" for f g
    by (simp_all add: moved_evolves)
  have 3: "handleRelayWithProof E clk r p = Inr p' \<Longrightarrow> evolves E p p'" for r
    using 1 by (auto simp: handleRelayWithProof_def res_simps)
  have 4: "handlePartitionMsg pm p = Inr p' \<Longrightarrow> evolves E p p'" for pm
    by (auto simp: handlePartitionMsg_def res_simps onCdm_def moved_cdm moved_evolves)
  show ?thesis
    using assms
    by (cases k; cases m)
      (auto simp: outsideOf_def outsideRelay_def outsideBroker_def outsideCLPA_def outsideCLPABroker_def
        handleRelay_def handleInjectTx_def handleSeqIDinfos_def handlePartitionMsg_broker_def
        handlePartitionReady_def handleAccountStateAndTxMsg_def 1 2 dest: 3 4)
qed

lemma task_evolves:
  assumes "runTask k E cfg sch v t p = Some (Inr (p', os))"
  shows "evolves E p p'"
  using assms
  by (cases t) (auto simp: runTask_def res_simps
      dest: mods.prePrepare_evolves mods.prepare_evolves mods.commit_evolves outside_moved_fields)

lemma tick_evolves:
  assumes "monitorTick timeout now now2 now3 b m p = Inr (m', p', os)"
  shows "evolves E p p'"
  using assms
  by (auto simp: monitorTick_def viewChangePropose_def Let_def res_simps intro!: evolves_other split: if_splits)

lemma nodeStep_evolves: "nodeStep k E cfg p os p' \<Longrightarrow> evolves E p p'"
  by (induction rule: nodeStep.induct)
    (blast dest: mods.receive_evolves task_evolves mods.propose_evolves tick_evolves intro: evolves_refl)+

lemma nodeReach_evolves: "nodeReach k E cfg p0 p \<Longrightarrow> evolves E p0 p"
  by (induction rule: nodeReach.induct) (auto intro: evolves_trans nodeStep_evolves)

end
