(* ===== verification/ChainProps.thy ===== *)
theory ChainProps
  imports Chain
begin

text \<open>
  The properties of a single shard's chain, with the concrete chains that witness them.
\<close>

section \<open>Replicas\<close>

text \<open>Two replicas of a shard agree on what execution reads.\<close>

definition sameView :: "('d, 's) BlockChain \<Rightarrow> ('d, 'r) BlockChain \<Rightarrow> bool" where
  "sameView b1 b2 \<longleftrightarrow>
     triedb b1 = triedb b2 \<and> CurrentBlock b1 = CurrentBlock b2 \<and>
     cc_ShardID (ChainCfg b1) = cc_ShardID (ChainCfg b2) \<and> PartitionMap b1 = PartitionMap b2"

lemma execTx_sameView:
  assumes "sameView b1 b2"
  shows "execTx E1 cfg b1 stc itx = execTx E1 cfg b2 stc itx"
proof -
  have "Get_PartitionMap cfg b1 = Get_PartitionMap cfg b2"
    using assms by (simp add: fun_eq_iff Get_PartitionMap_def sameView_def)
  then have "senderHalf E1 cfg b1 i tx s = senderHalf E1 cfg b2 i tx s"
    "recipientHalf E1 cfg b1 i tx s = recipientHalf E1 cfg b2 i tx s" for i tx s
    using assms by (simp_all add: senderHalf_def recipientHalf_def sameView_def)
  then show ?thesis by (simp add: execTx_def cong: option.case_cong)
qed

lemma GetUpdateStatusTrie_sameView:
  fixes E :: "('t, 'd, 's) env"
  assumes "sameView b1 b2" and "GetUpdateStatusTrie E cfg txs b1 = Inr (rt, b1')"
  shows "GetUpdateStatusTrie E cfg txs b2 = Inr (rt, b2\<lparr>triedb := triedb b1'\<rparr>)"
proof -
  have ex: "execTxs E cfg b1 txs st = execTxs E cfg b2 txs st" for st
    unfolding execTxs_def by (rule foldR_cong_set) (rule execTx_sameView [OF assms(1)])
  have v: "triedb b1 = triedb b2" "CurrentBlock b1 = CurrentBlock b2"
    using assms(1) by (simp_all add: sameView_def)
  show ?thesis
  proof (cases "txs = []")
    case True
    with assms(2) v show ?thesis by (auto simp: GetUpdateStatusTrie_def)
  next
    case False
    define root where "root = toHash E (StateRoot (Header (CurrentBlock b2)))"
    from False assms(2) v ex obtain st where st: "trieNew E root (triedb b2) = Some st"
      by (auto simp: GetUpdateStatusTrie_def Let_def root_def split: option.splits)
    from False assms(2) v ex st obtain t cnt where t: "execTxs E cfg b2 txs st = Inr (t, cnt)"
      by (auto simp: GetUpdateStatusTrie_def Let_def root_def [symmetric] res_simps)
    show ?thesis
    proof (cases "cnt = 0")
      case True
      with False assms(2) v ex st t show ?thesis
        by (auto simp: GetUpdateStatusTrie_def Let_def root_def [symmetric])
    next
      case c: False
      with False assms(2) v ex st t obtain r ns d where "commitTrie E t (triedb b2) = Inr (r, ns, d)"
        by (auto simp: GetUpdateStatusTrie_def Let_def root_def [symmetric] res_simps)
      with c False assms(2) v ex st t show ?thesis
        by (auto simp: GetUpdateStatusTrie_def Let_def root_def [symmetric])
    qed
  qed
qed

section \<open>Concrete chains\<close>

definition sampleCfg :: params where
  "sampleCfg = \<lparr>ShardNum = 2, UseBlocksizeInBytes = 0, BlocksizeInBytes = 20000,
     RelayWithMerkleProof = 0, InjectSpeed = 2000\<rparr>"

definition sampleCC :: ChainConfig where
  "sampleCC = \<lparr>cc_NodeID = 0, cc_ShardID = 0, Nodes_perShard = 4, ShardNums = 2, BlockSize = 2\<rparr>"

definition sampleDb :: "bytes \<Rightarrow> mtrie option" where
  "sampleDb = [mHash [] \<mapsto> []]"

text \<open>Two local accounts a and b, and c in the other shard.\<close>

definition sampleTxs :: "Transaction list" where
  "sampleTxs =
    [NewTransaction (hashTx modelEnv) ''a'' ''b'' 5 0 1,
     NewTransaction (hashTx modelEnv) ''b'' ''a'' 7 1 2,
     NewTransaction (hashTx modelEnv) ''b'' ''a'' 2 2 3]"

type_synonym mchain = "(bytes \<Rightarrow> mtrie option, bytes \<times> bytes \<Rightarrow> bytes option) BlockChain"

definition sampleChain :: mchain where
  "sampleChain = \<lparr>triedb = sampleDb, ChainCfg = sampleCC, CurrentBlock = genesis modelEnv,
     Storage = Map.empty, Txpool = AddTxs2Pool (\<lambda>i. 1) sampleTxs NewTxPool,
     PartitionMap = [''a'' \<mapsto> 0, ''b'' \<mapsto> 0, ''c'' \<mapsto> 1]\<rparr>"

lemmas sample_defs = sampleCfg_def sampleCC_def sampleDb_def sampleTxs_def sampleChain_def

lemma modelEnv_lawful: "trieLawful modelEnv"
  by (simp add: trieLawful_def modelEnv_trie modelEnv_account)

lemma modelEnv_ops:
  "toHash modelEnv b = b" "trieEmpty modelEnv = []" "trieHash modelEnv t = mHash t"
  "trieNew modelEnv r d = d r" "trieGet modelEnv t = map_of t" "trieUpdate modelEnv t k v = (k, v) # t"
  "trieCommit modelEnv t = (mHash t, True)" "dbUpdate modelEnv d t = Some (d(mHash t := Some t))"
  "dbCommit modelEnv d r = Some d" "hashBH modelEnv h = unary (unat (Number h))"
  "bucketGet modelEnv s bk k = s (bk, k)" "bucketPut modelEnv s bk k v = Some (s((bk, k) := Some v))"
  "decAS modelEnv (encAS modelEnv a) = Some a" "decB modelEnv (encB modelEnv b') = Some b'"
  by (simp_all add: modelEnv_def)

lemma sample_wf: "wfDb modelEnv sampleDb"
  by (simp add: wfDb_def wfTrie_def modelEnv_ops sampleDb_def)

lemma sample_root: "stateAt modelEnv sampleDb (mHash []) = Some (\<lambda>a. Init_Balance)"
  by (auto simp: stateAt_def sampleDb_def modelEnv_ops balOf_def)

lemma genesis_fields:
  "StateRoot (Header (genesis modelEnv)) = mHash []" "Number (Header (genesis modelEnv)) = 0"
  "Hash (genesis modelEnv) = unary 0"
  by (simp_all add: genesis_def modelEnv_ops Let_def)

lemma sample_update_ok: "\<exists>rt d. GetUpdateStatusTrie modelEnv sampleCfg (take 2 sampleTxs) sampleChain =
    Inr (rt, sampleChain\<lparr>triedb := d\<rparr>)"
  by (simp add: GetUpdateStatusTrie_def sample_defs genesis_fields modelEnv_ops execTxs_def execTx_def
      senderHalf_def recipientHalf_def Get_PartitionMap_def loadAccount_def newAccount_def
      NewTransaction_fields Init_Balance_def Deduct_def Deposit_def commitTrie_def)

section \<open>Production, validation and execution\<close>

lemma sameView_Txpool: "sameView (bc\<lparr>Txpool := p\<rparr>) fb \<longleftrightarrow> sameView bc fb"
  by (simp add: sameView_def)

lemma isHome_Txpool [simp]: "isHome cfg (bc\<lparr>Txpool := p\<rparr>) = isHome cfg bc"
  by (simp add: isHome_def Get_PartitionMap_def fun_eq_iff)

lemma GenerateBlock_state:
  assumes "trieLawful E" and "triedb_laws E" and "wfDb E (triedb bc)"
    and "stateAt E (triedb bc) (toHash E (StateRoot (Header (CurrentBlock bc)))) = Some L"
    and "GenerateBlock E cfg m now bc = Inr (b, bc1)"
  shows "stateAt E (triedb bc1) (toHash E (StateRoot (Header b))) =
           Some (foldl (ledgerStep (isHome cfg bc)) L (Body b)) \<and> wfDb E (triedb bc1)"
proof -
  obtain rt bloom where
    u: "GetUpdateStatusTrie E cfg (Body b) (bc\<lparr>Txpool := snd (packed cfg bc)\<rparr>) = Inr (rt, bc1)"
    and h: "StateRoot (Header b) = rt"
    using GenerateBlock_inv [OF assms(5)] by (metis BlockHeader.select_convs(2))
  from GetUpdateStatusTrie_state [OF assms(1,2) _ _ u, of L] assms(3,4) h show ?thesis by simp
qed

text \<open>C1: A block the leader produces from a state with balances L is valid for its own chain, is
  appended, and its state root opens, in the database left behind, to exactly the balances the ledger
  computes from L over the block's transactions; nothing is executed twice, and the transactions of
  the block and those left in the pool are the pool's transactions in their order.\<close>

theorem produced_block_commits:
  assumes laws: "trieLawful E" "triedb_laws E" and wf: "wfDb E (triedb bc)"
    and start: "stateAt E (triedb bc) (toHash E (StateRoot (Header (CurrentBlock bc)))) = Some L"
    and gen: "GenerateBlock E cfg m now bc = Inr (b, bc1)" and add: "AddBlock E cfg b bc1 = Inr bc2"
  shows "IsValidBlock E b bc1 = None \<and> CurrentBlock bc2 = b \<and>
     Body b @ TxQueue (Txpool bc2) = TxQueue (Txpool bc) \<and>
     stateAt E (triedb bc2) (toHash E (StateRoot (Header b))) =
       Some (foldl (ledgerStep (isHome cfg bc)) L (Body b))"
proof -
  note fr = GenerateBlock_frame [OF gen]
  obtain rt bloom where h: "Body b = fst (packed cfg bc)"
    "Header b = \<lparr>ParentBlockHash = Hash (CurrentBlock bc), StateRoot = rt, TxRoot = GetTxTreeRoot E (Body b),
                 Bloom = bloom, Number = Number (Header (CurrentBlock bc)) + 1, bh_Time = now, Miner = m\<rparr>"
    using GenerateBlock_inv [OF gen] by metis
  have acc: "accepts b bc1" using h fr by (simp add: accepts_def)
  have st: "stateAt E (triedb bc1) (toHash E (StateRoot (Header b))) =
      Some (foldl (ledgerStep (isHome cfg bc)) L (Body b))"
    using GenerateBlock_state [OF laws wf start gen] by blast
  then have op: "trieNew E (toHash E (StateRoot (Header b))) (triedb bc1) \<noteq> None"
    by (auto simp: stateAt_def)
  obtain s where "bc2 = bc1\<lparr>CurrentBlock := b, Storage := s\<rparr>"
    using AddBlock_known [OF acc op add] by blast
  moreover have "Body b @ TxQueue (Txpool bc1) = TxQueue (Txpool bc)"
    using packed_split [of cfg bc] fr h by (metis prod.collapse)
  ultimately show ?thesis
    using st h fr by (simp add: IsValidBlock_def)
qed

text \<open>A generated block is valid on every chain with the same view.\<close>

lemma generated_valid:
  assumes "sameView bc fb" and "GenerateBlock E cfg m now bc = Inr (b, bc1)"
  shows "IsValidBlock E b fb = None"
proof -
  obtain rt bloom where "Header b = \<lparr>ParentBlockHash = Hash (CurrentBlock bc), StateRoot = rt,
      TxRoot = GetTxTreeRoot E (Body b), Bloom = bloom, Number = Number (Header (CurrentBlock bc)) + 1, bh_Time = now, Miner = m\<rparr>"
    using GenerateBlock_inv [OF assms(2)] by metis
  then show ?thesis using assms(1) by (simp add: IsValidBlock_def sameView_def)
qed

text \<open>
  A state root determines the balances: the two databases do not hold different states under the same
  root. It is the hash function's resistance to collisions, for one root and two databases; where the root
  is in neither, in one only, or where the databases are the same, it holds.
\<close>

definition uniqueRoot :: "('t, 'd, 's) env \<Rightarrow> bytes \<Rightarrow> 'd \<Rightarrow> 'd \<Rightarrow> bool" where
  "uniqueRoot E r d d' \<longleftrightarrow>
     (\<forall>t t'. trieNew E r d = Some t \<longrightarrow> trieNew E r d' = Some t' \<longrightarrow> trieGet E t = trieGet E t')"

lemma uniqueRoot_simps [simp]: "uniqueRoot E r d d" "trieNew E r d = None \<Longrightarrow> uniqueRoot E r d d'"
  by (auto simp: uniqueRoot_def)

lemma uniqueRoot_stateAt:
  assumes "uniqueRoot E r d d'" and "trieNew E r d \<noteq> None" and "trieNew E r d' \<noteq> None"
  shows "stateAt E d r = stateAt E d' r"
  using assms balOf_cong by (fastforce simp: uniqueRoot_def stateAt_def)

lemma replica_appends:
  assumes laws: "trieLawful E" "triedb_laws E" and wf: "wfDb E (triedb bc)"
    and start: "stateAt E (triedb bc) (toHash E (StateRoot (Header (CurrentBlock bc)))) = Some L"
    and view: "sameView bc fb" and gen: "GenerateBlock E cfg m now bc = Inr (b, bc1)"
    and unique: "uniqueRoot E (toHash E (StateRoot (Header b))) (triedb bc) (triedb bc1)"
    and add: "AddBlock E cfg b fb = Inr fb1"
  shows "IsValidBlock E b fb = None \<and> CurrentBlock fb1 = b \<and> Txpool fb1 = Txpool fb \<and>
     stateAt E (triedb fb1) (toHash E (StateRoot (Header b))) =
       Some (foldl (ledgerStep (isHome cfg bc)) L (Body b)) \<and>
     (trieNew E (toHash E (StateRoot (Header b))) (triedb fb) = None \<or> Body b = [] \<longrightarrow> triedb fb1 = triedb bc1)"
proof -
  let ?r = "toHash E (StateRoot (Header b))"
  obtain rt bloom where
    u: "GetUpdateStatusTrie E cfg (Body b) (bc\<lparr>Txpool := snd (packed cfg bc)\<rparr>) = Inr (rt, bc1)"
    and h: "Header b = \<lparr>ParentBlockHash = Hash (CurrentBlock bc), StateRoot = rt, TxRoot = GetTxTreeRoot E (Body b),
                 Bloom = bloom, Number = Number (Header (CurrentBlock bc)) + 1, bh_Time = now, Miner = m\<rparr>"
    using GenerateBlock_inv [OF gen] by metis
  have cur: "CurrentBlock bc = CurrentBlock fb" "triedb bc = triedb fb" using view by (simp_all add: sameView_def)
  have acc: "accepts b fb" using h cur by (simp add: accepts_def)
  have valid: "IsValidBlock E b fb = None" using generated_valid [OF view gen] .
  have st: "stateAt E (triedb bc1) ?r = Some (foldl (ledgerStep (isHome cfg bc)) L (Body b))"
    using GenerateBlock_state [OF laws wf start gen] by blast
  have u': "GetUpdateStatusTrie E cfg (Body b) fb = Inr (rt, fb\<lparr>triedb := triedb bc1\<rparr>)"
    using GetUpdateStatusTrie_sameView [OF _ u] view by (simp add: sameView_Txpool)
  show ?thesis
  proof (cases "trieNew E ?r (triedb fb)")
    case None
    obtain s where "fb1 = fb\<lparr>triedb := triedb bc1, CurrentBlock := b, Storage := s\<rparr>"
      using AddBlock_new [OF acc None u' add] by blast
    with valid st show ?thesis by simp
  next
    case (Some t)
    then obtain s where fb1: "fb1 = fb\<lparr>CurrentBlock := b, Storage := s\<rparr>"
      using AddBlock_known [OF acc _ add] by auto
    have "stateAt E (triedb fb) ?r = stateAt E (triedb bc1) ?r"
      using uniqueRoot_stateAt [OF unique] Some st cur by (auto simp: stateAt_def)
    moreover have "Body b = [] \<Longrightarrow> triedb bc1 = triedb fb"
      using u cur by (auto simp: GetUpdateStatusTrie_def)
    ultimately show ?thesis using valid st fb1 Some by simp
  qed
qed

text \<open>C2: A replica with the leader's view of the chain (same current block, state database, shard and
  partition map) finds the leader's block valid and appends it, whether it executes the block or already has
  its state root and skips execution; either way the root opens, in the replica's database, to exactly the
  balances the ledger computes over the block's transactions, and the pool of the replica stays as it was.
  When the root is new to the replica, or the block is empty, its database is the leader's. A root that the
  replica already has is assumed to stand for one state only (no collision of the hash).\<close>

theorem replica_agrees:
  assumes laws: "trieLawful E" "triedb_laws E" and wf: "wfDb E (triedb bc)"
    and start: "stateAt E (triedb bc) (toHash E (StateRoot (Header (CurrentBlock bc)))) = Some L"
    and view: "sameView bc fb" and gen: "GenerateBlock E cfg m now bc = Inr (b, bc1)"
    and unique: "uniqueRoot E (toHash E (StateRoot (Header b))) (triedb bc) (triedb bc1)"
    and add: "AddBlock E cfg b fb = Inr fb1"
  shows "IsValidBlock E b fb = None \<and> CurrentBlock fb1 = b \<and> Txpool fb1 = Txpool fb \<and>
     stateAt E (triedb fb1) (toHash E (StateRoot (Header b))) =
       Some (foldl (ledgerStep (isHome cfg bc)) L (Body b)) \<and>
     (trieNew E (toHash E (StateRoot (Header b))) (triedb fb) = None \<or> Body b = [] \<longrightarrow> triedb fb1 = triedb bc1)"
  by (rule replica_appends [OF assms])


section \<open>Witnesses\<close>

lemma modelEnv_store: "\<exists>s'. storeBlock modelEnv b s = Inr s'"
  by (simp add: storeBlock_def AddBlockHeader_def UpdateNewestBlock_def modelEnv_ops)

lemma sample_packed: "packed sampleCfg sampleChain =
    (take 2 sampleTxs, (Txpool sampleChain)\<lparr>TxQueue := drop 2 sampleTxs\<rparr>)"
  by (simp add: packed_def PackTxs_def AddTxs2Pool_queue NewTxPool_def sample_defs stampTx_def NewTransaction_fields)

lemma sample_generate: "\<exists>b bc1. GenerateBlock modelEnv sampleCfg 0 7 sampleChain = Inr (b, bc1)"
proof -
  let ?bc = "sampleChain\<lparr>Txpool := snd (packed sampleCfg sampleChain)\<rparr>"
  have "sameView sampleChain ?bc" by (simp add: sameView_def)
  then obtain rt d where "GetUpdateStatusTrie modelEnv sampleCfg (take 2 sampleTxs) ?bc = Inr (rt, ?bc\<lparr>triedb := d\<rparr>)"
    using sample_update_ok GetUpdateStatusTrie_sameView by metis
  moreover obtain bl where "GetBloomFilter modelEnv (take 2 sampleTxs) = Inr bl"
    using GetBloomFilter_total by blast
  ultimately show ?thesis
    by (simp add: GenerateBlock_def packed_def [symmetric] sample_packed Let_def)
qed

lemma sample_start:
  "stateAt modelEnv (triedb sampleChain) (toHash modelEnv (StateRoot (Header (CurrentBlock sampleChain)))) =
   Some (\<lambda>a. Init_Balance)"
  by (simp add: sampleChain_def genesis_fields modelEnv_ops sample_root)

lemma sample_wfDb: "wfDb modelEnv (triedb sampleChain)"
  by (simp add: sampleChain_def sample_wf)

lemma sample_add:
  assumes "GenerateBlock modelEnv sampleCfg 0 7 sampleChain = Inr (b, bc1)"
  shows "\<exists>bc2. AddBlock modelEnv sampleCfg b bc1 = Inr bc2"
proof -
  have "stateAt modelEnv (triedb bc1) (toHash modelEnv (StateRoot (Header b))) \<noteq> None"
    using GenerateBlock_state [OF modelEnv_lawful modelEnv_triedb sample_wfDb sample_start assms] by simp
  then obtain t where "trieNew modelEnv (toHash modelEnv (StateRoot (Header b))) (triedb bc1) = Some t"
    by (auto simp: stateAt_def)
  moreover obtain s where "storeBlock modelEnv b (Storage bc1) = Inr s" using modelEnv_store by blast
  ultimately show ?thesis by (simp add: AddBlock_def)
qed

theorem produced_block_commits_witness:
  "\<exists>b bc1 bc2. GenerateBlock modelEnv sampleCfg 0 7 sampleChain = Inr (b, bc1) \<and>
     AddBlock modelEnv sampleCfg b bc1 = Inr bc2 \<and> CurrentBlock bc2 = b \<and>
     stateAt modelEnv (triedb bc2) (toHash modelEnv (StateRoot (Header b))) =
       Some (foldl (ledgerStep (isHome sampleCfg sampleChain)) (\<lambda>a. Init_Balance) (Body b))"
proof -
  obtain b bc1 where g: "GenerateBlock modelEnv sampleCfg 0 7 sampleChain = Inr (b, bc1)"
    using sample_generate by blast
  obtain bc2 where a: "AddBlock modelEnv sampleCfg b bc1 = Inr bc2" using sample_add [OF g] by blast
  from produced_block_commits [OF modelEnv_lawful modelEnv_triedb sample_wfDb sample_start g a] g a
  show ?thesis by blast
qed

text \<open>The follower of the sample: the same view, an empty pool and a store of its own.\<close>

definition sampleFollower :: mchain where
  "sampleFollower = sampleChain\<lparr>Txpool := NewTxPool\<rparr>"

lemma sample_view: "sameView sampleChain sampleFollower"
  by (simp add: sameView_def sampleFollower_def)

lemma mHash_nonempty: "mHash (x # t) \<noteq> mHash []"
  by (cases x) (simp add: mHash_def)

lemma sample_root_new:
  "\<exists>rt d. GetUpdateStatusTrie modelEnv sampleCfg (take 2 sampleTxs) sampleChain = Inr (rt, d) \<and> rt \<noteq> mHash []"
  by (simp add: GetUpdateStatusTrie_def sample_defs genesis_fields modelEnv_ops execTxs_def execTx_def
      senderHalf_def recipientHalf_def Get_PartitionMap_def loadAccount_def newAccount_def
      NewTransaction_fields Init_Balance_def Deduct_def Deposit_def commitTrie_def mHash_nonempty)

lemma sample_block:
  assumes "GenerateBlock modelEnv sampleCfg 0 7 sampleChain = Inr (b, bc1)"
  shows "Body b = take 2 sampleTxs"
    and "trieNew modelEnv (toHash modelEnv (StateRoot (Header b))) (triedb sampleFollower) = None"
proof -
  obtain rt where b: "Body b = take 2 sampleTxs" "StateRoot (Header b) = rt"
    and u: "GetUpdateStatusTrie modelEnv sampleCfg (take 2 sampleTxs) (sampleChain\<lparr>Txpool := snd (packed sampleCfg sampleChain)\<rparr>) = Inr (rt, bc1)"
    using GenerateBlock_inv [OF assms] by (metis BlockHeader.select_convs(2) fst_conv sample_packed)
  then show "Body b = take 2 sampleTxs" by simp
  have "rt \<noteq> mHash []"
    using GetUpdateStatusTrie_sameView [OF _ u, of sampleChain] sample_root_new
    by (auto simp: sameView_def)
  with b show "trieNew modelEnv (toHash modelEnv (StateRoot (Header b))) (triedb sampleFollower) = None"
    by (simp add: modelEnv_ops sampleFollower_def sampleChain_def sampleDb_def)
qed

lemma sample_follower_add:
  assumes "GenerateBlock modelEnv sampleCfg 0 7 sampleChain = Inr (b, bc1)"
  shows "\<exists>fb1. AddBlock modelEnv sampleCfg b sampleFollower = Inr fb1"
proof -
  note bl = sample_block [OF assms]
  obtain rt d where "GetUpdateStatusTrie modelEnv sampleCfg (Body b) sampleFollower = Inr (rt, sampleFollower\<lparr>triedb := d\<rparr>)"
    using sample_update_ok GetUpdateStatusTrie_sameView [OF sample_view] bl(1) by metis
  moreover obtain s where "storeBlock modelEnv b (Storage sampleFollower) = Inr s" using modelEnv_store by blast
  ultimately show ?thesis using bl(2) by (auto simp: AddBlock_def Let_def)
qed

lemma sample_unique:
  assumes "GenerateBlock modelEnv sampleCfg 0 7 sampleChain = Inr (b, bc1)"
  shows "uniqueRoot modelEnv (toHash modelEnv (StateRoot (Header b))) (triedb sampleChain) (triedb bc1)"
  using sample_block(2) [OF assms] by (simp add: sampleFollower_def)

theorem replica_agrees_witness:
  "\<exists>b bc1 fb1. GenerateBlock modelEnv sampleCfg 0 7 sampleChain = Inr (b, bc1) \<and>
     AddBlock modelEnv sampleCfg b sampleFollower = Inr fb1 \<and>
     IsValidBlock modelEnv b sampleFollower = None \<and> triedb fb1 = triedb bc1 \<and>
     stateAt modelEnv (triedb fb1) (toHash modelEnv (StateRoot (Header b))) =
       Some (foldl (ledgerStep (isHome sampleCfg sampleChain)) (\<lambda>a. Init_Balance) (Body b))"
proof -
  obtain b bc1 where g: "GenerateBlock modelEnv sampleCfg 0 7 sampleChain = Inr (b, bc1)"
    using sample_generate by blast
  obtain fb1 where a: "AddBlock modelEnv sampleCfg b sampleFollower = Inr fb1" using sample_follower_add [OF g] by blast
  from replica_agrees [OF modelEnv_lawful modelEnv_triedb sample_wfDb sample_start sample_view g sample_unique [OF g] a]
    g a sample_block(2) [OF g] show ?thesis
    by blast
qed


section \<open>Moving accounts in\<close>

definition installs ::
  "(address \<Rightarrow> bool) \<Rightarrow> (address \<Rightarrow> int) \<Rightarrow> (address \<times> AccountState) list \<Rightarrow> address \<Rightarrow> int" where
  "installs home L xs = foldl (\<lambda>L (a, s). if home a then L(a := Balance s) else L) L xs"

lemma addAccountStep_ledger:
  assumes "trieLawful E" and "wfTrie E st" and "grown E t0 (st, n)"
    and "addAccountStep E cfg bc as st (i, a) = Inr st'" and "i < length as"
  shows "balOf E st' = (if isHome cfg bc a then (balOf E st)(a := Balance (as ! i)) else balOf E st) \<and>
         wfTrie E st' \<and> grown E t0 (st', Suc n)"
proof -
  from assms(4) obtain sid where sid: "Get_PartitionMap cfg bc a = Inr sid"
    by (auto simp: addAccountStep_def res_simps)
  have home: "isHome cfg bc a \<longleftrightarrow> sid = cc_ShardID (ChainCfg bc)"
    using sid by (simp add: isHome_def)
  show ?thesis
  proof (cases "isHome cfg bc a")
    case True
    define s where "s = \<lparr>as_AcAddress = '''', as_Nonce = as_Nonce (as ! i), Balance = Balance (as ! i),
                         StorageRoot = '''', CodeHash = ''''\<rparr>"
    have "st' = trieUpdate E st a (encAS E s)"
      using assms(4,5) sid True home by (auto simp: addAccountStep_def s_def res_simps)
    moreover have "Balance s = Balance (as ! i)" by (simp add: s_def)
    ultimately show ?thesis
      using True assms(1,2) grown_update [OF assms(1,3)] by (simp add: trie_update_facts)
  next
    case False
    then have "st' = st" using assms(4) sid home by (simp add: addAccountStep_def)
    with False assms(2,3) show ?thesis by (simp add: grown_def)
  qed
qed

lemma addAccountsTrie_ledger:
  assumes "trieLawful E" and "wfTrie E st" and "grown E t0 (st, n)"
    and "foldR (addAccountStep E cfg bc as) st (enumerate k ac) = Inr st'" and "k + length ac \<le> length as"
  shows "balOf E st' = installs (isHome cfg bc) (balOf E st) (zip ac (drop k as)) \<and> wfTrie E st' \<and> reachT E t0 st'"
  using assms
proof (induction ac arbitrary: k st n)
  case Nil
  then show ?case by (simp add: installs_def grown_def)
next
  case (Cons a ac)
  from Cons.prems(4) obtain st1 where s: "addAccountStep E cfg bc as st (k, a) = Inr st1"
    "foldR (addAccountStep E cfg bc as) st1 (enumerate (Suc k) ac) = Inr st'"
    by (auto simp: res_simps)
  have k: "k < length as" "Suc k + length ac \<le> length as" using Cons.prems(5) by auto
  note st1 = addAccountStep_ledger [OF Cons.prems(1-3) s(1) k(1)]
  have "drop k as = as ! k # drop (Suc k) as" using k(1) by (simp add: Cons_nth_drop_Suc)
  with Cons.IH [OF Cons.prems(1) _ _ s(2) k(2), of "Suc n"] st1 show ?case
    by (auto simp: installs_def)
qed

lemma installs_outside: "a \<notin> set (map fst xs) \<Longrightarrow> installs home L xs a = L a"
  by (induction xs arbitrary: L) (auto simp: installs_def)

lemma installs_away: "\<not> home a \<Longrightarrow> installs home L xs a = L a"
  by (induction xs arbitrary: L) (auto simp: installs_def)

lemma installs_inside:
  "distinct (map fst xs) \<Longrightarrow> i < length xs \<Longrightarrow> home (fst (xs ! i)) \<Longrightarrow>
   installs home L xs (fst (xs ! i)) = Balance (snd (xs ! i))"
proof (induction xs arbitrary: L i)
  case Nil
  then show ?case by simp
next
  case (Cons x xs)
  show ?case
  proof (cases i)
    case 0
    have "installs home L (x # xs) = installs home (if home (fst x) then L(fst x := Balance (snd x)) else L) xs"
      by (cases x) (simp add: installs_def)
    with 0 Cons.prems show ?thesis
      using installs_outside [of "fst x" xs home] by simp
  next
    case (Suc j)
    then show ?thesis using Cons by (cases x) (auto simp: installs_def)
  qed
qed

lemma AddAccounts_state:
  assumes laws: "trieLawful E" "triedb_laws E" and wf: "wfDb E (triedb bc)"
    and start: "stateAt E (triedb bc) (toHash E (StateRoot (Header (CurrentBlock bc)))) = Some L"
    and run: "AddAccounts E cfg ac as m bc = Inr bc'" and len: "length ac \<le> length as"
  shows "stateAt E (triedb bc') (toHash E (StateRoot (Header (CurrentBlock bc')))) =
         Some (installs (isHome cfg bc) L (zip ac as))"
proof -
  obtain rt db bloom s where
    bc': "bc' = bc\<lparr>triedb := db, CurrentBlock := CurrentBlock bc', Storage := s\<rparr>" and
    h: "Header (CurrentBlock bc') = \<lparr>ParentBlockHash = Hash (CurrentBlock bc), StateRoot = rt,
        TxRoot = GetTxTreeRoot E [], Bloom = bloom, Number = Number (Header (CurrentBlock bc)) + 1,
        bh_Time = 0, Miner = 0\<rparr>" and
    r: "if ac = [] then rt = StateRoot (Header (CurrentBlock bc)) \<and> db = triedb bc
     else \<exists>st st' rrt ns d.
        trieNew E (toHash E (StateRoot (Header (CurrentBlock bc)))) (triedb bc) = Some st \<and>
        addAccountsTrie E cfg bc ac as st = Inr st' \<and>
        commitTrie E st' (triedb bc) = Inr (rrt, ns, d) \<and>
        (rt, db) = (if ns then (rrt, d) else (StateRoot (Header (CurrentBlock bc)), triedb bc))"
    using AddAccounts_inv [OF run] .
  have db: "triedb bc' = db" using arg_cong [OF bc', of triedb] by simp
  show ?thesis
  proof (cases "ac = []")
    case True
    with r start db h show ?thesis by (simp add: installs_def)
  next
    case False
    with r obtain st st' rrt ns d where
      st: "trieNew E (toHash E (StateRoot (Header (CurrentBlock bc)))) (triedb bc) = Some st" and
      st': "addAccountsTrie E cfg bc ac as st = Inr st'" and
      c: "commitTrie E st' (triedb bc) = Inr (rrt, ns, d)" and
      rt: "(rt, db) = (if ns then (rrt, d) else (StateRoot (Header (CurrentBlock bc)), triedb bc))"
      by auto
    have L: "L = balOf E st" using start st by (simp add: stateAt_def)
    have wfst: "wfTrie E st" using wf st by (auto simp: wfDb_def)
    have a: "balOf E st' = installs (isHome cfg bc) L (zip ac as)" "wfTrie E st'" "reachT E st st'"
      using addAccountsTrie_ledger [OF laws(1) wfst, of st 0 cfg bc as 0 ac st'] st' len L
      by (auto simp: addAccountsTrie_def grown_def reachT_refl)
    note cs = commitTrie_state [OF laws(2) st a(3,2) wf c]
    show ?thesis
    proof (cases ns)
      case True
      with cs rt db h a(1) show ?thesis by simp
    next
      case False
      then have "trieCommit E st' = (rrt, False)" "d = triedb bc"
        using c by (auto simp: commitTrie_def res_simps split: prod.splits if_splits)
      then have "trieGet E st' = trieGet E st" using triedb_lawsD(3) [OF laws(2) st a(3)] by blast
      then have "balOf E st' = L" unfolding L by (rule balOf_cong)
      with False rt db h start a(1) show ?thesis by simp
    qed
  qed
qed

text \<open>Installing transferred accounts in a new block gives each listed account of this shard its
  transferred balance under the block's state root, and changes no other balance; the accounts listed
  that belong to other shards are left alone.\<close>

theorem AddAccounts_installs:
  assumes laws: "trieLawful E" "triedb_laws E" and wf: "wfDb E (triedb bc)"
    and start: "stateAt E (triedb bc) (toHash E (StateRoot (Header (CurrentBlock bc)))) = Some L"
    and run: "AddAccounts E cfg ac as m bc = Inr bc'" and len: "length ac \<le> length as" "distinct ac"
  shows "\<exists>L'. stateAt E (triedb bc') (toHash E (StateRoot (Header (CurrentBlock bc')))) = Some L' \<and>
     (\<forall>i < length ac. L' (ac ! i) = (if isHome cfg bc (ac ! i) then Balance (as ! i) else L (ac ! i))) \<and>
     (\<forall>a. a \<notin> set ac \<longrightarrow> L' a = L a)"
proof -
  let ?xs = "zip ac as"
  have fst: "map fst ?xs = ac" using len(1) by (simp add: map_fst_zip_take)
  note installs_away [of "isHome cfg bc" _ L ?xs]
  then have "\<forall>i < length ac. installs (isHome cfg bc) L ?xs (ac ! i) =
      (if isHome cfg bc (ac ! i) then Balance (as ! i) else L (ac ! i))"
    using installs_inside [of ?xs _ "isHome cfg bc" L] fst len by auto
  moreover have "\<forall>a. a \<notin> set ac \<longrightarrow> installs (isHome cfg bc) L ?xs a = L a"
    using installs_outside [of _ ?xs "isHome cfg bc" L] fst by simp
  ultimately show ?thesis
    using AddAccounts_state [OF laws wf start run len(1)] by blast
qed

lemma sample_accounts: "\<exists>bc'. AddAccounts modelEnv sampleCfg [''a'', ''c''] [newAccount 1, newAccount 2] 0 sampleChain = Inr bc'"
proof -
  obtain bl where bl: "GetBloomFilter modelEnv [] = Inr bl" using GetBloomFilter_total by blast
  have "\<exists>s. storeBlock modelEnv b Map.empty = Inr s" for b using modelEnv_store .
  then obtain f where f: "storeBlock modelEnv b Map.empty = Inr (f b)" for b by metis
  show ?thesis
    by (simp add: AddAccounts_def sample_defs genesis_fields modelEnv_ops addAccountsTrie_def addAccountStep_def
        Get_PartitionMap_def nthR_def commitTrie_def bl f Let_def)
qed

theorem AddAccounts_installs_witness:
  "\<exists>bc' L'. AddAccounts modelEnv sampleCfg [''a'', ''c''] [newAccount 1, newAccount 2] 0 sampleChain = Inr bc' \<and>
     stateAt modelEnv (triedb bc') (toHash modelEnv (StateRoot (Header (CurrentBlock bc')))) = Some L' \<and>
     (\<forall>a. a \<notin> {''a'', ''c''} \<longrightarrow> L' a = Init_Balance)"
proof -
  obtain bc' where r: "AddAccounts modelEnv sampleCfg [''a'', ''c''] [newAccount 1, newAccount 2] 0 sampleChain = Inr bc'"
    using sample_accounts by blast
  from AddAccounts_installs [OF modelEnv_lawful modelEnv_triedb sample_wfDb sample_start r] r show ?thesis
    by simp blast
qed

section \<open>History and restart\<close>

text \<open>C22: However a chain has grown (blocks added or refused, accounts installed, blocks produced,
  transactions queued, the partition map changed), walking back from its current block through the store
  along the parent hashes retrieves every block ever appended, newest first, with consecutive heights down
  to the genesis block.\<close>

theorem chain_history:
  assumes "chainReach E cfg bc bs" and "bolt_laws E"
  shows "walkBack (blockAt E (Storage bc)) (Hash (CurrentBlock bc)) (length bs) = Some bs \<and>
     hd bs = CurrentBlock bc \<and> linked bs \<and> last bs = genesis E"
  using chainReach_inv [OF assms] by (simp add: history_def)

text \<open>C23: Reopening the store of a reachable chain on a state database that has the root of its current
  block gives back exactly that block and that store, on the database given, with an empty pool and an empty
  partition map: the database opens at the current block's root, every account it fetches is the one the stopped chain
  would fetch from that database, and accounts that had been moved fall back to their hash-based shard. On a
  database without that root reopening panics.\<close>

theorem restart_recovers:
  assumes "chainReach E cfg bc bs" and "bolt_laws E"
  shows "(trieNew E (toHash E (StateRoot (Header (CurrentBlock bc)))) db = None \<longrightarrow>
       NewBlockChain E cc db (Storage bc) = Inl LogPanic) \<and>
     (trieNew E (toHash E (StateRoot (Header (CurrentBlock bc)))) db \<noteq> None \<longrightarrow>
       (\<exists>bc'. NewBlockChain E cc db (Storage bc) = Inr bc' \<and> CurrentBlock bc' = CurrentBlock bc \<and>
          Storage bc' = Storage bc \<and> triedb bc' = db \<and> ChainCfg bc' = cc \<and> Txpool bc' = NewTxPool \<and>
          TxQueue (Txpool bc') = [] \<and>
          stateAt E (triedb bc') (toHash E (StateRoot (Header (CurrentBlock bc')))) \<noteq> None \<and>
          (\<forall>addrs. FetchAccounts E bc' addrs = FetchAccounts E (bc\<lparr>triedb := db\<rparr>) addrs) \<and>
          (\<forall>a. Get_PartitionMap cfg bc' a = bindR (Addr2Shard (ShardNum cfg) a) (\<lambda>s. Inr (word_of_int s)))))"
  using reopen [of E bc bs db cc] reopen_rootless [of E bc bs db cc] chainReach_inv [OF assms]
  by (auto simp: Get_PartitionMap_def FetchAccounts_def stateAt_def NewTxPool_def)

lemma sample_decodable: "decodable modelEnv b"
  by (simp add: decodable_def modelEnv_ops)

definition sampleFresh :: "(bytes \<times> bytes \<Rightarrow> bytes option) \<Rightarrow> mchain" where
  "sampleFresh s = \<lparr>triedb = sampleDb, ChainCfg = sampleCC, CurrentBlock = genesis modelEnv, Storage = s,
     Txpool = NewTxPool, PartitionMap = Map.empty\<rparr>"

lemma sample_newchain: "\<exists>s. NewBlockChain modelEnv sampleCC sampleDb Map.empty = Inr (sampleFresh s) \<and>
    storeBlock modelEnv (genesis modelEnv) Map.empty = Inr s"
proof -
  obtain s where s: "storeBlock modelEnv (genesis modelEnv) Map.empty = Inr s" using modelEnv_store by blast
  have "newestOf modelEnv s = Some (Hash (genesis modelEnv))"
    using bst.newest_put [OF modelEnv_bolt s] .
  then have n: "GetNewestBlockHash modelEnv s = Inr (Hash (genesis modelEnv))"
    by (auto simp: newestOf_def split: sum.splits)
  have "blockAt modelEnv s (Hash (genesis modelEnv)) = Some (genesis modelEnv)"
    using bst.at_put [OF modelEnv_bolt sample_decodable s] by simp
  then have "GetBlock modelEnv (Hash (genesis modelEnv)) s = Inr (Inr (genesis modelEnv))"
    by (auto simp: blockAt_def split: sum.splits)
  with n s show ?thesis
    by (simp add: NewBlockChain_def GetNewestBlockHash_def [of _ Map.empty] modelEnv_ops NewGenisisBlock_genesis
        AddGenisisBlock_def Let_def sampleFresh_def)
qed

text \<open>A chain of two blocks: the genesis block and a block that installs an account.\<close>

lemma sample_from: "\<exists>bc b. chainFrom modelEnv sampleCfg Map.empty bc [b, genesis modelEnv] \<and> b \<noteq> genesis modelEnv \<and>
    trieNew modelEnv (toHash modelEnv (StateRoot (Header (CurrentBlock bc)))) (triedb bc) \<noteq> None \<and>
    Hash b = unary 1 \<and> StateRoot (Header (CurrentBlock bc)) = mHash [] \<and>
    (\<forall>h. bucketGet modelEnv (Storage bc) blockBucket h =
      (if h = unary 1 then Some (encB modelEnv b) else if h = unary 0 then Some (encB modelEnv (genesis modelEnv)) else None))"
proof -
  obtain s where n': "NewBlockChain modelEnv sampleCC sampleDb Map.empty = Inr (sampleFresh s)"
    and s: "storeBlock modelEnv (genesis modelEnv) Map.empty = Inr s"
    using sample_newchain by blast
  define bc where "bc = sampleFresh s"
  have n: "NewBlockChain modelEnv sampleCC sampleDb Map.empty = Inr bc" using n' by (simp add: bc_def)
  have e: "GetNewestBlockHash modelEnv Map.empty = Inl ''cannot find the newest block hash''"
    by (simp add: GetNewestBlockHash_def modelEnv_ops)
  note nf = NewBlockChain_fresh [OF modelEnv_bolt e n sample_decodable]
  have r: "chainFrom modelEnv sampleCfg Map.empty bc [genesis modelEnv]"
    using chainFrom.start [OF e n sample_decodable] nf by simp
  have t: "triedb bc = sampleDb" "Storage bc = s" by (simp_all add: bc_def sampleFresh_def)
  obtain bl where bl: "GetBloomFilter modelEnv [] = Inr bl" using GetBloomFilter_total by blast
  obtain bc2 where a: "AddAccounts modelEnv sampleCfg [] [] 0 bc = Inr bc2"
    using modelEnv_store by (simp add: AddAccounts_def bl Let_def) (metis bindR.simps(2))
  have h: "Number (Header (CurrentBlock bc2)) = 1" "Hash (CurrentBlock bc2) = unary 1"
    "StateRoot (Header (CurrentBlock bc2)) = mHash []" "triedb bc2 = sampleDb"
    using a nf t by (auto simp: AddAccounts_def bl Let_def NewBlock_def genesis_fields modelEnv_ops res_simps)
  have "blockAt modelEnv (Storage bc) (unary 1) = None"
    using bst.at_put [OF modelEnv_bolt sample_decodable s] t(2)
    by (simp add: genesis_fields unary_def blockAt_def GetBlock_def modelEnv_ops)
  then have "fresh modelEnv (CurrentBlock bc2) bc" using h by (simp add: fresh_def sample_decodable)
  with chainFrom.accounts [OF r a] have "chainFrom modelEnv sampleCfg Map.empty bc2 [CurrentBlock bc2, genesis modelEnv]" .
  moreover have "CurrentBlock bc2 \<noteq> genesis modelEnv" using h(1) genesis_fields(2) by (metis zero_neq_one)
  moreover have "trieNew modelEnv (toHash modelEnv (StateRoot (Header (CurrentBlock bc2)))) (triedb bc2) \<noteq> None"
    using h by (simp add: modelEnv_ops sampleDb_def)
  moreover have "bucketGet modelEnv (Storage bc2) blockBucket k = (if k = unary 1 then Some (encB modelEnv (CurrentBlock bc2))
      else if k = unary 0 then Some (encB modelEnv (genesis modelEnv)) else None)" for k
  proof -
    have "storeBlock modelEnv (CurrentBlock bc2) (Storage bc) = Inr (Storage bc2)"
      using a by (auto simp: AddAccounts_def bl Let_def NewBlock_def res_simps)
    from storeBlock_buckets(1) [OF modelEnv_bolt this, of k] storeBlock_buckets(1) [OF modelEnv_bolt s, of k] h(2) t(2)
    show ?thesis by (simp add: genesis_fields) (simp add: modelEnv_ops)
  qed
  ultimately show ?thesis using h by blast
qed

lemma sample_reach: "\<exists>bc b. chainReach modelEnv sampleCfg bc [b, genesis modelEnv] \<and> b \<noteq> genesis modelEnv \<and>
    trieNew modelEnv (toHash modelEnv (StateRoot (Header (CurrentBlock bc)))) (triedb bc) \<noteq> None \<and>
    StateRoot (Header (CurrentBlock bc)) = mHash []"
proof -
  obtain bc b where h: "chainFrom modelEnv sampleCfg Map.empty bc [b, genesis modelEnv]" "b \<noteq> genesis modelEnv"
    "trieNew modelEnv (toHash modelEnv (StateRoot (Header (CurrentBlock bc)))) (triedb bc) \<noteq> None"
    "StateRoot (Header (CurrentBlock bc)) = mHash []"
    using sample_from by blast
  from chainReachI [OF h(1)] h(2-4) show ?thesis by blast
qed

theorem chain_history_witness:
  "\<exists>(bc :: mchain) b. b \<noteq> genesis modelEnv \<and>
     walkBack (blockAt modelEnv (Storage bc)) (Hash (CurrentBlock bc)) 2 = Some [b, genesis modelEnv]"
proof -
  obtain bc b where r: "chainReach modelEnv sampleCfg bc [b, genesis modelEnv]" "b \<noteq> genesis modelEnv"
    using sample_reach by blast
  have "length [b, genesis modelEnv] = 2" by simp
  with chain_history [OF r(1) modelEnv_bolt]
  have "walkBack (blockAt modelEnv (Storage bc)) (Hash (CurrentBlock bc)) 2 = Some [b, genesis modelEnv]"
    by (simp only:)
  with r(2) show ?thesis by blast
qed

theorem restart_recovers_witness:
  "\<exists>bc b bc'. chainReach modelEnv sampleCfg bc [b, genesis modelEnv] \<and>
     NewBlockChain modelEnv sampleCC (triedb bc) (Storage bc) = Inr bc' \<and> CurrentBlock bc' = CurrentBlock bc \<and>
     FetchAccounts modelEnv bc' [''a''] = FetchAccounts modelEnv bc [''a''] \<and>
     NewBlockChain modelEnv sampleCC Map.empty (Storage bc) = Inl LogPanic"
proof -
  obtain bc b where r: "chainReach modelEnv sampleCfg bc [b, genesis modelEnv]"
    "trieNew modelEnv (toHash modelEnv (StateRoot (Header (CurrentBlock bc)))) (triedb bc) \<noteq> None"
    using sample_reach by blast
  note t = restart_recovers [OF r(1) modelEnv_bolt]
  have n: "trieNew modelEnv x Map.empty = None" for x by (simp add: modelEnv_ops)
  from t [of "triedb bc" sampleCC] r(2) obtain bc' where
    "NewBlockChain modelEnv sampleCC (triedb bc) (Storage bc) = Inr bc'" "CurrentBlock bc' = CurrentBlock bc"
    "\<forall>addrs. FetchAccounts modelEnv bc' addrs = FetchAccounts modelEnv (bc\<lparr>triedb := triedb bc\<rparr>) addrs"
    by blast
  moreover have "NewBlockChain modelEnv sampleCC Map.empty (Storage bc) = Inl LogPanic"
    using t [of Map.empty sampleCC] n by simp
  moreover have "bc\<lparr>triedb := triedb bc\<rparr> = bc" by simp
  ultimately show ?thesis using r(1) by metis
qed

end
