(* ===== verification/MerkleProps.thy ===== *)
theory MerkleProps
  imports MerkleProofs ChainProps
begin

text \<open>
  The search of a chain's history for a transaction, and the properties of the inclusion
  proofs: the round trip between generator and verifier, what a search finds, and what the
  verifier does not check.
\<close>

section \<open>The search of the chain\<close>

definition hasTx :: "bytes \<Rightarrow> Block \<Rightarrow> bool" where
  "hasTx h b \<longleftrightarrow> (\<exists>tx \<in> set (Body b). TxHash tx = h)"

lemma proofScan_finds:
  assumes "bitset_laws E" and "provable E"
  shows "walkBack (blockAt E s) bh n = Some bs \<Longrightarrow> \<forall>b \<in> set bs. wellFormedBlock E b \<Longrightarrow>
    proofScan E s h n bh =
      (case filter (hasTx h) bs of
         [] \<Rightarrow> Inr (notFound h cannotFind)
       | b # _ \<Rightarrow> TxProofGenerateOnTheBlock E h b)"
proof (induction n arbitrary: bh bs)
  case 0
  then show ?case by simp
next
  case (Suc n)
  then obtain b cs where b: "blockAt E s bh = Some b" "bs = b # cs"
    and cs: "walkBack (blockAt E s) (ParentBlockHash (Header b)) n = Some cs"
    by (auto split: option.splits)
  have g: "GetBlock E bh s = Inr (Inr b)"
    using b(1) by (auto simp: blockAt_def split: sum.splits)
  obtain r where r: "TxProofGenerateOnTheBlock E h b = Inr r" using OnTheBlock_total by blast
  show ?case
  proof (cases "hasTx h b")
    case True
    then have "Found r"
      using OnTheBlock_complete [OF assms, of b h] Suc.prems(2) b(2) r by (auto simp: hasTx_def)
    with True g r b(2) show ?thesis by simp
  next
    case False
    then have "\<not> Found r" using OnTheBlock_sound [OF r] by (auto simp: hasTx_def)
    with False g r b(2) Suc.IH [OF cs] Suc.prems(2) show ?thesis by simp
  qed
qed

lemma linked_height:
  "linked bs \<Longrightarrow> bs \<noteq> [] \<Longrightarrow> Number (Header (hd bs)) = word_of_nat (length bs - 1) + Number (Header (last bs))"
  by (induction bs rule: linked.induct) (auto simp: algebra_simps)

lemma walkBack_prefix: "walkBack at h (Suc n) = Some bs \<Longrightarrow> walkBack at h n = Some (butlast bs)"
proof (induction n arbitrary: h bs)
  case 0
  then show ?case by (auto split: option.splits)
next
  case (Suc n)
  then show ?case by (auto split: option.splits)
qed

section \<open>Properties\<close>

text \<open>C26: Over a block whose header commits to its body, asking for a proof of a hash answers Found exactly
  when a transaction of the block has that hash, and every proof so found is accepted by the verifier.\<close>

theorem proof_roundtrip:
  assumes "trie_laws E" and "proof_laws E" and "bitset_laws E" and "provable E" and "wellFormedBlock E b"
  shows "\<exists>r. TxProofGenerateOnTheBlock E h b = Inr r \<and>
     (Found r \<longleftrightarrow> (\<exists>tx \<in> set (Body b). TxHash tx = h)) \<and>
     (if Found r then TxProofVerify E h r = Inr (True, None) else fst (projr (TxProofVerify E h r)) = False)"
proof (cases "\<exists>tx \<in> set (Body b). TxHash tx = h")
  case True
  then obtain kvs where "trieProve E (txTree E (Body b)) h = Some kvs"
    "TxProofGenerateOnTheBlock E h b = Inr (foundIn h b kvs)"
    using OnTheBlock_complete [OF assms(3-5)] by blast
  with True assms(5) verify_foundIn [OF assms(1,2)] show ?thesis
    by (simp add: wellFormedBlock_def)
next
  case False
  obtain r where r: "TxProofGenerateOnTheBlock E h b = Inr r" using OnTheBlock_total by blast
  with False OnTheBlock_sound [OF r] show ?thesis by (auto simp: TxProofVerify_def)
qed

lemma search_value:
  assumes "chainReach E cfg bc bs" and "bolt_laws E" and "bitset_laws E" and "provable E"
    and "\<forall>b \<in> set bs. wellFormedBlock E b" and "length bs \<le> 2 ^ 64"
  shows "TxProofGenerate E h bc =
    (case filter (hasTx h) bs of
       [] \<Rightarrow> Inr (notFound h cannotFind)
     | b # _ \<Rightarrow> TxProofGenerateOnTheBlock E h b)"
proof -
  note inv = chainReach_inv [OF assms(1,2)]
  then have ne: "bs \<noteq> []" and w: "walkBack (blockAt E (Storage bc)) (Hash (CurrentBlock bc)) (length bs) = Some bs"
    by (simp_all add: history_def)
  then obtain n where n: "length bs = Suc n" by (cases bs) auto
  have g: "Body (genesis E) = []" "Number (Header (genesis E)) = 0"
    by (simp_all add: genesis_def Let_def)
  have "Number (Header (CurrentBlock bc)) = word_of_nat n"
    using linked_height [of bs] inv n g(2) by (simp add: history_def)
  moreover have "n < 2 ^ 64" using n assms(6) by simp
  ultimately have num: "unat (Number (Header (CurrentBlock bc))) = n"
    by (simp add: unat_of_nat take_bit_nat_eq_self)
  have "proofScan E (Storage bc) h n (Hash (CurrentBlock bc)) =
      (case filter (hasTx h) (butlast bs) of
         [] \<Rightarrow> Inr (notFound h cannotFind)
       | b # _ \<Rightarrow> TxProofGenerateOnTheBlock E h b)"
    using proofScan_finds [OF assms(3,4) walkBack_prefix] w n assms(5) by (metis in_set_butlastD)
  moreover have "filter (hasTx h) bs = filter (hasTx h) (butlast bs)"
  proof -
    have "filter (hasTx h) (butlast bs @ [last bs]) = filter (hasTx h) (butlast bs)"
      using inv g(1) by (simp add: hasTx_def)
    then show ?thesis using ne by simp
  qed
  ultimately show ?thesis by (simp add: TxProofGenerate_def num)
qed

text \<open>C27: Searching a reachable chain whose blocks commit to their bodies returns a result that is Found exactly
  when some block of the chain's history has a transaction with the hash; the proof is then that of the newest
  such block, made from the trie of its transactions, and the verifier accepts it. Otherwise the result says that
  the transaction cannot be found.\<close>

theorem proof_search:
  assumes reach: "chainReach E cfg bc bs" and laws: "bolt_laws E" "bitset_laws E" "trie_laws E" "proof_laws E"
    and prove: "provable E" and wf: "\<forall>b \<in> set bs. wellFormedBlock E b" and len: "length bs \<le> 2 ^ 64"
  shows "\<exists>r. TxProofGenerate E h bc = Inr r \<and> (Found r \<longleftrightarrow> (\<exists>b \<in> set bs. \<exists>tx \<in> set (Body b). TxHash tx = h)) \<and>
    (case filter (hasTx h) bs of
       [] \<Rightarrow> r = notFound h cannotFind
     | b # _ \<Rightarrow> Found r \<and> pr_BlockHash r = Hash b \<and> BlockHeight r = Number (Header b) \<and> pr_TxHash r = h \<and>
         trieProve E (txTree E (Body b)) h = Some (zip (KeyList r) (ValueList r)) \<and>
         TxProofVerify E h r = Inr (True, None))"
proof (cases "filter (hasTx h) bs")
  case Nil
  then have "\<not> (\<exists>b \<in> set bs. \<exists>tx \<in> set (Body b). TxHash tx = h)"
    by (auto simp: filter_empty_conv hasTx_def)
  with Nil search_value [OF reach laws(1,2) prove wf len, of h] show ?thesis by simp
next
  case (Cons b cs)
  then have b: "b \<in> set bs" "hasTx h b" 
    using filter_eq_ConsD [OF Cons] by auto
  then have ex: "\<exists>tx \<in> set (Body b). TxHash tx = h" and wb: "wellFormedBlock E b" using wf by (auto simp: hasTx_def)
  obtain kvs where k: "trieProve E (txTree E (Body b)) h = Some kvs"
    "TxProofGenerateOnTheBlock E h b = Inr (foundIn h b kvs)"
    using OnTheBlock_complete [OF laws(2) prove wb ex] by blast
  have "TxProofVerify E h (foundIn h b kvs) = Inr (True, None)"
    using verify_foundIn [OF laws(3,4) k(1)] wb ex by (simp add: wellFormedBlock_def)
  with Cons k b(1) ex search_value [OF reach laws(1,2) prove wf len, of h] show ?thesis
    by (auto simp: foundIn_def zip_map_fst_snd)
qed

text \<open>The verifier does not look at the hash it is asked about, and takes the root from the proof: a
  proof found for one transaction is accepted for every other, and nothing ties it to a block header of
  the verifier's own.\<close>

theorem verify_ignores_hash:
  assumes "trie_laws E" and "proof_laws E" and "TxRoot (Header b) = GetTxTreeRoot E (Body b)"
    and "TxProofGenerateOnTheBlock E h b = Inr r" and "Found r"
  shows "\<forall>h'. TxProofVerify E h' r = Inr (True, None)"
  using OnTheBlock_sound [OF assms(4,5)] verify_foundIn [OF assms(1,2)] assms(3) by auto

text \<open>A block of the sample chain that commits to two transactions.\<close>

definition sampleBlock :: Block where
  "sampleBlock = \<lparr>Header = \<lparr>ParentBlockHash = unary 0, StateRoot = mHash [],
       TxRoot = GetTxTreeRoot modelEnv (take 2 sampleTxs), Bloom = projr (GetBloomFilter modelEnv (take 2 sampleTxs)),
       Number = 1, bh_Time = 9, Miner = 0\<rparr>, Body = take 2 sampleTxs, Hash = unary 1\<rparr>"

lemma sampleBlock_wf: "wellFormedBlock modelEnv sampleBlock"
  using GetBloomFilter_total [of modelEnv "take 2 sampleTxs"]
  by (auto simp: wellFormedBlock_def sampleBlock_def)

lemma genesis_wf: "wellFormedBlock E (genesis E)"
  by (simp add: wellFormedBlock_def genesis_def Let_def GetBloomFilter_def)

lemma modelEnv_provable: "provable modelEnv"
  by (simp add: provable_def modelEnv_def)

lemma sampleBlock_has: "hasTx ''a>b'' sampleBlock" "\<not> hasTx ''x'' sampleBlock"
  by (auto simp: hasTx_def sampleBlock_def sampleTxs_def NewTransaction_def zeroTx_def modelEnv_def Let_def)

lemma sample_reach_tx: "\<exists>bc :: mchain. chainReach modelEnv sampleCfg bc [sampleBlock, genesis modelEnv]"
proof -
  obtain s where n: "NewBlockChain modelEnv sampleCC sampleDb Map.empty = Inr (sampleFresh s)"
    and s: "storeBlock modelEnv (genesis modelEnv) Map.empty = Inr s"
    using sample_newchain by blast
  have e: "GetNewestBlockHash modelEnv Map.empty = Inl ''cannot find the newest block hash''"
    by (simp add: GetNewestBlockHash_def modelEnv_ops)
  have r: "chainFrom modelEnv sampleCfg Map.empty (sampleFresh s) [genesis modelEnv]"
    using chainFrom.start [OF e n sample_decodable] by (simp add: sampleFresh_def)
  have acc: "accepts sampleBlock (sampleFresh s)"
    by (simp add: accepts_def sampleBlock_def sampleFresh_def genesis_fields)
  have "blockAt modelEnv s (unary 1) = None"
    using bst.at_put [OF modelEnv_bolt sample_decodable s]
    by (simp add: genesis_fields unary_def blockAt_def GetBlock_def modelEnv_ops)
  then have fr: "fresh modelEnv sampleBlock (sampleFresh s)"
    by (simp add: fresh_def sample_decodable sampleBlock_def sampleFresh_def)
  obtain s' where "storeBlock modelEnv sampleBlock s = Inr s'" using modelEnv_store by blast
  then have "AddBlock modelEnv sampleCfg sampleBlock (sampleFresh s) =
      Inr ((sampleFresh s)\<lparr>CurrentBlock := sampleBlock, Storage := s'\<rparr>)"
    using acc by (auto simp: AddBlock_def accepts_def modelEnv_ops sampleBlock_def sampleFresh_def sampleDb_def Let_def)
  from chainFrom.add [OF r _ this] fr acc show ?thesis by (auto intro: chainReachI)
qed

theorem proof_roundtrip_witness:
  "\<exists>r. TxProofGenerateOnTheBlock modelEnv ''a>b'' sampleBlock = Inr r \<and> Found r \<and>
     TxProofVerify modelEnv ''a>b'' r = Inr (True, None)"
  using proof_roundtrip [OF modelEnv_trie modelEnv_proof modelEnv_bitset modelEnv_provable sampleBlock_wf, of "''a>b''"]
    sampleBlock_has(1) by (auto simp: hasTx_def)

theorem proof_search_witness:
  "\<exists>(bc :: mchain) r. TxProofGenerate modelEnv ''a>b'' bc = Inr r \<and> Found r \<and> pr_BlockHash r = Hash sampleBlock \<and>
     TxProofVerify modelEnv ''a>b'' r = Inr (True, None) \<and>
     TxProofGenerate modelEnv ''x'' bc = Inr (notFound ''x'' cannotFind)"
proof -
  obtain bc :: mchain where r: "chainReach modelEnv sampleCfg bc [sampleBlock, genesis modelEnv]"
    using sample_reach_tx by blast
  have w: "\<forall>b \<in> set [sampleBlock, genesis modelEnv]. wellFormedBlock modelEnv b"
    by (simp add: sampleBlock_wf genesis_wf)
  have g: "\<not> hasTx ''x'' (genesis modelEnv)" by (simp add: hasTx_def genesis_def Let_def)
  note ps = proof_search [OF r modelEnv_bolt modelEnv_bitset modelEnv_trie modelEnv_proof modelEnv_provable w]
  from ps [of "''a>b''"] ps [of "''x''"] sampleBlock_has g show ?thesis by auto
qed

theorem verify_ignores_hash_witness:
  "\<exists>r. TxProofGenerateOnTheBlock modelEnv ''a>b'' sampleBlock = Inr r \<and>
     TxProofVerify modelEnv ''x'' r = Inr (True, None)"
proof -
  have rt: "TxRoot (Header sampleBlock) = GetTxTreeRoot modelEnv (Body sampleBlock)"
    using sampleBlock_wf by (simp add: wellFormedBlock_def)
  obtain kvs where r: "TxProofGenerateOnTheBlock modelEnv ''a>b'' sampleBlock = Inr (foundIn ''a>b'' sampleBlock kvs)"
    using OnTheBlock_complete [OF modelEnv_bitset modelEnv_provable sampleBlock_wf] sampleBlock_has(1)
    by (auto simp: hasTx_def)
  from verify_ignores_hash [OF modelEnv_trie modelEnv_proof rt r foundIn_Found] r show ?thesis by blast
qed

end
