(* ===== verification/PbftProps.thy ===== *)
theory PbftProps
  imports PbftInvariants MerkleProps
begin

text \<open>
  The properties of the consensus: what a node's history cannot undo, what a commit needs
  and does, the counting of votes, the quorum sizes, view changes and catching up. Each
  property over an arbitrary history holds for the four modules of the code, through the
  interpretation \<open>mods\<close> of the contract.
\<close>

section \<open>Lemmas on single handlers\<close>

lemma set2DMap_fields [simp]:
  "RunningNode (set2DMap b d ptr p) = RunningNode p" "n_ShardID (set2DMap b d ptr p) = n_ShardID p"
  "n_NodeID (set2DMap b d ptr p) = n_NodeID p" "CurChain (set2DMap b d ptr p) = CurChain p"
  "ip_nodeTable (set2DMap b d ptr p) = ip_nodeTable p" "malicious_nums (set2DMap b d ptr p) = malicious_nums p"
  "view (set2DMap b d ptr p) = view p" "sequenceID (set2DMap b d ptr p) = sequenceID p"
  "requestPool (set2DMap b d ptr p) = requestPool p" "isCommitBordcast (set2DMap b d ptr p) = isCommitBordcast p"
  "isReply (set2DMap b d ptr p) = isReply p" "pbftStage (set2DMap b d ptr p) = pbftStage p"
  "sequenceLocked (set2DMap b d ptr p) = sequenceLocked p" "askForLocked (set2DMap b d ptr p) = askForLocked p"
  "cdm (set2DMap b d ptr p) = cdm p" "quorum (set2DMap b d ptr p) = quorum p"
  by (auto simp: set2DMap_def quorum_def)

lemma set2DMap_counts [simp]:
  "cntPrepareConfirm (set2DMap True d ptr p) d = insert ptr (cntPrepareConfirm p d)"
  "cntCommitConfirm (set2DMap False d ptr p) d = insert ptr (cntCommitConfirm p d)"
  by (auto simp: set2DMap_def)

lemma endRound_fields:
  assumes "endRound now po = Inr (p', os)"
  shows "CurChain p' = CurChain (fst po) \<and> sequenceID p' = sequenceID (fst po) \<and> isReply p' = isReply (fst po) \<and>
     cdm p' = cdm (fst po) \<and> view p' = view (fst po) \<and> pbftStage p' = 1 \<and> os = snd po"
  using assms by (auto simp: endRound_def Let_def split: if_splits)

lemma NewPbftNode_fields:
  assumes "NewPbftNode E sid nid pcc tbl db st now = Inr p"
  shows "pool_ok E p" "node_nums p = Nodes_perShard pcc" "malicious_nums p = (Nodes_perShard pcc - 1) div 3"
    "n_ShardID p = sid" "n_NodeID p = nid"
  using assms by (auto simp: NewPbftNode_def res_simps pool_ok_def)

section \<open>Histories\<close>

text \<open>C6: Whatever messages a node receives and in whatever order its tasks run, with any of the four
  modules, the node keeps its identity and its quorum size, every request in its pool is stored under the
  digest of that request, and every height it remembers leads to a stored request.\<close>

theorem request_pool_integrity:
  assumes new: "NewPbftNode E sid nid pcc tbl db st now = Inr p0" and reach: "nodeReach k E cfg p0 p"
  shows "n_ShardID p = sid \<and> n_NodeID p = nid \<and> quorum p = 2 * ((Nodes_perShard pcc - 1) div 3) + 1 \<and>
     (\<forall>d r. requestPool p d = Some r \<longrightarrow> reqDigest E r = d) \<and>
     (\<forall>h d. height2Digest p h = Some d \<longrightarrow> requestPool p d \<noteq> None)"
proof -
  have e: "evolves E p0 p" by (rule nodeReach_evolves [OF reach])
  then have "pool_ok E p" using NewPbftNode_fields(1) [OF new] by (simp add: evolves_def)
  moreover have "n_ShardID p = sid" "n_NodeID p = nid" "quorum p = 2 * ((Nodes_perShard pcc - 1) div 3) + 1"
    using e NewPbftNode_fields(2-) [OF new] by (simp_all add: evolves_def quorum_def)
  ultimately show ?thesis unfolding pool_ok_def by blast
qed

lemma commit_replied:
  assumes "handleCommit ihm sch cm ptr v p = Some (Inr (p', os))" and "c_Digest cm \<in> isReply p"
  shows "CurChain p' = CurChain p \<and> sequenceID p' = sequenceID p \<and> cdm p' = cdm p \<and> os = []"
  using assms by (auto simp: handleCommit_def Let_def split: if_splits)

text \<open>C5: A digest is executed at most once: after it is marked as replied, no commit message for it, in
  any later state of the node, changes the chain, the sequence number or the account-transfer data, or sends
  anything.\<close>

theorem committed_once:
  assumes "d \<in> isReply p0" and "nodeReach k E cfg p0 p" and "c_Digest cm = d"
    and "handleCommit (moduleOf k E cfg) sch cm ptr v p = Some (Inr (p', os))"
  shows "CurChain p' = CurChain p \<and> sequenceID p' = sequenceID p \<and> cdm p' = cdm p \<and> os = []"
proof -
  have "isReply p0 \<subseteq> isReply p"
    using nodeReach_evolves [OF assms(2)] by (auto simp: evolves_def)
  then show ?thesis using commit_replied [OF assms(4)] assms(1,3) by blast
qed

lemma commit_takes_effect:
  assumes run: "handleCommit (moduleOf k E cfg) sch cm ptr v p = Some (Inr (p', os))"
    and effect: "isReply p' \<noteq> isReply p \<or> sequenceID p' \<noteq> sequenceID p \<or> CurChain p' \<noteq> CurChain p \<or> os \<noteq> []"
  shows "view p = v \<and> sequenceID p \<le> c_SeqID cm \<and> c_Digest cm \<notin> isReply p \<and>
     quorum p \<le> word_of_nat (card (insert ptr (cntCommitConfirm p (c_Digest cm)))) \<and>
     isReply p' = insert (c_Digest cm) (isReply p) \<and> pbftStage p' = 1 \<and>
     (case requestPool p (c_Digest cm) of
        Some r \<Rightarrow> sequenceID p' = sequenceID p + 1 \<and>
          (\<exists>q. HandleinCommit (moduleOf k E cfg) sch cm (set2DMap False (c_Digest cm) ptr p) = Inr (q, os) \<and>
               CurChain p' = CurChain q \<and> cdm p' = cdm q)
      | None \<Rightarrow> sequenceID p' = sequenceID p \<and> CurChain p' = CurChain p \<and>
          os = [(ipOf (ip_nodeTable p) (n_ShardID p) (word_of_int (view p)),
                 WRequestOld \<lparr>ro_SeqStartHeight = sequenceID p + 1, ro_SeqEndHeight = c_SeqID cm,
                   ServerNode = \<lparr>NodeID = word_of_int (view p), ShardID = n_ShardID p,
                     IPaddr = ipOf (ip_nodeTable p) (n_ShardID p) (word_of_int (view p))\<rparr>,
                   ro_SenderNode = RunningNode p\<rparr>)])"
proof -
  define q where "q = set2DMap False (c_Digest cm) ptr p"
  have guards: "\<not> mustWait 3 (c_SeqID cm) v p" "\<not> outOfDate (c_SeqID cm) v p"
    "quorum p \<le> word_of_nat (card (insert ptr (cntCommitConfirm p (c_Digest cm))))" "c_Digest cm \<notin> isReply p"
    using run effect unfolding handleCommit_def Let_def by (auto split: if_splits)
  then have g: "view p = v" "sequenceID p \<le> c_SeqID cm" by (auto simp: outOfDate_def)
  show ?thesis
  proof (cases "requestPool p (c_Digest cm)")
    case None
    then have e: "endRound (s_now sch) (askForOld cm q) = Inr (p', os)"
      using run guards unfolding handleCommit_def Let_def q_def by (auto split: if_splits)
    show ?thesis
      using endRound_fields [OF e] g guards None by (auto simp: askForOld_def Let_def q_def)
  next
    case (Some r)
    then obtain t os' where h: "HandleinCommit (moduleOf k E cfg) sch cm q = Inr (t, os')"
      and e: "endRound (s_now sch) (t\<lparr>isReply := insert (c_Digest cm) (isReply t), sequenceID := sequenceID t + 1\<rparr>, os') = Inr (p', os)"
      using run guards unfolding handleCommit_def Let_def q_def by (auto simp: res_simps split: if_splits)
    have "isReply t = isReply p" "sequenceID t = sequenceID p"
      using moved_fields [OF mods.commit_law [OF h]] by (auto simp: q_def)
    then show ?thesis
      using endRound_fields [OF e] h g guards Some by (auto simp: q_def)
  qed
qed

text \<open>C4: What a commit message can do. It takes effect only in the view the task read, for a sequence number
  that is not out of date, for a digest not replied yet and when the counted votes reach the quorum. Then,
  if the node holds the request, the module executes it, the digest is marked and the sequence number grows by
  one; if it does not, the chain stays as it was and the only message sent asks the leader of the view for the
  missing requests.\<close>

theorem commit_effect:
  assumes run: "handleCommit (moduleOf k E cfg) sch cm ptr v p = Some (Inr (p', os))"
    and effect: "isReply p' \<noteq> isReply p \<or> sequenceID p' \<noteq> sequenceID p \<or> CurChain p' \<noteq> CurChain p \<or> os \<noteq> []"
  shows "view p = v \<and> sequenceID p \<le> c_SeqID cm \<and> c_Digest cm \<notin> isReply p \<and>
     quorum p \<le> word_of_nat (card (insert ptr (cntCommitConfirm p (c_Digest cm)))) \<and>
     isReply p' = insert (c_Digest cm) (isReply p) \<and> pbftStage p' = 1 \<and>
     (case requestPool p (c_Digest cm) of
        Some r \<Rightarrow> sequenceID p' = sequenceID p + 1 \<and>
          (\<exists>q. HandleinCommit (moduleOf k E cfg) sch cm (set2DMap False (c_Digest cm) ptr p) = Inr (q, os) \<and>
               CurChain p' = CurChain q \<and> cdm p' = cdm q)
      | None \<Rightarrow> sequenceID p' = sequenceID p \<and> CurChain p' = CurChain p \<and>
          os = [(ipOf (ip_nodeTable p) (n_ShardID p) (word_of_int (view p)),
                 WRequestOld \<lparr>ro_SeqStartHeight = sequenceID p + 1, ro_SeqEndHeight = c_SeqID cm,
                   ServerNode = \<lparr>NodeID = word_of_int (view p), ShardID = n_ShardID p,
                     IPaddr = ipOf (ip_nodeTable p) (n_ShardID p) (word_of_int (view p))\<rparr>,
                   ro_SenderNode = RunningNode p\<rparr>)])"
  by (rule commit_takes_effect [OF assms])

section \<open>Counting votes\<close>

lemma reaches_quorum: "n < 2 ^ 64 \<Longrightarrow> q \<le> (word_of_nat n :: u64) \<longleftrightarrow> unat q \<le> n"
  by (simp add: word_le_nat_alt unat_of_nat take_bit_nat_eq_self)

text \<open>Delivering one message several times; each delivery decodes to a pointer of its own.\<close>

fun feedPrepares ::
  "('d, 's) ihm \<Rightarrow> Prepare \<Rightarrow> int \<Rightarrow> nat list \<Rightarrow> ('d, 's) pnode \<Rightarrow> ('d, 's) step" where
  "feedPrepares ihm pm v [] p = Some (Inr (p, []))"
| "feedPrepares ihm pm v (ptr # ptrs) p =
     (case handlePrepare ihm pm ptr v p of
        None \<Rightarrow> None
      | Some r \<Rightarrow> (case r of
          Inl e \<Rightarrow> Some (Inl e)
        | Inr (p', os) \<Rightarrow> (case feedPrepares ihm pm v ptrs p' of
            None \<Rightarrow> None
          | Some r' \<Rightarrow> Some (bindR r' (\<lambda>(p'', os'). Inr (p'', os @ os'))))))"

text \<open>The node waits for prepare messages for the digest of \<open>pm\<close>.\<close>

definition awaiting :: "Prepare \<Rightarrow> ('d, 's) pnode \<Rightarrow> bool" where
  "awaiting pm p \<longleftrightarrow> pbftStage p = 2 \<and> requestPool p (p_Digest pm) \<noteq> None \<and> p_SeqID pm = sequenceID p \<and>
     p_Digest pm \<notin> isCommitBordcast p \<and> finite (cntPrepareConfirm p (p_Digest pm))"

lemma prepare_counts:
  assumes "awaiting pm p" and "ptr \<notin> cntPrepareConfirm p (p_Digest pm)"
    and "Suc (card (cntPrepareConfirm p (p_Digest pm))) < unat (quorum p)"
  shows "\<exists>p'. handlePrepare (moduleOf k E cfg) pm ptr (view p) p = Some (Inr (p', [])) \<and> awaiting pm p' \<and>
     view p' = view p \<and> RunningNode p' = RunningNode p \<and> quorum p' = quorum p \<and> isCommitBordcast p' = isCommitBordcast p \<and>
     ip_nodeTable p' = ip_nodeTable p \<and> n_ShardID p' = n_ShardID p \<and>
     cntPrepareConfirm p' (p_Digest pm) = insert ptr (cntPrepareConfirm p (p_Digest pm))"
proof -
  have "Suc (card (cntPrepareConfirm p (p_Digest pm))) < 2 ^ 64"
    using assms(3) unat_bound [of "quorum p"] by simp
  then have "\<not> quorum p \<le> word_of_nat (Suc (card (cntPrepareConfirm p (p_Digest pm))))"
    by (subst reaches_quorum) (use assms(3) in simp_all)
  then have "handlePrepare (moduleOf k E cfg) pm ptr (view p) p = Some (Inr (set2DMap True (p_Digest pm) ptr p, []))"
    using assms(1,2) by (auto simp: handlePrepare_def mustWait_def outOfDate_def awaiting_def Let_def mods.prepare_law)
  then show ?thesis using assms(1) by (auto simp: awaiting_def)
qed

lemma prepare_fires:
  assumes "awaiting pm p" and "ptr \<notin> cntPrepareConfirm p (p_Digest pm)"
    and "Suc (card (cntPrepareConfirm p (p_Digest pm))) = unat (quorum p)"
  shows "\<exists>p'. handlePrepare (moduleOf k E cfg) pm ptr (view p) p =
       Some (Inr (p', toAll (WCommit \<lparr>c_Digest = p_Digest pm, c_SeqID = p_SeqID pm, c_SenderNode = RunningNode p\<rparr>) p)) \<and>
     isCommitBordcast p' = insert (p_Digest pm) (isCommitBordcast p) \<and> pbftStage p' = 3"
proof -
  have "quorum p \<le> word_of_nat (Suc (card (cntPrepareConfirm p (p_Digest pm))))"
    by (simp add: assms(3))
  then show ?thesis
    using assms(1,2)
    by (simp add: handlePrepare_def mustWait_def outOfDate_def awaiting_def Let_def mods.prepare_law
        toAll_def broadcastShard_def getNeighborNodes_def)
qed

text \<open>C31: Votes are counted by message, not by node: the same prepare message of one sender, delivered as many
  times as the quorum asks for, makes a node in the prepare stage broadcast its commit for that digest, exactly
  at the last delivery.\<close>

theorem one_sender_fills_quorum:
  assumes "awaiting pm p" and "distinct ptrs" and "set ptrs \<inter> cntPrepareConfirm p (p_Digest pm) = {}"
    and "length ptrs + card (cntPrepareConfirm p (p_Digest pm)) = unat (quorum p)" and "ptrs \<noteq> []"
  shows "\<exists>p'. feedPrepares (moduleOf k E cfg) pm (view p) ptrs p =
       Some (Inr (p', toAll (WCommit \<lparr>c_Digest = p_Digest pm, c_SeqID = p_SeqID pm, c_SenderNode = RunningNode p\<rparr>) p)) \<and>
     isCommitBordcast p' = insert (p_Digest pm) (isCommitBordcast p) \<and> pbftStage p' = 3"
  using assms
proof (induction ptrs arbitrary: p)
  case Nil
  then show ?case by simp
next
  case (Cons ptr ptrs)
  have new: "ptr \<notin> cntPrepareConfirm p (p_Digest pm)" using Cons.prems(3) by simp
  show ?case
  proof (cases "ptrs = []")
    case True
    then have "Suc (card (cntPrepareConfirm p (p_Digest pm))) = unat (quorum p)" using Cons.prems(4) by simp
    then obtain p1 where "handlePrepare (moduleOf k E cfg) pm ptr (view p) p = Some (Inr (p1,
         toAll (WCommit \<lparr>c_Digest = p_Digest pm, c_SeqID = p_SeqID pm, c_SenderNode = RunningNode p\<rparr>) p))"
      "isCommitBordcast p1 = insert (p_Digest pm) (isCommitBordcast p)" "pbftStage p1 = 3"
      using prepare_fires [OF Cons.prems(1) new] by blast
    then show ?thesis using True by simp
  next
    case False
    then have "Suc (card (cntPrepareConfirm p (p_Digest pm))) < unat (quorum p)"
      using Cons.prems(4) by (cases ptrs) auto
    from prepare_counts [OF Cons.prems(1) new this] obtain p1 where
      h: "handlePrepare (moduleOf k E cfg) pm ptr (view p) p = Some (Inr (p1, []))" and a: "awaiting pm p1"
      and f: "view p1 = view p" "RunningNode p1 = RunningNode p" "quorum p1 = quorum p"
        "isCommitBordcast p1 = isCommitBordcast p" "ip_nodeTable p1 = ip_nodeTable p" "n_ShardID p1 = n_ShardID p"
        "cntPrepareConfirm p1 (p_Digest pm) = insert ptr (cntPrepareConfirm p (p_Digest pm))"
      by metis
    have "finite (cntPrepareConfirm p (p_Digest pm))" using Cons.prems(1) by (simp add: awaiting_def)
    then have "length ptrs + card (cntPrepareConfirm p1 (p_Digest pm)) = unat (quorum p1)"
      using Cons.prems(4) new by (simp only: f(3,7) card_insert_disjoint) simp
    moreover have "set ptrs \<inter> cntPrepareConfirm p1 (p_Digest pm) = {}" "distinct ptrs"
      using Cons.prems(2,3) by (simp_all only: f(7)) auto
    ultimately obtain p2 where
      "feedPrepares (moduleOf k E cfg) pm (view p) ptrs p1 = Some (Inr (p2,
         toAll (WCommit \<lparr>c_Digest = p_Digest pm, c_SeqID = p_SeqID pm, c_SenderNode = RunningNode p\<rparr>) p1))"
      "isCommitBordcast p2 = insert (p_Digest pm) (isCommitBordcast p)" "pbftStage p2 = 3"
      using Cons.IH [OF a _ _ _ False] unfolding f by blast
    moreover have "toAll w p1 = toAll w p" for w
      by (simp add: toAll_def broadcastShard_def getNeighborNodes_def f)
    ultimately show ?thesis using h by simp
  qed
qed

section \<open>A sample node\<close>

text \<open>A follower of a shard of four nodes on the sample chain, waiting for a pre-prepare, and two requests.\<close>

type_synonym mnode = "(bytes \<Rightarrow> mtrie option, bytes \<times> bytes \<Rightarrow> bytes option) pnode"

definition sampleNode :: mnode where
  "sampleNode = \<lparr>RunningNode = \<lparr>NodeID = 1, ShardID = 0, IPaddr = ''n1''\<rparr>, n_ShardID = 0, n_NodeID = 1,
     CurChain = sampleFollower, ip_nodeTable = [(0, [(0, ''n0''), (1, ''n1'')])], node_nums = 4,
     malicious_nums = 1, view = 0, lastCommitTime = 0, viewChangeMap = (\<lambda>_. {}), newViewMap = (\<lambda>_. {}),
     sequenceID = 1, requestPool = Map.empty, cntPrepareConfirm = (\<lambda>_. {}), cntCommitConfirm = (\<lambda>_. {}),
     isCommitBordcast = {}, isReply = {}, height2Digest = Map.empty, pbftStage = 1, sequenceLocked = False,
     askForLocked = False, seqIDMap = Map.empty, cdm = NewCLPADataSupport\<rparr>"

definition sampleRequest :: Request where
  "sampleRequest = \<lparr>reqType = BlockRequest, Content = ''r'', ReqTime = 0\<rparr>"

definition samplePrepare :: Prepare where
  "samplePrepare = \<lparr>p_Digest = ''r'', p_SeqID = 1, p_SenderNode = \<lparr>NodeID = 2, ShardID = 0, IPaddr = ''n2''\<rparr>\<rparr>"

definition sampleCommit :: Commit where
  "sampleCommit = \<lparr>c_Digest = ''r'', c_SeqID = 1, c_SenderNode = \<lparr>NodeID = 2, ShardID = 0, IPaddr = ''n2''\<rparr>\<rparr>"

definition sampleSched :: sched where
  "sampleSched = \<lparr>s_now = 9, s_clk = (\<lambda>_. 1), s_ordA = (\<lambda>_. []), s_ordS = (\<lambda>_. [])\<rparr>"

lemma sampleRequest_digest: "reqDigest modelEnv sampleRequest = ''r''"
  by (simp add: sampleRequest_def modelEnv_def)

theorem request_pool_integrity_witness:
  "\<exists>p0 p. NewPbftNode modelEnv 0 1 sampleCC [] sampleDb Map.empty 0 = Inr p0 \<and>
     nodeReach KCLPA modelEnv sampleCfg p0 p \<and> requestPool p ''r'' = Some sampleRequest \<and> quorum p = 3 \<and>
     (\<forall>d r. requestPool p d = Some r \<longrightarrow> reqDigest modelEnv r = d)"
proof -
  obtain s where "NewBlockChain modelEnv sampleCC sampleDb Map.empty = Inr (sampleFresh s)"
    using sample_newchain by blast
  then obtain p0 where n: "NewPbftNode modelEnv 0 1 sampleCC [] sampleDb Map.empty 0 = Inr p0"
    and f: "view p0 = 0" "pbftStage p0 = 1" "sequenceID p0 = 1"
    by (auto simp: NewPbftNode_def sampleFresh_def genesis_fields)
  define pp where "pp = \<lparr>RequestMsg = sampleRequest, pp_Digest = ''r'', pp_SeqID = 2\<rparr>"
  have "runTask KCLPA modelEnv sampleCfg sampleSched 0 (TPrePrepare pp) p0 = Some (Inr (putRequest ''r'' sampleRequest 2 p0, []))"
    by (simp add: runTask_def handlePrePrepare_def mustWait_def outOfDate_def f pp_def sampleRequest_digest)
  then have r: "nodeReach KCLPA modelEnv sampleCfg p0 (putRequest ''r'' sampleRequest 2 p0)"
    using nodeReach.step [OF nodeReach.start nodeStep.task] by blast
  have "requestPool (putRequest ''r'' sampleRequest 2 p0) ''r'' = Some sampleRequest" by (simp add: putRequest_def)
  moreover have "quorum (putRequest ''r'' sampleRequest 2 p0) = 3"
    using request_pool_integrity [OF n r] by (simp add: sampleCC_def)
  ultimately show ?thesis using request_pool_integrity [OF n r] n r by blast
qed

theorem committed_once_witness:
  "\<exists>p p' os. p = sampleNode\<lparr>pbftStage := 3, malicious_nums := 0, isReply := {''r''}\<rparr> \<and>
     handleCommit (moduleOf KCLPA modelEnv sampleCfg) sampleSched sampleCommit 5 0 p = Some (Inr (p', os)) \<and>
     sequenceID p' = sequenceID p \<and> CurChain p' = CurChain p \<and> os = []"
proof -
  define p where "p = sampleNode\<lparr>pbftStage := 3, malicious_nums := 0, isReply := {''r''}\<rparr>"
  have h: "handleCommit (moduleOf KCLPA modelEnv sampleCfg) sampleSched sampleCommit 5 0 p =
      Some (Inr (set2DMap False ''r'' 5 p, []))"
    by (simp add: handleCommit_def mustWait_def outOfDate_def p_def sampleNode_def sampleCommit_def Let_def)
  have "''r'' \<in> isReply p" "c_Digest sampleCommit = ''r''" by (simp_all add: p_def sampleCommit_def)
  from committed_once [OF this(1) nodeReach.start this(2) h] h p_def show ?thesis by blast
qed

theorem commit_effect_witness:
  "\<exists>p p' os. p = sampleNode\<lparr>pbftStage := 3, malicious_nums := 0\<rparr> \<and>
     handleCommit (moduleOf KCLPA modelEnv sampleCfg) sampleSched sampleCommit 5 0 p = Some (Inr (p', os)) \<and>
     isReply p' = {''r''} \<and> sequenceID p' = 1 \<and> length os = 1"
proof -
  define p where "p = sampleNode\<lparr>pbftStage := 3, malicious_nums := 0\<rparr>"
  have "\<exists>p' os. handleCommit (moduleOf KCLPA modelEnv sampleCfg) sampleSched sampleCommit 5 0 p = Some (Inr (p', os)) \<and> os \<noteq> []"
    by (simp add: handleCommit_def mustWait_def outOfDate_def p_def sampleNode_def sampleCommit_def Let_def quorum_def
        set2DMap_def endRound_def askForOld_def isLeader_def)
  then obtain p' os where
    h: "handleCommit (moduleOf KCLPA modelEnv sampleCfg) sampleSched sampleCommit 5 0 p = Some (Inr (p', os))"
    and e: "os \<noteq> []" by blast
  have "requestPool p (c_Digest sampleCommit) = None" "isReply p = {}" "sequenceID p = 1"
    by (simp_all add: p_def sampleNode_def)
  with commit_effect [OF h] e have r: "isReply p' = {''r''}" "sequenceID p' = 1" "length os = 1"
    by (simp_all add: sampleCommit_def)
  show ?thesis
    by (intro exI [of _ p] exI [of _ p'] exI [of _ os] conjI p_def h r)
qed

theorem one_sender_fills_quorum_witness:
  "\<exists>p p' os. p = sampleNode\<lparr>pbftStage := 2, requestPool := [''r'' \<mapsto> sampleRequest]\<rparr> \<and> unat (quorum p) = 3 \<and>
     feedPrepares (moduleOf KCLPA modelEnv sampleCfg) samplePrepare 0 [10, 11, 12] p = Some (Inr (p', os)) \<and>
     isCommitBordcast p' = {''r''} \<and> pbftStage p' = 3"
proof -
  define p where "p = sampleNode\<lparr>pbftStage := 2, requestPool := [''r'' \<mapsto> sampleRequest]\<rparr>"
  have q: "unat (quorum p) = 3" "view p = 0" "isCommitBordcast p = {}"
    by (simp_all add: p_def sampleNode_def quorum_def)
  have a: "awaiting samplePrepare p"
    by (simp add: awaiting_def p_def sampleNode_def samplePrepare_def)
  have c: "set [10, 11, 12] \<inter> cntPrepareConfirm p (p_Digest samplePrepare) = {}"
    "length [10, 11, 12::nat] + card (cntPrepareConfirm p (p_Digest samplePrepare)) = unat (quorum p)"
    using q(1) by (simp_all add: p_def sampleNode_def)
  have d: "p_Digest samplePrepare = ''r''" "distinct [10, 11, 12::nat]" by (simp_all add: samplePrepare_def)
  from one_sender_fills_quorum [where k = KCLPA and E = modelEnv and cfg = sampleCfg, OF a d(2) c list.distinct(2)]
  obtain p' os where r: "feedPrepares (moduleOf KCLPA modelEnv sampleCfg) samplePrepare 0 [10, 11, 12] p = Some (Inr (p', os))"
       "isCommitBordcast p' = {''r''}" "pbftStage p' = 3"
    unfolding q d by blast
  show ?thesis
    by (intro exI [of _ p] exI [of _ p'] exI [of _ os] conjI p_def q(1) r)
qed

end
