(* ===== verification/ConsensusProps.thy ===== *)
theory ConsensusProps
  imports PbftProps
begin

text \<open>
  Properties of the consensus that involve several messages or several nodes: a whole round
  from the leader's proposal to the follower's block, quorum intersection, conflicting
  proposals, view changes and catching up.
\<close>

section \<open>A round\<close>

lemma propose_block_round:
  assumes "\<not> PartitionOn (cdm p)"
    and "proposeRound E (moduleOf KCLPA E cfg) sch 1 p = Some (Inr (n, p', os))"
  shows "\<exists>b bc1 r. GenerateBlock E cfg (ucast (n_NodeID p)) (s_now sch) (CurChain p) = Inr (b, bc1) \<and>
     r = \<lparr>reqType = BlockRequest, Content = encB E b, ReqTime = s_now sch\<rparr> \<and>
     os = toAll (WPrePrepare \<lparr>RequestMsg = r, pp_Digest = reqDigest E r, pp_SeqID = sequenceID p\<rparr>) p \<and>
     pbftStage p' = 2 \<and> CurChain p' = bc1 \<and> n = None"
  using assms
  by (auto simp: proposeRound_def moduleOf_def clpaMod_def proposeCLPA_def proposeBlock_def res_simps Let_def
      proposeFinish_def putRequest_def toAll_def broadcastShard_def getNeighborNodes_def split: if_splits)

lemma accept_pre_prepare:
  assumes "1 \<le> pbftStage q" and "pp_SeqID pp = sequenceID q" and "reqDigest E (RequestMsg pp) = pp_Digest pp"
    and "HandleinPrePrepare (moduleOf k E cfg) pp q = Inr (True, q0)"
  shows "\<exists>q1. handlePrePrepare E (moduleOf k E cfg) pp (view q) q = Some (Inr (q1, toAll (WPrepare
        \<lparr>p_Digest = pp_Digest pp, p_SeqID = sequenceID q, p_SenderNode = RunningNode q\<rparr>) q)) \<and>
     requestPool q1 (pp_Digest pp) = Some (RequestMsg pp) \<and> CurChain q1 = CurChain q \<and> cdm q1 = cdm q \<and>
     view q1 = view q \<and> sequenceID q1 = sequenceID q \<and> RunningNode q1 = RunningNode q \<and>
     ip_nodeTable q1 = ip_nodeTable q \<and> n_ShardID q1 = n_ShardID q \<and> pbftStage q1 = pbftStage q + 1"
proof -
  have "q0 = q \<or> q0 = q\<lparr>requestPool := (requestPool q)(pp_Digest pp \<mapsto> RequestMsg pp)\<rparr>"
    by (rule mods.preprepare_law [OF assms(4)])
  then show ?thesis
    using assms
    by (auto simp: handlePrePrepare_def mustWait_def outOfDate_def Let_def putRequest_def prepareMsg_def
        toAll_def broadcastShard_def getNeighborNodes_def)
qed

lemma commit_block_follower:
  assumes "requestPool q (c_Digest cm) = Some \<lparr>reqType = BlockRequest, Content = encB E b, ReqTime = t\<rparr>"
    and "decB E (encB E b) = Some b" and "\<not> isLeader q"
    and "handleCommit (moduleOf KCLPA E cfg) sch cm ptr v q = Some (Inr (q', os))" and "isReply q' \<noteq> isReply q"
  shows "AddBlock E cfg b (CurChain q) = Inr (CurChain q') \<and> sequenceID q' = sequenceID q + 1 \<and> os = []"
proof -
  from commit_takes_effect [OF assms(4)] assms(1,5) obtain r where
    h: "HandleinCommit (moduleOf KCLPA E cfg) sch cm (set2DMap False (c_Digest cm) ptr q) = Inr (r, os)"
    and "CurChain q' = CurChain r" "sequenceID q' = sequenceID q + 1"
    by auto
  moreover have "\<not> isLeader (set2DMap False (c_Digest cm) ptr q)"
    using assms(3) by (simp add: isLeader_def)
  ultimately show ?thesis
    using assms(1,2)
    by (auto simp: moduleOf_def clpaMod_def onRequest_def relayCommit_def addRequestBlock_def res_simps isLeader_def
        split: if_splits)
qed

text \<open>A follower that still has the leader's view of the chain commits the leader's block.\<close>

lemma follower_commits:
  assumes laws: "trieLawful E" "triedb_laws E" and wf: "wfDb E (triedb bc)"
    and start: "stateAt E (triedb bc) (toHash E (StateRoot (Header (CurrentBlock bc)))) = Some L"
    and same: "sameView bc fb" and g: "GenerateBlock E cfg m now bc = Inr (b, bc1)"
    and unique: "uniqueRoot E (toHash E (StateRoot (Header b))) (triedb bc) (triedb bc1)"
    and codec: "\<forall>b. decB E (encB E b) = Some b" and ch: "CurChain q2 = fb"
    and req: "requestPool q2 (c_Digest cm) = Some \<lparr>reqType = BlockRequest, Content = encB E b, ReqTime = t\<rparr>"
    and nl: "\<not> isLeader q2" and run: "handleCommit (moduleOf KCLPA E cfg) sch cm ptr v q2 = Some (Inr (q3, os))"
    and eff: "isReply q3 \<noteq> isReply q2"
  shows "CurrentBlock (CurChain q3) = b \<and> sequenceID q3 = sequenceID q2 + 1 \<and>
     stateAt E (triedb (CurChain q3)) (toHash E (StateRoot (Header b))) =
       Some (foldl (ledgerStep (isHome cfg bc)) L (Body b)) \<and>
     stateAt E (triedb bc1) (toHash E (StateRoot (Header b))) =
       Some (foldl (ledgerStep (isHome cfg bc)) L (Body b)) \<and>
     (trieNew E (toHash E (StateRoot (Header b))) (triedb fb) = None \<or> Body b = [] \<longrightarrow>
        triedb (CurChain q3) = triedb bc1)"
proof -
  have "decB E (encB E b) = Some b" using codec by simp
  from commit_block_follower [OF req this nl run eff] ch
  have a: "AddBlock E cfg b fb = Inr (CurChain q3)" and s: "sequenceID q3 = sequenceID q2 + 1" by simp_all
  from replica_appends [OF laws wf start same g unique a] GenerateBlock_state [OF laws wf start g] s
  show ?thesis by blast
qed

text \<open>C7: A whole round of the module that is deployed. When a leader with no repartition pending proposes,
  the request it broadcasts is the block it generated. A follower with the same view of the chain and the same
  sequence number accepts it, answers with a prepare message, stores the request and leaves its chain alone.
  Whenever a later commit message then takes effect at a follower holding that request and that chain, its
  current block is the leader's block, its sequence number grows by one, and the block's state root opens, in its
  own database as in the leader's, to the balances the ledger computes over the block, whether the follower
  executes the block or already has that root; if the root is new to it, or the block is empty, its database is
  the leader's. The state root of the block is assumed to stand for one state only.\<close>

theorem follower_follows_round:
  assumes laws: "trieLawful E" "triedb_laws E" and wf: "wfDb E (triedb (CurChain p))"
    and start: "stateAt E (triedb (CurChain p)) (toHash E (StateRoot (Header (CurrentBlock (CurChain p))))) = Some L"
    and unique: "\<forall>b bc1. GenerateBlock E cfg (ucast (n_NodeID p)) (s_now sch) (CurChain p) = Inr (b, bc1) \<longrightarrow>
       uniqueRoot E (toHash E (StateRoot (Header b))) (triedb (CurChain p)) (triedb bc1)"
    and same: "sameView (CurChain p) (CurChain q)" and seq: "sequenceID q = sequenceID p" and st: "1 \<le> pbftStage q"
    and codec: "\<forall>b. decB E (encB E b) = Some b" and part: "\<not> PartitionOn (cdm p)"
    and run: "proposeRound E (moduleOf KCLPA E cfg) sch 1 p = Some (Inr (None, p', os))"
  shows "\<exists>pp b bc1. GenerateBlock E cfg (ucast (n_NodeID p)) (s_now sch) (CurChain p) = Inr (b, bc1) \<and>
     os = toAll (WPrePrepare pp) p \<and> pbftStage p' = 2 \<and> CurChain p' = bc1 \<and>
     (\<exists>q1. handlePrePrepare E (moduleOf KCLPA E cfg) pp (view q) q = Some (Inr (q1, toAll (WPrepare
             \<lparr>p_Digest = pp_Digest pp, p_SeqID = sequenceID q, p_SenderNode = RunningNode q\<rparr>) q)) \<and>
           requestPool q1 (pp_Digest pp) = Some (RequestMsg pp) \<and> CurChain q1 = CurChain q \<and>
           pbftStage q1 = pbftStage q + 1) \<and>
     (\<forall>q2 q3 cm ptr v sch' os'. CurChain q2 = CurChain q \<longrightarrow> requestPool q2 (c_Digest cm) = Some (RequestMsg pp) \<longrightarrow>
        \<not> isLeader q2 \<longrightarrow>
        handleCommit (moduleOf KCLPA E cfg) sch' cm ptr v q2 = Some (Inr (q3, os')) \<longrightarrow> isReply q3 \<noteq> isReply q2 \<longrightarrow>
        CurrentBlock (CurChain q3) = b \<and> sequenceID q3 = sequenceID q2 + 1 \<and>
        stateAt E (triedb (CurChain q3)) (toHash E (StateRoot (Header b))) =
          Some (foldl (ledgerStep (isHome cfg (CurChain p))) L (Body b)) \<and>
        stateAt E (triedb bc1) (toHash E (StateRoot (Header b))) =
          Some (foldl (ledgerStep (isHome cfg (CurChain p))) L (Body b)) \<and>
        (trieNew E (toHash E (StateRoot (Header b))) (triedb (CurChain q)) = None \<or> Body b = [] \<longrightarrow>
           triedb (CurChain q3) = triedb bc1))"
proof -
  obtain b bc1 r where g: "GenerateBlock E cfg (ucast (n_NodeID p)) (s_now sch) (CurChain p) = Inr (b, bc1)"
    and r: "r = \<lparr>reqType = BlockRequest, Content = encB E b, ReqTime = s_now sch\<rparr>"
    and o: "os = toAll (WPrePrepare \<lparr>RequestMsg = r, pp_Digest = reqDigest E r, pp_SeqID = sequenceID p\<rparr>) p"
    and p': "pbftStage p' = 2" "CurChain p' = bc1"
    using propose_block_round [OF part run] by blast
  define pp where "pp = \<lparr>RequestMsg = r, pp_Digest = reqDigest E r, pp_SeqID = sequenceID p\<rparr>"
  have pf: "RequestMsg pp = r" "pp_Digest pp = reqDigest E r" "pp_SeqID pp = sequenceID q"
    by (simp_all add: pp_def seq)
  have chk: "HandleinPrePrepare (moduleOf KCLPA E cfg) pp q =
      Inr (True, q\<lparr>requestPool := (requestPool q)(pp_Digest pp \<mapsto> RequestMsg pp)\<rparr>)"
    using codec generated_valid [OF same g]
    by (simp add: moduleOf_def clpaMod_def checkCLPA_def checkBlock_def pf r)
  have dig: "reqDigest E (RequestMsg pp) = pp_Digest pp" by (simp add: pf)
  from accept_pre_prepare [OF st pf(3) dig chk]
  have acc: "\<exists>q1. handlePrePrepare E (moduleOf KCLPA E cfg) pp (view q) q = Some (Inr (q1, toAll (WPrepare
             \<lparr>p_Digest = pp_Digest pp, p_SeqID = sequenceID q, p_SenderNode = RunningNode q\<rparr>) q)) \<and>
           requestPool q1 (pp_Digest pp) = Some (RequestMsg pp) \<and> CurChain q1 = CurChain q \<and>
           pbftStage q1 = pbftStage q + 1"
    by blast
  note uq = unique [rule_format, OF g]
  have com: "CurrentBlock (CurChain q3) = b \<and> sequenceID q3 = sequenceID q2 + 1 \<and>
        stateAt E (triedb (CurChain q3)) (toHash E (StateRoot (Header b))) =
          Some (foldl (ledgerStep (isHome cfg (CurChain p))) L (Body b)) \<and>
        stateAt E (triedb bc1) (toHash E (StateRoot (Header b))) =
          Some (foldl (ledgerStep (isHome cfg (CurChain p))) L (Body b)) \<and>
        (trieNew E (toHash E (StateRoot (Header b))) (triedb (CurChain q)) = None \<or> Body b = [] \<longrightarrow>
           triedb (CurChain q3) = triedb bc1)"
    if "CurChain q2 = CurChain q" "requestPool q2 (c_Digest cm) = Some (RequestMsg pp)" "\<not> isLeader q2"
      "handleCommit (moduleOf KCLPA E cfg) sch' cm ptr v q2 = Some (Inr (q3, os'))" "isReply q3 \<noteq> isReply q2"
    for q2 q3 cm ptr v sch' os'
    using follower_commits [OF laws wf start same g uq codec that(1) that(2) [unfolded pf r] that(3-5)] .
  show ?thesis
    using g o p' acc com unfolding pp_def [symmetric] by blast
qed

section \<open>Conflicting proposals\<close>

lemma checkBlock_depends:
  "checkBlock E pp p = Inr (ok, p0) \<Longrightarrow> CurChain q = CurChain p \<Longrightarrow> \<exists>q0. checkBlock E pp q = Inr (ok, q0)"
  by (cases "decB E (Content (RequestMsg pp))") (auto simp: checkBlock_def split: if_splits)

lemma preprepare_depends:
  assumes "HandleinPrePrepare (moduleOf k E cfg) pp p = Inr (ok, p0)" and "CurChain q = CurChain p" and "cdm q = cdm p"
  shows "\<exists>q0. HandleinPrePrepare (moduleOf k E cfg) pp q = Inr (ok, q0)"
  using assms checkBlock_depends [of E pp p ok p0 q]
  by (cases k) (auto simp: moduleOf_def relayMod_def brokerMod_def clpaMod_def clpaBrokerMod_def checkCLPA_def
      checkCLPABroker_def split: if_splits)

text \<open>A node votes for two conflicting proposals of the same sequence number and view: if its module accepts
  each of two requests, then after broadcasting its prepare message for the first it broadcasts one for the
  second as well, whatever the two digests are.\<close>

theorem prepares_conflicting:
  assumes "1 \<le> pbftStage p" and "pp_SeqID pp1 = sequenceID p" and "pp_SeqID pp2 = sequenceID p"
    and "reqDigest E (RequestMsg pp1) = pp_Digest pp1" and "reqDigest E (RequestMsg pp2) = pp_Digest pp2"
    and "HandleinPrePrepare (moduleOf k E cfg) pp1 p = Inr (True, q1)"
    and "HandleinPrePrepare (moduleOf k E cfg) pp2 p = Inr (True, q2)"
  shows "\<exists>p1 p2. handlePrePrepare E (moduleOf k E cfg) pp1 (view p) p = Some (Inr (p1, toAll (WPrepare
        \<lparr>p_Digest = pp_Digest pp1, p_SeqID = sequenceID p, p_SenderNode = RunningNode p\<rparr>) p)) \<and>
     handlePrePrepare E (moduleOf k E cfg) pp2 (view p) p1 = Some (Inr (p2, toAll (WPrepare
        \<lparr>p_Digest = pp_Digest pp2, p_SeqID = sequenceID p, p_SenderNode = RunningNode p\<rparr>) p)) \<and>
     pbftStage p2 = pbftStage p + 2"
proof -
  from accept_pre_prepare [OF assms(1,2,4,6)] obtain p1 where
    h: "handlePrePrepare E (moduleOf k E cfg) pp1 (view p) p = Some (Inr (p1, toAll (WPrepare
        \<lparr>p_Digest = pp_Digest pp1, p_SeqID = sequenceID p, p_SenderNode = RunningNode p\<rparr>) p))"
    and f: "CurChain p1 = CurChain p" "cdm p1 = cdm p" "view p1 = view p" "sequenceID p1 = sequenceID p"
      "RunningNode p1 = RunningNode p" "ip_nodeTable p1 = ip_nodeTable p" "n_ShardID p1 = n_ShardID p"
      "pbftStage p1 = pbftStage p + 1"
    by blast
  obtain q where q: "HandleinPrePrepare (moduleOf k E cfg) pp2 p1 = Inr (True, q)"
    using preprepare_depends [OF assms(7) f(1,2)] by blast
  have "1 \<le> pbftStage p1" "pp_SeqID pp2 = sequenceID p1" using assms(1,3) f by simp_all
  from accept_pre_prepare [OF this assms(5) q] obtain p2 where
    "handlePrePrepare E (moduleOf k E cfg) pp2 (view p) p1 = Some (Inr (p2, toAll (WPrepare
        \<lparr>p_Digest = pp_Digest pp2, p_SeqID = sequenceID p, p_SenderNode = RunningNode p\<rparr>) p1))"
    "pbftStage p2 = pbftStage p + 2"
    unfolding f by auto
  moreover have "toAll w p1 = toAll w p" for w
    by (simp add: toAll_def broadcastShard_def getNeighborNodes_def f)
  ultimately show ?thesis using h by auto
qed

text \<open>The leader of a round reaches the commit stage when its own pre-prepare message comes back: proposing
  stores stage 2, and accepting the pre-prepare adds one, so its commit handler no longer waits although it has
  counted no prepare message.\<close>

theorem leader_skips_prepare:
  assumes "HandleinPropose (moduleOf k E cfg) sch 0 (p\<lparr>sequenceLocked := True\<rparr>) = Inr (Proposed r, q, os)"
    and "\<not> sequenceLocked p"
    and "\<forall>q'. CurChain q' = CurChain q \<longrightarrow> cdm q' = cdm q \<longrightarrow> (\<exists>t. HandleinPrePrepare (moduleOf k E cfg)
           \<lparr>RequestMsg = r, pp_Digest = reqDigest E r, pp_SeqID = sequenceID q\<rparr> q' = Inr (True, t))"
  shows "\<exists>p1 p2 os1 os2. proposeRound E (moduleOf k E cfg) sch 1 p = Some (Inr (None, p1, os1)) \<and> pbftStage p1 = 2 \<and>
     handlePrePrepare E (moduleOf k E cfg)
       \<lparr>RequestMsg = r, pp_Digest = reqDigest E r, pp_SeqID = sequenceID q\<rparr> (view p1) p1 = Some (Inr (p2, os2)) \<and>
     pbftStage p2 = 3 \<and> (\<forall>seq. \<not> mustWait 3 seq (view p2) p2)"
proof -
  define pp where "pp = \<lparr>RequestMsg = r, pp_Digest = reqDigest E r, pp_SeqID = sequenceID q\<rparr>"
  obtain p1 os' where fin: "proposeFinish E r q = (p1, os')" by (cases "proposeFinish E r q")
  then have f: "pbftStage p1 = 2" "CurChain p1 = CurChain q" "cdm p1 = cdm q" "sequenceID p1 = sequenceID q"
    by (auto simp: proposeFinish_def Let_def putRequest_def)
  have h: "proposeRound E (moduleOf k E cfg) sch 1 p = Some (Inr (None, p1, os @ os'))"
    using assms(1,2) fin by (simp add: proposeRound_def)
  obtain t where t: "HandleinPrePrepare (moduleOf k E cfg) pp p1 = Inr (True, t)"
    using assms(3) f unfolding pp_def by blast
  have "pp_SeqID pp = sequenceID p1" "1 \<le> pbftStage p1" "reqDigest E (RequestMsg pp) = pp_Digest pp"
    using f by (simp_all add: pp_def)
  from accept_pre_prepare [OF this(2,1,3) t] obtain p2 os2 where
    "handlePrePrepare E (moduleOf k E cfg) pp (view p1) p1 = Some (Inr (p2, os2))" "pbftStage p2 = 3"
    using f(1) by auto
  with h f(1) show ?thesis unfolding pp_def by (auto simp: mustWait_def)
qed

section \<open>Quorums\<close>

lemma quorum_of_new:
  assumes "NewPbftNode E sid nid pcc tbl db st now = Inr p" and "0 < Nodes_perShard pcc"
  shows "unat (malicious_nums p) = (unat (Nodes_perShard pcc) - 1) div 3"
    and "unat (quorum p) = 2 * ((unat (Nodes_perShard pcc) - 1) div 3) + 1"
proof -
  have m: "malicious_nums p = (Nodes_perShard pcc - 1) div 3"
    using NewPbftNode_fields(3) [OF assms(1)] .
  have "unat (Nodes_perShard pcc - 1) = unat (Nodes_perShard pcc) - 1"
    using assms(2) by (simp add: unat_minus_one word_gt_0)
  then show u: "unat (malicious_nums p) = (unat (Nodes_perShard pcc) - 1) div 3"
    by (simp add: m unat_div)
  have "2 * unat (malicious_nums p) + 1 < 2 ^ 64"
    using unat_bound [of "Nodes_perShard pcc"] unfolding u by simp
  then have "unat (quorum p) = 2 * unat (malicious_nums p) + 1"
    by (simp add: quorum_def unat_word_ariths)
  then show "unat (quorum p) = 2 * ((unat (Nodes_perShard pcc) - 1) div 3) + 1"
    by (simp only: u)
qed

text \<open>C24: Any two quorums of distinct nodes share more nodes than the shard can have faulty ones exactly when the
  number of nodes is one more than a multiple of three; for other sizes there are two quorums whose common nodes
  may all be faulty.\<close>

theorem quorum_intersection:
  assumes new: "NewPbftNode E sid nid pcc tbl db st now = Inr p" and pos: "0 < Nodes_perShard pcc"
  shows "(\<forall>A B. A \<subseteq> {..<unat (Nodes_perShard pcc)} \<and> B \<subseteq> {..<unat (Nodes_perShard pcc)} \<and>
            unat (quorum p) \<le> card A \<and> unat (quorum p) \<le> card B \<longrightarrow>
            unat (malicious_nums p) < card (A \<inter> B)) \<longleftrightarrow> unat (Nodes_perShard pcc) mod 3 = 1"
proof -
  define N where "N = unat (Nodes_perShard pcc)"
  define f where "f = (N - 1) div 3"
  have N: "0 < N" using pos by (simp add: N_def word_gt_0 unat_gt_0)
  note q = quorum_of_new [OF new pos, folded N_def, folded f_def]
  have inter: "f < card (A \<inter> B)" if "N mod 3 = 1" "A \<subseteq> {..<N}" "B \<subseteq> {..<N}" "2 * f + 1 \<le> card A" "2 * f + 1 \<le> card B" for A B
  proof -
    have fin: "finite A" "finite B" using that(2,3) finite_subset by blast+
    have "card (A \<union> B) \<le> N" using that(2,3) card_mono [of "{..<N}" "A \<union> B"] by simp
    moreover have "card A + card B = card (A \<union> B) + card (A \<inter> B)" by (rule card_Un_Int [OF fin])
    moreover have "N = 3 * f + 1" using that(1) N unfolding f_def by presburger
    ultimately show ?thesis using that(4,5) by linarith
  qed
  have bad: "\<exists>A B. A \<subseteq> {..<N} \<and> B \<subseteq> {..<N} \<and> 2 * f + 1 \<le> card A \<and> 2 * f + 1 \<le> card B \<and> card (A \<inter> B) \<le> f"
    if "N mod 3 \<noteq> 1"
  proof (intro exI conjI)
    have b: "3 * f + 1 < N" using that N unfolding f_def by presburger
    then show "{..<2 * f + 1} \<subseteq> {..<N}" "{N - (2 * f + 1)..<N} \<subseteq> {..<N}" by auto
    show "2 * f + 1 \<le> card {..<2 * f + 1}" "2 * f + 1 \<le> card {N - (2 * f + 1)..<N}" using b by auto
    have "{..<2 * f + 1} \<inter> {N - (2 * f + 1)..<N} = {N - (2 * f + 1)..<2 * f + 1}" using b by auto
    then show "card ({..<2 * f + 1} \<inter> {N - (2 * f + 1)..<N}) \<le> f" using b by simp
  qed
  show ?thesis
    unfolding N_def [symmetric] q using inter bad by (meson not_le)
qed

section \<open>View changes\<close>

lemma endRound_view: "endRound now po = Inr (p', os) \<Longrightarrow> view p' = view (fst po)"
  using endRound_fields by blast

lemma noteSeq_view [simp]: "view (noteSeq sid s p) = view p" "view (onPool f p) = view p" "view (onCdm g p) = view p"
  by (simp_all add: noteSeq_def onPool_def onCdm_def)

lemma outside_handlers_view:
  "view (handleRelay clk r p) = view p" "view (handleInjectTx clk it p) = view p"
  "view (handleSeqIDinfos s p) = view p" "view (handlePartitionMsg_broker pm p) = view p"
  "view (handlePartitionReady pr p) = view p" "view (handleAccountStateAndTxMsg at p) = view p"
  "handleRelayWithProof E clk rw p = Inr p' \<Longrightarrow> view p' = view p"
  "handlePartitionMsg pm p = Inr p' \<Longrightarrow> view p' = view p"
  by (auto simp: handleRelay_def handleInjectTx_def handleSeqIDinfos_def handlePartitionMsg_broker_def
      handlePartitionReady_def handleAccountStateAndTxMsg_def handleRelayWithProof_def handlePartitionMsg_def
      res_simps Let_def)

lemma outside_view: "outsideOf k E clk m p = Inr p' \<Longrightarrow> view p' = view p"
  by (cases k; cases m)
    (auto simp: outsideOf_def outsideRelay_def outsideBroker_def outsideCLPA_def outsideCLPABroker_def
      outside_handlers_view)

lemma task_view:
  assumes "runTask k E cfg sch v t p = Some (Inr (p', os))"
  shows "view p' = view p"
proof (cases t)
  case (TPrePrepare pp)
  then show ?thesis
    using assms by (auto simp: runTask_def handlePrePrepare_def Let_def res_simps putRequest_def
        split: if_splits dest: mods.preprepare_law)
next
  case (TPrepare pm ptr)
  then show ?thesis
    using assms by (auto simp: runTask_def handlePrepare_def Let_def mods.prepare_law set2DMap_def split: if_splits)
next
  case (TCommit cm ptr)
  then have "handleCommit (moduleOf k E cfg) sch cm ptr v p = Some (Inr (p', os))"
    using assms by (simp add: runTask_def)
  then show ?thesis
  proof (cases rule: handleCommit_cases)
    case ask
    from endRound_view [OF ask] show ?thesis by (simp add: askForOld_def Let_def)
  next
    case (run r os')
    from endRound_view [OF run(2)] moved_fields(7) [OF mods.commit_law [OF run(1)]] show ?thesis by simp
  qed simp_all
next
  case (TOutside m)
  have "outsideOf k E (s_clk sch) m p = Inr p'" using assms TOutside by (auto simp: runTask_def res_simps)
  then show ?thesis by (rule outside_view)
next
  case TStop
  then show ?thesis using assms by (simp add: runTask_def)
qed

lemma sendOld_view:
  fixes p :: "('d, 's) pnode"
  assumes "handleSendOldSeq E (moduleOf k E cfg) som p = Inr (p', os)"
  shows "view p' = view p"
proof -
  have st: "view (foldl (storeOld E s) q irs) = view q" for s irs and q :: "('d, 's) pnode"
    by (induction irs arbitrary: q) (auto simp: storeOld_def putRequest_def Let_def)
  obtain q where q: "HandleforSequentialRequest (moduleOf k E cfg) som p = Inr q"
    using assms by (auto simp: handleSendOldSeq_def res_simps)
  then have "view q = view p" using mods.sequential_law moved_fields(7) by fastforce
  with assms q st show ?thesis
    unfolding handleSendOldSeq_def Let_def
    by (auto simp: res_simps Let_def split: option.splits if_splits dest!: mods.preprepare_law)
qed

lemma receive_view:
  assumes "handleMessage E (moduleOf k E cfg) now ptr m p = Inr (t, p', os)" and "view p' \<noteq> view p"
  shows "\<exists>nv. m = WNewView nv \<and> p' = handleNewViewMsg now nv p"
  using assms
  by (cases m) (auto simp: handleMessage_def handleViewChangeMsg_def handleRequestOldSeq_def Let_def res_simps
      mods.old_law split: if_splits dest: sendOld_view)

lemma propose_view:
  assumes "proposeRound E (moduleOf k E cfg) sch phase p = Some (Inr (n, p', os))"
  shows "view p' = view p"
proof -
  define q where "q = (if phase = 1 then p\<lparr>sequenceLocked := True\<rparr> else p)"
  have vq: "view q = view p" by (simp add: q_def)
  have fin: "view (fst (proposeFinish E r t)) = view t" for r t
    by (simp add: proposeFinish_def putRequest_def Let_def)
  show ?thesis
  proof (cases "HandleinPropose (moduleOf k E cfg) sch (phase - 1) q")
    case (Inl e)
    then show ?thesis
      using assms unfolding proposeRound_def Let_def q_def [symmetric] by (auto split: if_splits)
  next
    case (Inr y)
    obtain x r os' where y: "y = (x, r, os')" by (cases y)
    have "view r = view p" using mods.propose_law Inr y moved_fields(7) vq by metis
    then show ?thesis
      using assms Inr fin unfolding proposeRound_def Let_def q_def [symmetric] y
      by (cases x) (auto split: if_splits prod.splits, (metis fst_conv)+)
  qed
qed

lemma tick_view: "monitorTick timeout now now2 now3 b m p = Inr (m', p', os) \<Longrightarrow> view p' = view p"
  by (auto simp: monitorTick_def viewChangePropose_def Let_def res_simps split: if_splits)

text \<open>C25: No step of a node changes its view except the new-view message that completes a quorum: the step
  receives a new-view message, the distinct senders counted for its view and sequence number are then exactly
  2f + 1, and the node takes over that view and that sequence number and goes back to the first stage.\<close>

theorem view_needs_quorum:
  assumes step: "nodeStep k E cfg p os p'" and change: "view p' \<noteq> view p"
  shows "\<exists>nv now. p' = handleNewViewMsg now nv p \<and>
     int (card (newViewMap p' (nv_NextView nv, NewSeqID nv))) = 2 * sint (malicious_nums p) + 1 \<and>
     nv_FromNode nv \<in> newViewMap p' (nv_NextView nv, NewSeqID nv) \<and>
     view p' = toInt32 (nv_NextView nv) \<and> sequenceID p' = NewSeqID nv \<and> pbftStage p' = 1 \<and>
     CurChain p' = CurChain p \<and> os = []"
proof -
  have "\<exists>nv now. p' = handleNewViewMsg now nv p \<and> os = []"
    using step change
  proof (cases rule: nodeStep.cases)
    case (receive now ptr m t)
    then obtain nv where nv: "m = WNewView nv" "p' = handleNewViewMsg now nv p" using receive_view change by blast
    then have "os = []" using receive by (simp add: handleMessage_def)
    with nv show ?thesis by blast
  next
    case task
    then show ?thesis using task_view change by metis
  next
    case propose
    then show ?thesis using propose_view change by metis
  next
    case tick
    then show ?thesis using tick_view change by metis
  qed (use change in simp)
  then obtain nv now where h: "p' = handleNewViewMsg now nv p" and o: "os = []" by blast
  have "int (card (newViewMap p' (nv_NextView nv, NewSeqID nv))) = 2 * sint (malicious_nums p) + 1"
    using h change by (auto simp: handleNewViewMsg_def Let_def split: if_splits)
  with h o change show ?thesis
    by (intro exI [of _ nv] exI [of _ now]) (auto simp: handleNewViewMsg_def Let_def split: if_splits)
qed

section \<open>Catching up\<close>

lemma collectOld_spec:
  "length (collectOld p h n) \<le> n \<and>
   (\<forall>i < length (collectOld p h n). \<exists>d. height2Digest p (h + word_of_nat i) = Some d \<and>
      requestPool p d = Some (collectOld p h n ! i)) \<and>
   (length (collectOld p h n) < n \<longrightarrow>
      (case height2Digest p (h + word_of_nat (length (collectOld p h n))) of
         None \<Rightarrow> True | Some d \<Rightarrow> requestPool p d = None))"
proof (induction n arbitrary: h)
  case 0
  then show ?case by simp
next
  case (Suc n)
  show ?case
  proof (cases "height2Digest p h")
    case None
    then show ?thesis by simp
  next
    case (Some d)
    show ?thesis
    proof (cases "requestPool p d")
      case None
      with Some show ?thesis by simp
    next
      case r: (Some r)
      have eq: "collectOld p h (Suc n) = r # collectOld p (h + 1) n" using Some r by simp
      note ih = Suc.IH [of "h + 1"]
      have "\<exists>d. height2Digest p (h + word_of_nat i) = Some d \<and> requestPool p d = Some (collectOld p h (Suc n) ! i)"
        if "i < length (collectOld p h (Suc n))" for i
      proof (cases i)
        case 0
        then show ?thesis using Some r eq by simp
      next
        case (Suc j)
        then have "j < length (collectOld p (h + 1) n)" using that eq by simp
        with ih Suc eq show ?thesis by (simp add: add.assoc)
      qed
      moreover have "length (collectOld p h (Suc n)) \<le> Suc n" using ih eq by simp
      moreover have "length (collectOld p h (Suc n)) < Suc n \<longrightarrow>
         (case height2Digest p (h + word_of_nat (length (collectOld p h (Suc n)))) of
            None \<Rightarrow> True | Some d \<Rightarrow> requestPool p d = None)"
        using ih unfolding eq by (simp add: add.assoc)
      ultimately show ?thesis by blast
    qed
  qed
qed

text \<open>Only the leader of the view answers a request for old messages, its answer leaves its state as it was and
  goes to the asker alone, and the requests it carries are those of consecutive heights from the first one asked
  for: never more than asked, each the stored request of its height, and stopping short only at a height the
  leader holds no request for.\<close>

theorem catch_up_reply:
  "handleRequestOldSeq (moduleOf k E cfg) rom p =
     (if isLeader p then (p, [(IPaddr (ro_SenderNode rom), WSendOld
         \<lparr>SeqStartHeight = ro_SeqStartHeight rom, SeqEndHeight = ro_SeqEndHeight rom,
          OldRequest = collectOld p (ro_SeqStartHeight rom) (heightCount (ro_SeqStartHeight rom) (ro_SeqEndHeight rom)),
          so_SenderNode = RunningNode p\<rparr>)])
      else (p, [])) \<and>
   (let rs = collectOld p (ro_SeqStartHeight rom) (heightCount (ro_SeqStartHeight rom) (ro_SeqEndHeight rom)) in
      length rs \<le> heightCount (ro_SeqStartHeight rom) (ro_SeqEndHeight rom) \<and>
      (\<forall>i < length rs. \<exists>d. height2Digest p (ro_SeqStartHeight rom + word_of_nat i) = Some d \<and>
         requestPool p d = Some (rs ! i)) \<and>
      (length rs < heightCount (ro_SeqStartHeight rom) (ro_SeqEndHeight rom) \<longrightarrow>
         (case height2Digest p (ro_SeqStartHeight rom + word_of_nat (length rs)) of
            None \<Rightarrow> True | Some d \<Rightarrow> requestPool p d = None)))"
  using collectOld_spec [of p "ro_SeqStartHeight rom" "heightCount (ro_SeqStartHeight rom) (ro_SeqEndHeight rom)"]
  by (simp add: handleRequestOldSeq_def Let_def mods.old_law)

lemma storeOld_fields:
  "CurChain (foldl (storeOld E s) p irs) = CurChain p" "sequenceID (foldl (storeOld E s) p irs) = sequenceID p"
  by (induction irs arbitrary: p) (auto simp: storeOld_def putRequest_def Let_def)

lemma storeOld_isReply:
  "isReply (foldl (storeOld E s) p irs) = isReply p \<union> (\<lambda>ir. reqDigest E (snd ir)) ` set irs"
  by (induction irs arbitrary: p) (auto simp: storeOld_def putRequest_def Let_def)

text \<open>A reply that does not hold as many requests as its range is refused by the module, so the chain stays as
  it was, and yet the node marks its requests as committed and moves its sequence number past the whole range:
  the missing blocks are never appended and never asked for again.\<close>

theorem short_reply_skips_blocks:
  fixes p :: "('d, 's) pnode"
  assumes short: "\<not> enoughRequests som" and k: "k = KRelay \<or> k = KCLPA \<or> k = KCLPABroker"
    and run: "handleSendOldSeq E (moduleOf k E cfg) som p = Inr (p', os)"
  shows "CurChain p' = CurChain p \<and> sequenceID p' = SeqEndHeight som + 1 \<and>
     (\<forall>r \<in> set (OldRequest som). reqDigest E r \<in> isReply p')"
proof -
  have h: "HandleforSequentialRequest (moduleOf k E cfg) som p = Inr p"
    using short k by (auto simp: moduleOf_def relayMod_def clpaMod_def clpaBrokerMod_def)
  define q where "q = (foldl (storeOld E (SeqStartHeight som)) p (enumerate 0 (OldRequest som)))
      \<lparr>sequenceID := SeqEndHeight som + 1\<rparr>"
  have "\<forall>ir \<in> set (enumerate 0 (OldRequest som)). reqDigest E (snd ir) \<in> isReply q"
    by (simp add: q_def storeOld_isReply)
  then have "\<forall>r \<in> set (OldRequest som). reqDigest E r \<in> isReply q"
    by (metis in_set_conv_nth length_enumerate nth_enumerate_eq snd_conv)
  moreover have "CurChain p' = CurChain q \<and> sequenceID p' = sequenceID q \<and> isReply p' = isReply q"
    using run h unfolding handleSendOldSeq_def Let_def
    by (auto simp: q_def [symmetric] res_simps Let_def split: option.splits if_splits dest!: mods.preprepare_law)
  moreover have "CurChain q = CurChain p" "sequenceID q = SeqEndHeight som + 1"
    by (simp_all add: q_def storeOld_fields)
  ultimately show ?thesis by simp
qed

lemma sint_of_int: "sint (word_of_int x :: u64) = signed_take_bit 63 x"
  by (simp add: signed_of_int)

lemma sint_uminus_small:
  assumes "unat d < 2 ^ 63"
  shows "sint (- d :: u64) = - int (unat d)"
proof -
  have "word_of_int (- int (unat d)) = (- d :: u64)" by simp
  moreover have "signed_take_bit 63 (- int (unat d)) = - int (unat d)"
  proof (rule signed_take_bit_int_eq_self)
    have "int (unat d) < int (2 ^ 63)" using assms by (simp only: of_nat_less_iff)
    then have "int (unat d) < 2 ^ 63" by (simp only: of_nat_power of_nat_numeral)
    then show "- (2 ^ 63) \<le> - int (unat d)" "- int (unat d) < 2 ^ 63" by linarith+
  qed
  ultimately show ?thesis using sint_of_int [of "- int (unat d)"] by (simp only:)
qed

text \<open>The broker module without repartition refuses every complete reply: it subtracts the heights the wrong
  way round, so a reply that holds exactly one request per height of its range never counts as enough.\<close>

theorem broker_refuses_complete_reply:
  assumes "SeqStartHeight som \<le> SeqEndHeight som" and "unat (SeqEndHeight som - SeqStartHeight som) < 2 ^ 63"
    and "length (OldRequest som) = heightCount (SeqStartHeight som) (SeqEndHeight som)"
  shows "HandleforSequentialRequest (moduleOf KBroker E cfg) som p = Inr p \<and> \<not> enoughRequests_broker som"
proof -
  define d where "d = SeqEndHeight som - SeqStartHeight som"
  have n: "SeqStartHeight som - SeqEndHeight som = - d" by (simp add: d_def)
  have "length (OldRequest som) = unat d + 1" using assms by (simp add: heightCount_def d_def)
  moreover have "sint (- d) \<le> 0" using sint_uminus_small [of d] assms(2) by (simp add: d_def)
  ultimately have "\<not> enoughRequests_broker som" unfolding enoughRequests_broker_def n by linarith
  then show ?thesis by (simp add: moduleOf_def brokerMod_def)
qed

section \<open>Witnesses\<close>

text \<open>The leader of the sample shard, with the transactions of the sample chain in its pool.\<close>

definition sampleLeader :: mnode where
  "sampleLeader = sampleNode\<lparr>RunningNode := \<lparr>NodeID = 0, ShardID = 0, IPaddr = ''n0''\<rparr>, n_NodeID := 0,
     CurChain := sampleChain\<rparr>"

lemma sampleLeader_proposes:
  "\<exists>p' os. proposeRound modelEnv (moduleOf KCLPA modelEnv sampleCfg) (sampleSched\<lparr>s_now := 7\<rparr>) 1 sampleLeader =
     Some (Inr (None, p', os))"
proof -
  obtain b bc1 where "GenerateBlock modelEnv sampleCfg 0 7 sampleChain = Inr (b, bc1)"
    using sample_generate by blast
  then show ?thesis
    by (simp add: proposeRound_def moduleOf_def clpaMod_def proposeCLPA_def proposeBlock_def sampleLeader_def
        sampleNode_def NewCLPADataSupport_def split: prod.splits)
qed

theorem follower_follows_round_witness:
  "\<exists>p' os pp b bc1 q1 os1. proposeRound modelEnv (moduleOf KCLPA modelEnv sampleCfg) (sampleSched\<lparr>s_now := 7\<rparr>) 1
       sampleLeader = Some (Inr (None, p', os)) \<and>
     GenerateBlock modelEnv sampleCfg 0 7 sampleChain = Inr (b, bc1) \<and> os = toAll (WPrePrepare pp) sampleLeader \<and>
     handlePrePrepare modelEnv (moduleOf KCLPA modelEnv sampleCfg) pp 0 sampleNode = Some (Inr (q1, os1)) \<and>
     pbftStage q1 = 2 \<and> requestPool q1 (pp_Digest pp) = Some (RequestMsg pp)"
proof -
  obtain p' os where h: "proposeRound modelEnv (moduleOf KCLPA modelEnv sampleCfg) (sampleSched\<lparr>s_now := 7\<rparr>) 1
      sampleLeader = Some (Inr (None, p', os))"
    using sampleLeader_proposes by blast
  have v: "sameView (CurChain sampleLeader) (CurChain sampleNode)"
    using sample_view by (simp add: sampleLeader_def sampleNode_def)
  have f: "sequenceID sampleNode = sequenceID sampleLeader" "1 \<le> pbftStage sampleNode" "\<not> PartitionOn (cdm sampleLeader)"
    "view sampleNode = 0" "pbftStage sampleNode = 1" "n_NodeID sampleLeader = 0" "CurChain sampleLeader = sampleChain"
    by (simp_all add: sampleLeader_def sampleNode_def NewCLPADataSupport_def)
  have f': "n_NodeID sampleLeader = 0" "s_now (sampleSched\<lparr>s_now := 7\<rparr>) = 7"
    by (simp_all add: f)
  have u: "\<forall>b bc1. GenerateBlock modelEnv sampleCfg (ucast (n_NodeID sampleLeader)) (s_now (sampleSched\<lparr>s_now := 7\<rparr>))
      (CurChain sampleLeader) = Inr (b, bc1) \<longrightarrow>
      uniqueRoot modelEnv (toHash modelEnv (StateRoot (Header b))) (triedb (CurChain sampleLeader)) (triedb bc1)"
    unfolding f f'(2) using sample_unique by simp
  have c: "\<forall>b. decB modelEnv (encB modelEnv b) = Some b" by (simp add: modelEnv_ops)
  have s: "wfDb modelEnv (triedb (CurChain sampleLeader))"
    "stateAt modelEnv (triedb (CurChain sampleLeader)) (toHash modelEnv (StateRoot (Header (CurrentBlock (CurChain sampleLeader))))) =
      Some (\<lambda>a. Init_Balance)"
    unfolding f by (rule sample_wfDb, rule sample_start)
  from follower_follows_round [OF modelEnv_lawful modelEnv_triedb s u v f(1,2) c f(3) h] h show ?thesis
    unfolding f f'(2) by simp blast
qed

text \<open>Two different partition requests, shown to a node of the module that accepts any of them.\<close>

theorem prepares_conflicting_witness:
  "\<exists>pp1 pp2 p1 p2 os1 os2. pp_Digest pp1 \<noteq> pp_Digest pp2 \<and> pp_SeqID pp1 = pp_SeqID pp2 \<and>
     handlePrePrepare modelEnv (moduleOf KCLPABroker modelEnv sampleCfg) pp1 0 sampleNode = Some (Inr (p1, os1)) \<and>
     handlePrePrepare modelEnv (moduleOf KCLPABroker modelEnv sampleCfg) pp2 0 p1 = Some (Inr (p2, os2)) \<and>
     pbftStage p2 = 3"
proof -
  define mk where "mk d = \<lparr>RequestMsg = \<lparr>reqType = PartitionReq, Content = d, ReqTime = 0\<rparr>, pp_Digest = d, pp_SeqID = 1\<rparr>"
    for d :: bytes
  have f: "1 \<le> pbftStage sampleNode" "sequenceID sampleNode = 1" "view sampleNode = 0" "pbftStage sampleNode = 1"
    by (simp_all add: sampleNode_def)
  have m: "pp_SeqID (mk d) = sequenceID sampleNode" "reqDigest modelEnv (RequestMsg (mk d)) = pp_Digest (mk d)"
    "HandleinPrePrepare (moduleOf KCLPABroker modelEnv sampleCfg) (mk d) sampleNode =
       Inr (True, sampleNode\<lparr>requestPool := (requestPool sampleNode)(d \<mapsto> RequestMsg (mk d))\<rparr>)" for d
    by (simp_all add: mk_def f modelEnv_def moduleOf_def clpaBrokerMod_def checkCLPABroker_def)
  from prepares_conflicting [OF f(1) m(1) m(1) m(2) m(2) m(3) m(3), of "''x''" "''y''"] f(3,4)
  obtain p1 p2 os1 os2 where
    "handlePrePrepare modelEnv (moduleOf KCLPABroker modelEnv sampleCfg) (mk ''x'') 0 sampleNode = Some (Inr (p1, os1))"
    "handlePrePrepare modelEnv (moduleOf KCLPABroker modelEnv sampleCfg) (mk ''y'') 0 p1 = Some (Inr (p2, os2))"
    "pbftStage p2 = 3"
    by auto
  moreover have "pp_Digest (mk ''x'') \<noteq> pp_Digest (mk ''y'')" "pp_SeqID (mk ''x'') = pp_SeqID (mk ''y'')"
    by (simp_all add: mk_def)
  ultimately show ?thesis by blast
qed

theorem leader_skips_prepare_witness:
  "\<exists>p1 p2 pp os1 os2. proposeRound modelEnv (moduleOf KCLPA modelEnv sampleCfg) (sampleSched\<lparr>s_now := 7\<rparr>) 1 sampleLeader =
       Some (Inr (None, p1, os1)) \<and>
     handlePrePrepare modelEnv (moduleOf KCLPA modelEnv sampleCfg) pp 0 p1 = Some (Inr (p2, os2)) \<and> pbftStage p2 = 3"
proof -
  obtain b bc1 where g: "GenerateBlock modelEnv sampleCfg 0 7 sampleChain = Inr (b, bc1)"
    using sample_generate by blast
  define r where "r = \<lparr>reqType = BlockRequest, Content = encB modelEnv b, ReqTime = 7\<rparr>"
  define q where "q = sampleLeader\<lparr>sequenceLocked := True, CurChain := bc1\<rparr>"
  have p: "HandleinPropose (moduleOf KCLPA modelEnv sampleCfg) (sampleSched\<lparr>s_now := 7\<rparr>) 0
      (sampleLeader\<lparr>sequenceLocked := True\<rparr>) = Inr (Proposed r, q, [])"
    using g by (simp add: moduleOf_def clpaMod_def proposeCLPA_def proposeBlock_def sampleLeader_def sampleNode_def
        NewCLPADataSupport_def q_def r_def)
  have v: "IsValidBlock modelEnv b bc1 = None"
    using generated_valid [OF _ g, of sampleChain] GenerateBlock_frame [OF g]
    by (simp add: IsValidBlock_def sameView_def)
  have c: "\<forall>q'. CurChain q' = CurChain q \<longrightarrow> cdm q' = cdm q \<longrightarrow> (\<exists>t. HandleinPrePrepare (moduleOf KCLPA modelEnv sampleCfg)
           \<lparr>RequestMsg = r, pp_Digest = reqDigest modelEnv r, pp_SeqID = sequenceID q\<rparr> q' = Inr (True, t))"
    using v by (simp add: moduleOf_def clpaMod_def checkCLPA_def checkBlock_def r_def q_def modelEnv_ops)
  have l: "\<not> sequenceLocked sampleLeader" by (simp add: sampleLeader_def sampleNode_def)
  have vw: "view q = 0" by (simp add: q_def sampleLeader_def sampleNode_def)
  from leader_skips_prepare [OF p l c] obtain p1 p2 os1 os2 where
    h: "proposeRound modelEnv (moduleOf KCLPA modelEnv sampleCfg) (sampleSched\<lparr>s_now := 7\<rparr>) 1 sampleLeader = Some (Inr (None, p1, os1))"
      "handlePrePrepare modelEnv (moduleOf KCLPA modelEnv sampleCfg)
         \<lparr>RequestMsg = r, pp_Digest = reqDigest modelEnv r, pp_SeqID = sequenceID q\<rparr> (view p1) p1 = Some (Inr (p2, os2))"
      "pbftStage p2 = 3"
    by blast
  have "view p1 = 0" using propose_view [OF h(1)] by (simp add: sampleLeader_def sampleNode_def)
  with h show ?thesis by (metis (no_types))
qed

theorem quorum_intersection_witness:
  "\<exists>p::mnode. NewPbftNode modelEnv 0 1 sampleCC [] sampleDb Map.empty 0 = Inr p \<and>
     (\<forall>A B. A \<subseteq> {..<4::nat} \<and> B \<subseteq> {..<4} \<and> unat (quorum p) \<le> card A \<and> unat (quorum p) \<le> card B \<longrightarrow>
        unat (malicious_nums p) < card (A \<inter> B))"
proof -
  obtain s where "NewBlockChain modelEnv sampleCC sampleDb Map.empty = Inr (sampleFresh s)"
    using sample_newchain by blast
  then obtain p where n: "NewPbftNode modelEnv 0 1 sampleCC [] sampleDb Map.empty 0 = Inr p"
    by (auto simp: NewPbftNode_def)
  have c: "0 < Nodes_perShard sampleCC" "unat (Nodes_perShard sampleCC) = 4" by (simp_all add: sampleCC_def)
  from quorum_intersection [OF n c(1)] n show ?thesis unfolding c(2) by auto
qed

theorem view_needs_quorum_witness:
  "\<exists>p' os. nodeStep KCLPA modelEnv sampleCfg (sampleNode\<lparr>malicious_nums := 0\<rparr>) os p' \<and> view p' = 1 \<and> sequenceID p' = 5"
proof -
  define p where "p = sampleNode\<lparr>malicious_nums := 0\<rparr>"
  define nv where "nv = \<lparr>nv_CurView = 0, nv_NextView = 1, NewSeqID = 5, nv_FromNode = 3\<rparr>"
  define p' where "p' = handleNewViewMsg 9 nv p"
  have "handleMessage modelEnv (moduleOf KCLPA modelEnv sampleCfg) 9 0 (WNewView nv) p = Inr (None, p', [])"
    by (simp add: handleMessage_def p'_def)
  then have st: "nodeStep KCLPA modelEnv sampleCfg p [] p'" by (rule nodeStep.receive)
  have f: "view p' = 1" "view p = 0" "sequenceID p' = 5"
    by (simp_all add: p'_def handleNewViewMsg_def nv_def p_def sampleNode_def toInt32_def Let_def)
  then have "view p' \<noteq> view p" by simp
  from view_needs_quorum [OF st this] st f show ?thesis unfolding p_def by blast
qed

definition sampleReply :: SendOldMessage where
  "sampleReply = \<lparr>SeqStartHeight = 1, SeqEndHeight = 2, OldRequest = [sampleRequest],
     so_SenderNode = \<lparr>NodeID = 0, ShardID = 0, IPaddr = ''n0''\<rparr>\<rparr>"

theorem short_reply_skips_blocks_witness:
  "\<exists>p' os. handleSendOldSeq modelEnv (moduleOf KCLPA modelEnv sampleCfg) sampleReply (sampleNode\<lparr>askForLocked := True\<rparr>) =
       Inr (p', os) \<and> sequenceID p' = 3 \<and> CurChain p' = CurChain sampleNode \<and> ''r'' \<in> isReply p'"
proof -
  have s: "\<not> enoughRequests sampleReply" by (simp add: enoughRequests_def sampleReply_def)
  obtain p' os where h: "handleSendOldSeq modelEnv (moduleOf KCLPA modelEnv sampleCfg) sampleReply
      (sampleNode\<lparr>askForLocked := True\<rparr>) = Inr (p', os)"
    using s by (simp add: handleSendOldSeq_def moduleOf_def clpaMod_def Let_def sampleReply_def storeOld_def
        putRequest_def sampleNode_def)
  have k: "KCLPA = KRelay \<or> KCLPA = KCLPA \<or> KCLPA = KCLPABroker" by simp
  from short_reply_skips_blocks [OF s k h] h sampleRequest_digest show ?thesis
    by (auto simp: sampleReply_def)
qed

theorem broker_refuses_complete_reply_witness:
  "HandleforSequentialRequest (moduleOf KBroker modelEnv sampleCfg)
     (sampleReply\<lparr>OldRequest := [sampleRequest, sampleRequest]\<rparr>) sampleNode = Inr sampleNode"
proof -
  have "SeqStartHeight sampleReply = 1" "SeqEndHeight sampleReply = 2" by (simp_all add: sampleReply_def)
  then show ?thesis
    using broker_refuses_complete_reply [of "sampleReply\<lparr>OldRequest := [sampleRequest, sampleRequest]\<rparr>" modelEnv sampleCfg sampleNode]
    by (simp add: heightCount_def)
qed


text \<open>A leader that has the request of height 1 only is asked for heights 1 to 2.\<close>

theorem catch_up_reply_witness:
  "\<exists>rom so. handleRequestOldSeq (moduleOf KCLPA modelEnv sampleCfg) rom
       (putRequest ''r'' sampleRequest 1 sampleLeader) = (putRequest ''r'' sampleRequest 1 sampleLeader, [(''n1'', WSendOld so)]) \<and>
     OldRequest so = [sampleRequest]"
proof -
  define p where "p = putRequest ''r'' sampleRequest 1 sampleLeader"
  define rom where "rom = \<lparr>ro_SeqStartHeight = 1, ro_SeqEndHeight = 2,
    ServerNode = \<lparr>NodeID = 0, ShardID = 0, IPaddr = ''n0''\<rparr>, ro_SenderNode = \<lparr>NodeID = 1, ShardID = 0, IPaddr = ''n1''\<rparr>\<rparr>"
  have l: "isLeader p" by (simp add: p_def isLeader_def putRequest_def sampleLeader_def sampleNode_def)
  have "collectOld p 1 (heightCount 1 2) = [sampleRequest]"
    by (simp add: p_def heightCount_def putRequest_def sampleLeader_def sampleNode_def numeral_2_eq_2 Let_def)
  with catch_up_reply [of KCLPA modelEnv sampleCfg rom p] l show ?thesis
    by (intro exI [of _ rom]) (simp add: p_def [symmetric] rom_def)
qed

end
