(* ===== verification/TransferProps.thy ===== *)
theory TransferProps
  imports ConsensusProps
begin

text \<open>
  Properties of what crosses shards: relayed transactions after a commit, the value of a
  cross-shard transaction, and the accounts and transactions that move in a repartition.
\<close>

section \<open>Relaying\<close>

definition mark :: "Transaction \<Rightarrow> Transaction" where
  "mark tx = tx\<lparr>Relayed := True\<rparr>"

text \<open>The shard of the recipient, as the chain of the node sees it.\<close>

definition goesTo :: "params \<Rightarrow> ('d, 's) pnode \<Rightarrow> Transaction \<Rightarrow> u64" where
  "goesTo cfg p tx = (case Get_PartitionMap cfg (CurChain p) (Recipient tx) of Inr s \<Rightarrow> s | Inl _ \<Rightarrow> 0)"

lemma relayTx_step:
  assumes "relayTx strict cfg p (i, r1, r2, pool) tx = Inr (i', r1', r2', pool')"
  shows "(if goesTo cfg p tx \<noteq> n_ShardID p then
            i' = i \<and> r1' = r1 @ [mark tx] \<and> r2' = r2 \<and> TxQueue pool' = TxQueue pool \<and>
            (\<forall>s. getOr [] (relayLookup pool' s) =
               getOr [] (relayLookup pool s) @ (if s = goesTo cfg p tx then [mark tx] else []))
          else pool' = pool \<and> r1' = r1 \<and>
            i' = i @ (if Relayed tx then [] else [tx]) \<and> r2' = r2 @ (if Relayed tx then [tx] else []))"
  using assms
  by (auto simp: relayTx_def res_simps goesTo_def mark_def Let_def AddRelayTx_def relayLookup_def
      split: if_splits option.splits)

lemma relayTx_fold:
  assumes "foldR (relayTx strict cfg p) (i, r1, r2, pool) txs = Inr (i', r1', r2', pool')"
  shows "i' = i @ filter (\<lambda>tx. goesTo cfg p tx = n_ShardID p \<and> \<not> Relayed tx) txs \<and>
     r2' = r2 @ filter (\<lambda>tx. goesTo cfg p tx = n_ShardID p \<and> Relayed tx) txs \<and>
     r1' = r1 @ map mark (filter (\<lambda>tx. goesTo cfg p tx \<noteq> n_ShardID p) txs) \<and>
     TxQueue pool' = TxQueue pool \<and>
     (\<forall>s. s \<noteq> n_ShardID p \<longrightarrow> getOr [] (relayLookup pool' s) =
        getOr [] (relayLookup pool s) @ map mark (filter (\<lambda>tx. goesTo cfg p tx = s) txs))"
  using assms
proof (induction txs arbitrary: i r1 r2 pool)
  case Nil
  then show ?case by simp
next
  case (Cons tx txs)
  obtain j s1 s2 q where h: "relayTx strict cfg p (i, r1, r2, pool) tx = Inr (j, s1, s2, q)"
    and rest: "foldR (relayTx strict cfg p) (j, s1, s2, q) txs = Inr (i', r1', r2', pool')"
    using Cons.prems by (auto simp: res_simps)
  from relayTx_step [OF h] Cons.IH [OF rest] show ?case
    by (auto split: if_splits)
qed

lemma otherShards_not_own: "sid \<in> set (otherShards p) \<Longrightarrow> sid \<noteq> n_ShardID p"
  by (simp add: otherShards_def)

text \<open>C10: After a leader commits a block (relay without proofs), the transactions of the block fall into three
  lists by the shard of their recipient: those that end here, split by whether they were relayed, and the
  others, which are marked as relayed. Each other shard is sent exactly the marked transactions whose recipient
  is its own, in the order of the block, and the supervisor is told the three lists and the size of the
  block; the relay pool is left unusable and the queue untouched.\<close>

theorem relay_routes:
  assumes cfg: "RelayWithMerkleProof cfg = 0"
    and run: "relayReport E cfg strict epoch sch r b p = Inr (p', os)"
  shows "\<exists>csv. os = map (\<lambda>sid. (ipOf (ip_nodeTable p) sid 0,
          WRelay \<lparr>r_Txs = map mark (filter (\<lambda>tx. goesTo cfg p tx = sid) (Body b)),
                  r_SenderShardID = n_ShardID p, r_SenderSeq = sequenceID p\<rparr>)) (otherShards p) @
       [(ipOf (ip_nodeTable p) SupervisorShard 0, WBlockInfo
          \<lparr>BlockBodyLength = length (Body b),
           InnerShardTxs = filter (\<lambda>tx. goesTo cfg p tx = n_ShardID p \<and> \<not> Relayed tx) (Body b), Epoch = epoch,
           ProposeTime = ReqTime r, CommitTime = s_now sch, SenderShardID = n_ShardID p,
           Relay1Txs = map mark (filter (\<lambda>tx. goesTo cfg p tx \<noteq> n_ShardID p) (Body b)),
           Relay2Txs = filter (\<lambda>tx. goesTo cfg p tx = n_ShardID p \<and> Relayed tx) (Body b),
           Broker1Txs = [], Broker2Txs = []\<rparr>), ('''', csv)] \<and>
     RelayPool (Txpool (CurChain p')) = None \<and> TxQueue (Txpool (CurChain p')) = TxQueue (Txpool (CurChain p))"
proof -
  define q where "q = onPool (\<lambda>pool. pool\<lparr>RelayPool := Some Map.empty\<rparr>) p"
  have qf: "ip_nodeTable q = ip_nodeTable p" "n_ShardID q = n_ShardID p" "sequenceID q = sequenceID p"
    "TxQueue (Txpool (CurChain q)) = TxQueue (Txpool (CurChain p))" "\<And>s. getOr [] (relayLookup (Txpool (CurChain q)) s) = []"
    "goesTo cfg q = goesTo cfg p" "ChainCfg (CurChain q) = ChainCfg (CurChain p)"
    by (auto simp: q_def onPool_def relayLookup_def goesTo_def Get_PartitionMap_def fun_eq_iff)
  from run obtain i r1 r2 pool where
    f: "foldR (relayTx strict cfg q) ([], [], [], Txpool (CurChain q)) (Body b) = Inr (i, r1, r2, pool)"
    unfolding relayReport_def Let_def q_def [symmetric] by (auto simp: res_simps)
  note fl = relayTx_fold [OF f, simplified]
  define t where "t = onPool (\<lambda>_. pool) q"
  have tf: "ip_nodeTable t = ip_nodeTable p" "n_ShardID t = n_ShardID p" "sequenceID t = sequenceID p"
    "otherShards t = otherShards p" "TxQueue (Txpool (CurChain t)) = TxQueue (Txpool (CurChain p))"
    using fl qf by (simp_all add: t_def onPool_def otherShards_def)
  have rt: "relayTxsTo t sid = map mark (filter (\<lambda>tx. goesTo cfg p tx = sid) (Body b))" if "sid \<in> set (otherShards p)" for sid
    using fl qf that by (simp add: relayTxsTo_def t_def onPool_def otherShards_not_own)
  have sent: "RelayMsgSend cfg t = Inr (onPool ClearRelayPool t,
     map (\<lambda>sid. (ipOf (ip_nodeTable p) sid 0,
          WRelay \<lparr>r_Txs = map mark (filter (\<lambda>tx. goesTo cfg p tx = sid) (Body b)),
                  r_SenderShardID = n_ShardID p, r_SenderSeq = sequenceID p\<rparr>)) (otherShards p))"
    using cfg rt by (simp add: RelayMsgSend_def tf)
  have "i = filter (\<lambda>tx. goesTo cfg p tx = n_ShardID p \<and> \<not> Relayed tx) (Body b)"
    "r2 = filter (\<lambda>tx. goesTo cfg p tx = n_ShardID p \<and> Relayed tx) (Body b)"
    "r1 = map mark (filter (\<lambda>tx. goesTo cfg p tx \<noteq> n_ShardID p) (Body b))"
    using fl qf by simp_all
  moreover define u where "u = onPool ClearRelayPool t"
  moreover have "ip_nodeTable u = ip_nodeTable p" "n_ShardID u = n_ShardID p" "RelayPool (Txpool (CurChain u)) = None"
    "TxQueue (Txpool (CurChain u)) = TxQueue (Txpool (CurChain p))"
    using tf by (simp_all add: u_def onPool_def ClearRelayPool_def)
  ultimately show ?thesis
    using run cfg f sent unfolding relayReport_def Let_def q_def [symmetric]
    by (auto simp: t_def [symmetric])
qed

section \<open>Moving accounts and their transactions\<close>

lemma queuePass_split:
  "queuePass sends txs (a, b) = (a @ filter sends txs, b @ filter (\<lambda>tx. \<not> sends tx) txs)"
  by (induction txs arbitrary: a b) auto

text \<open>The addresses of one destination, and the transactions a message carries.\<close>

definition movesTo :: "partitionMap \<Rightarrow> address list \<Rightarrow> u64 \<Rightarrow> address set" where
  "movesTo m addrs i = {a \<in> set addrs. pmGet m a = i}"

fun carried :: "wire \<Rightarrow> Transaction list" where
  "carried (WAccountStateAndTx at) = ast_Txs at"
| "carried _ = []"

lemma forShard_addrs:
  "length fetched = length addrs \<Longrightarrow> fst ` set (forShard m (zip addrs fetched) i) = movesTo m addrs i"
  by (force simp: forShard_def movesTo_def set_zip in_set_conv_nth)

definition stayers :: "partitionMap \<Rightarrow> address list \<Rightarrow> u64 list \<Rightarrow> Transaction list \<Rightarrow> Transaction list" where
  "stayers m addrs sids txs = filter (\<lambda>tx. \<forall>i \<in> set sids. \<not> leavesRelay (movesTo m addrs i) tx) txs"

definition transferMsg ::
  "('d, 's) pnode \<Rightarrow> (address \<times> AccountState) list \<Rightarrow> partitionMap \<Rightarrow> u64 \<Rightarrow> Transaction list \<Rightarrow> string \<times> wire" where
  "transferMsg p fetched m i txs = (ipOf (ip_nodeTable p) i 0, WAccountStateAndTx
     \<lparr>ast_Addrs = map fst (forShard m fetched i), ast_AccountState = map snd (forShard m fetched i),
      ast_Txs = txs, ast_FromShard = n_ShardID p\<rparr>)"

lemma sendOne_run:
  assumes "length fetched = length addrs" and "foldl (sendOne m (zip addrs fetched)) (p, os0) sids = (p', os)"
  shows "\<exists>qs. p' = onPool (\<lambda>q. q\<lparr>TxQueue := stayers m addrs sids (TxQueue (Txpool (CurChain p)))\<rparr>) p \<and>
     os = os0 @ map2 (transferMsg p (zip addrs fetched) m) sids qs \<and> length qs = length sids \<and>
     mset (TxQueue (Txpool (CurChain p))) = mset (stayers m addrs sids (TxQueue (Txpool (CurChain p)))) + mset (concat qs) \<and>
     (\<forall>j < length sids. \<forall>tx \<in> set (qs ! j). leavesRelay (movesTo m addrs (sids ! j)) tx)"
  using assms(2)
proof (induction sids arbitrary: p os0)
  case Nil
  then show ?case by (intro exI [of _ "[]"]) (auto simp: onPool_def stayers_def)
next
  case (Cons i sids)
  define L where "L = leavesRelay (movesTo m addrs i)"
  define Q where "Q = TxQueue (Txpool (CurChain p))"
  define p1 where "p1 = onPool (\<lambda>q. q\<lparr>TxQueue := filter (\<lambda>tx. \<not> L tx) Q\<rparr>) p"
  have one: "sendOne m (zip addrs fetched) (p, os0) i = (p1, os0 @ [transferMsg p (zip addrs fetched) m i (filter L Q)])"
    by (simp add: sendOne_def Let_def forShard_addrs [OF assms(1)] queuePass_split p1_def Q_def L_def transferMsg_def)
  have f: "TxQueue (Txpool (CurChain p1)) = filter (\<lambda>tx. \<not> L tx) Q" "transferMsg p1 = transferMsg p"
    by (simp_all add: p1_def onPool_def transferMsg_def fun_eq_iff)
  have st: "stayers m addrs sids (filter (\<lambda>tx. \<not> L tx) Q) = stayers m addrs (i # sids) Q"
    by (simp add: stayers_def L_def conj_commute)
  have up: "onPool (\<lambda>q. q\<lparr>TxQueue := X\<rparr>) p1 = onPool (\<lambda>q. q\<lparr>TxQueue := X\<rparr>) p" for X
    by (simp add: p1_def onPool_def)
  have "foldl (sendOne m (zip addrs fetched)) (p1, os0 @ [transferMsg p (zip addrs fetched) m i (filter L Q)]) sids = (p', os)"
    using Cons.prems one by simp
  from Cons.IH [OF this, unfolded f st up] obtain qs where
    q: "p' = onPool (\<lambda>q. q\<lparr>TxQueue := stayers m addrs (i # sids) Q\<rparr>) p"
      "os = (os0 @ [transferMsg p (zip addrs fetched) m i (filter L Q)]) @ map2 (transferMsg p (zip addrs fetched) m) sids qs"
      "length qs = length sids"
      "mset (filter (\<lambda>tx. \<not> L tx) Q) = mset (stayers m addrs (i # sids) Q) + mset (concat qs)"
      "\<forall>j < length sids. \<forall>tx \<in> set (qs ! j). leavesRelay (movesTo m addrs (sids ! j)) tx"
    by blast
  have "mset Q = mset (filter L Q) + mset (filter (\<lambda>tx. \<not> L tx) Q)" by (simp add: filter_partition_mset)
  then have ms: "mset Q = mset (stayers m addrs (i # sids) Q) + mset (concat (filter L Q # qs))"
    unfolding q(4) by (simp del: mset_filter add: ac_simps)
  have lv: "\<forall>j < length (i # sids). \<forall>tx \<in> set ((filter L Q # qs) ! j). leavesRelay (movesTo m addrs ((i # sids) ! j)) tx"
    using q(5) by (auto simp: nth_Cons L_def split: nat.splits)
  show ?case
    unfolding Q_def [symmetric] using q(1-3) ms lv by (intro exI [of _ "filter L Q # qs"]) simp
qed

lemma FetchAccounts_balances:
  assumes "stateAt E (triedb bc) (toHash E (StateRoot (Header (CurrentBlock bc)))) = Some L"
    and "FetchAccounts E bc addrs = Inr as"
  shows "length as = length addrs \<and> (\<forall>i < length addrs. Balance (as ! i) = L (addrs ! i))"
proof -
  obtain st where st: "trieNew E (toHash E (StateRoot (Header (CurrentBlock bc)))) (triedb bc) = Some st" "L = balOf E st"
    using assms(1) by (auto simp: stateAt_def)
  have run: "foldR (\<lambda>res addr. bindR (loadAccount E 0 st addr) (\<lambda>a. Inr (res @ [a]))) [] addrs = Inr as"
    using assms(2) st(1) by (simp add: FetchAccounts_def)
  have "\<exists>bs. as' = res @ bs \<and> length bs = length addrs \<and> (\<forall>i < length addrs. Balance (bs ! i) = L (addrs ! i))"
    if "foldR (\<lambda>res addr. bindR (loadAccount E 0 st addr) (\<lambda>a. Inr (res @ [a]))) res addrs = Inr as'" for res as'
    using that
  proof (induction addrs arbitrary: res)
    case Nil
    then show ?case by simp
  next
    case (Cons a addrs)
    then obtain s where s: "loadAccount E 0 st a = Inr s"
      "foldR (\<lambda>res addr. bindR (loadAccount E 0 st addr) (\<lambda>a. Inr (res @ [a]))) (res @ [s]) addrs = Inr as'"
      by (auto simp: res_simps)
    from Cons.IH [OF s(2)] obtain bs where "as' = (res @ [s]) @ bs" "length bs = length addrs"
      "\<forall>i < length addrs. Balance (bs ! i) = L (addrs ! i)" by blast
    then show ?case
      using loadAccount_balance [OF s(1)] st(2) by (intro exI [of _ "s # bs"]) (auto simp: nth_Cons split: nat.splits)
  qed
  from this [OF run] show ?thesis by simp
qed

lemma FetchAccounts_length: "FetchAccounts E bc addrs = Inr as \<Longrightarrow> length as = length addrs"
proof -
  assume "FetchAccounts E bc addrs = Inr as"
  then obtain st where "trieNew E (toHash E (StateRoot (Header (CurrentBlock bc)))) (triedb bc) = Some st"
    by (auto simp: FetchAccounts_def split: option.splits)
  then have "stateAt E (triedb bc) (toHash E (StateRoot (Header (CurrentBlock bc)))) = Some (balOf E st)"
    by (simp add: stateAt_def)
  from FetchAccounts_balances [OF this] \<open>FetchAccounts E bc addrs = Inr as\<close> show ?thesis by simp
qed

text \<open>C8: When a leader sends accounts away for a repartition, no pending transaction is lost or copied: its queue
  before is, as a multiset, its queue after together with what the messages carry. Each other shard gets one
  message with the accounts that the last partition map gives to it; every transaction in it is bound to one of
  those accounts, and exactly the transactions bound to no account that left stay, in their order. Nothing but
  the queue changes.\<close>

theorem transfer_conserves:
  assumes run: "sendAccounts_and_Txs E cfg p = Inr (p', os)"
  shows "\<exists>m addrs states. ModifiedMap (cdm p) \<noteq> [] \<and> m = last (ModifiedMap (cdm p)) \<and>
     accountsToFetch cfg m p = Inr addrs \<and> FetchAccounts E (CurChain p) addrs = Inr states \<and>
     p' = onPool (\<lambda>q. q\<lparr>TxQueue := stayers m addrs (otherShards p) (TxQueue (Txpool (CurChain p)))\<rparr>) p \<and>
     mset (TxQueue (Txpool (CurChain p))) = mset (TxQueue (Txpool (CurChain p'))) + mset (concat (map (carried \<circ> snd) os)) \<and>
     length os = length (otherShards p) \<and>
     (\<forall>j < length (otherShards p). os ! j =
        transferMsg p (zip addrs states) m (otherShards p ! j) (carried (snd (os ! j))) \<and>
        (\<forall>tx \<in> set (carried (snd (os ! j))). leavesRelay (movesTo m addrs (otherShards p ! j)) tx))"
proof -
  have ne: "ModifiedMap (cdm p) \<noteq> []"
    using run by (auto simp: sendAccounts_and_Txs_def res_simps)
  define m where "m = last (ModifiedMap (cdm p))"
  have ix: "nthI (ModifiedMap (cdm p)) (int (length (ModifiedMap (cdm p))) - 1) = Inr m"
    using ne by (simp add: nthI_def m_def last_conv_nth nat_diff_distrib Suc_le_eq)
  obtain addrs states where a: "accountsToFetch cfg m p = Inr addrs"
    and s: "FetchAccounts E (CurChain p) addrs = Inr states"
    and r: "foldl (sendOne m (zip addrs states)) (p, []) (otherShards p) = (p', os)"
    using run unfolding sendAccounts_and_Txs_def ix by (auto simp: res_simps)
  from sendOne_run [OF FetchAccounts_length [OF s] r] obtain qs where
    p': "p' = onPool (\<lambda>q. q\<lparr>TxQueue := stayers m addrs (otherShards p) (TxQueue (Txpool (CurChain p)))\<rparr>) p"
    and os: "os = map2 (transferMsg p (zip addrs states) m) (otherShards p) qs" and len: "length qs = length (otherShards p)"
    and ms: "mset (TxQueue (Txpool (CurChain p))) =
          mset (stayers m addrs (otherShards p) (TxQueue (Txpool (CurChain p)))) + mset (concat qs)"
    and lv: "\<forall>j < length (otherShards p). \<forall>tx \<in> set (qs ! j). leavesRelay (movesTo m addrs (otherShards p ! j)) tx"
    by auto
  have c: "map (carried \<circ> snd) os = qs"
    using len by (auto simp: os list_eq_iff_nth_eq transferMsg_def)
  then have cj: "carried (snd (os ! j)) = qs ! j" if "j < length (otherShards p)" for j
    using that len os by (metis (no_types, lifting) comp_apply length_map nth_map)
  have "TxQueue (Txpool (CurChain p')) = stayers m addrs (otherShards p) (TxQueue (Txpool (CurChain p)))"
    by (simp add: p' onPool_def)
  moreover have "length os = length (otherShards p)" "\<forall>j < length (otherShards p). os ! j =
      transferMsg p (zip addrs states) m (otherShards p ! j) (qs ! j)"
    using len by (simp_all add: os)
  ultimately show ?thesis
    using ne m_def a s ms lv p' c cj by (intro exI [of _ m] exI [of _ addrs] exI [of _ states]) simp
qed

lemma update_all:
  assumes "distinct (map fst m)"
  shows "foldl (\<lambda>bc kv. Update_PartitionMap (fst kv) (snd kv) bc) bc m =
    bc\<lparr>PartitionMap := (\<lambda>a. case map_of m a of None \<Rightarrow> PartitionMap bc a | Some s \<Rightarrow> Some s)\<rparr>"
  using assms
proof (induction m arbitrary: bc)
  case Nil
  then show ?case by simp
next
  case (Cons kv m)
  then have "map_of m (fst kv) = None" by (simp add: map_of_eq_None_iff)
  with Cons show ?case by (auto simp: Update_PartitionMap_def fun_eq_iff split: option.splits)
qed

text \<open>C9: An account moves with its balance: when the states a source shard fetched for some accounts are
  committed by a node of a shard that the partition map gives those accounts to, the new state of that shard has
  for each of them the balance it had at the source, and every other account keeps its own; the map is in force
  there afterwards, the transfer round is the one of the message and the node is ready for the next one.\<close>

theorem account_moves_with_balance:
  assumes laws: "trieLawful E" "triedb_laws E" and wf: "wfDb E (triedb (CurChain q))"
    and source: "stateAt E (triedb bcS) (toHash E (StateRoot (Header (CurrentBlock bcS)))) = Some LS"
    and fetch: "FetchAccounts E bcS (atm_Addrs atm) = Inr (atm_AccountState atm)"
    and dest: "stateAt E (triedb (CurChain q)) (toHash E (StateRoot (Header (CurrentBlock (CurChain q))))) = Some LD"
    and maps: "distinct (atm_Addrs atm)" "distinct (map fst (atm_ModifiedMap atm))"
      "\<forall>a \<in> set (atm_Addrs atm). map_of (atm_ModifiedMap atm) a = Some (cc_ShardID (ChainCfg (CurChain q)))"
    and run: "decATM E (Content r) = Some atm" "decodeTransfer E cfg r q = Inr q'"
  shows "(\<exists>L'. stateAt E (triedb (CurChain q')) (toHash E (StateRoot (Header (CurrentBlock (CurChain q'))))) = Some L' \<and>
       (\<forall>a \<in> set (atm_Addrs atm). L' a = LS a) \<and> (\<forall>a. a \<notin> set (atm_Addrs atm) \<longrightarrow> L' a = LD a)) \<and>
     (\<forall>a s. map_of (atm_ModifiedMap atm) a = Some s \<longrightarrow> Get_PartitionMap cfg (CurChain q') a = Inr s) \<and>
     AccountTransferRound (cdm q') = ATid atm \<and> \<not> PartitionOn (cdm q') \<and> \<not> CollectOver (cdm q') \<and>
     AccountStateTx (cdm q') = Map.empty \<and> PartitionReady (cdm q') = {}"
proof -
  define bc where "bc = (CurChain q)\<lparr>PartitionMap :=
    (\<lambda>a. case map_of (atm_ModifiedMap atm) a of None \<Rightarrow> PartitionMap (CurChain q) a | Some s \<Rightarrow> Some s)\<rparr>"
  have bf: "triedb bc = triedb (CurChain q)" "CurrentBlock bc = CurrentBlock (CurChain q)" "ChainCfg bc = ChainCfg (CurChain q)"
    by (simp_all add: bc_def)
  obtain bc' where add: "AddAccounts E cfg (atm_Addrs atm) (atm_AccountState atm) (word_of_int (view q)) bc = Inr bc'"
    and q': "CurChain q' = bc'" "AccountTransferRound (cdm q') = ATid atm" "\<not> PartitionOn (cdm q')"
      "\<not> CollectOver (cdm q')" "AccountStateTx (cdm q') = Map.empty" "PartitionReady (cdm q') = {}"
    using run update_all [OF maps(2), of "CurChain q"]
    by (auto simp: decodeTransfer_def accountTransfer_do_def res_simps onCdm_def bc_def)
  note fb = FetchAccounts_balances [OF source fetch]
  have home: "isHome cfg bc a" if "a \<in> set (atm_Addrs atm)" for a
    using maps(3) that by (simp add: isHome_def Get_PartitionMap_def bc_def)
  obtain L' where L: "stateAt E (triedb bc') (toHash E (StateRoot (Header (CurrentBlock bc')))) = Some L'"
    and at: "L' = installs (isHome cfg bc) LD (zip (atm_Addrs atm) (atm_AccountState atm))"
    using AddAccounts_state [OF laws _ _ add] wf dest fb by (simp add: bf)
  have fsts: "map fst (zip (atm_Addrs atm) (atm_AccountState atm)) = atm_Addrs atm" using fb by simp
  have "L' a = LS a" if a: "a \<in> set (atm_Addrs atm)" for a
  proof -
    obtain i where i: "i < length (atm_Addrs atm)" "atm_Addrs atm ! i = a" using a by (auto simp: in_set_conv_nth)
    have "L' a = Balance (atm_AccountState atm ! i)"
      using installs_inside [of "zip (atm_Addrs atm) (atm_AccountState atm)" i "isHome cfg bc" LD] i fb home [OF a] maps(1) fsts
      by (simp add: at)
    then show ?thesis using fb i by simp
  qed
  moreover have "L' a = LD a" if "a \<notin> set (atm_Addrs atm)" for a
    using installs_outside [of a "zip (atm_Addrs atm) (atm_AccountState atm)"] that fsts by (simp add: at)
  moreover have "PartitionMap bc' = PartitionMap bc"
    by (rule AddAccounts_inv [OF add]) (drule arg_cong [where f = PartitionMap], simp)
  then have "Get_PartitionMap cfg bc' a = Inr s" if "map_of (atm_ModifiedMap atm) a = Some s" for a s
    using that by (simp add: Get_PartitionMap_def bc_def)
  ultimately show ?thesis using L q' by blast
qed

section \<open>The value of a cross-shard transaction\<close>

text \<open>C28: The two halves of a cross-shard transaction, executed by the sender's shard and, as the relayed copy, by
  the recipient's shard, keep the sum of the two balances exactly when the sender could pay. The sender's shard
  relays the transaction whether or not it executed, so when the balance was short the recipient is credited and
  nobody debited: the sum grows by the value.\<close>

theorem cross_shard_value:
  assumes laws: "trieLawful E" "triedb_laws E" and wf: "wfDb E (triedb bcS)" "wfDb E (triedb bcD)"
    and S: "stateAt E (triedb bcS) (toHash E (StateRoot (Header (CurrentBlock bcS)))) = Some LS"
      "GetUpdateStatusTrie E cfg [tx] bcS = Inr (rtS, bcS')"
    and D: "stateAt E (triedb bcD) (toHash E (StateRoot (Header (CurrentBlock bcD)))) = Some LD"
      "GetUpdateStatusTrie E cfg [mark tx] bcD = Inr (rtD, bcD')"
    and cross: "isHome cfg bcS (Sender tx)" "\<not> isHome cfg bcS (Recipient tx)" "isHome cfg bcD (Recipient tx)"
    and tx: "\<not> Relayed tx" "\<not> HasBroker tx"
  shows "\<exists>LS' LD'. stateAt E (triedb bcS') rtS = Some LS' \<and> stateAt E (triedb bcD') rtD = Some LD' \<and>
     LS' (Sender tx) + LD' (Recipient tx) =
       LS (Sender tx) + LD (Recipient tx) + (if LS (Sender tx) < Value tx then Value tx else 0)"
proof -
  have fields: "Relayed (mark tx)" "Sender (mark tx) = Sender tx" "Recipient (mark tx) = Recipient tx"
    "Value (mark tx) = Value tx" "HasBroker (mark tx) = HasBroker tx"
    by (simp_all add: mark_def)
  have "stateAt E (triedb bcS') rtS = Some (ledgerStep (isHome cfg bcS) LS tx)"
    using GetUpdateStatusTrie_state [OF laws wf(1) S] by simp
  moreover have "stateAt E (triedb bcD') rtD = Some (ledgerStep (isHome cfg bcD) LD (mark tx))"
    using GetUpdateStatusTrie_state [OF laws wf(2) D] by simp
  ultimately show ?thesis
    using cross tx fields by (auto simp: ledgerStep_def debits_def credits_def debit_def credit_def)
qed


section \<open>Witnesses\<close>

text \<open>A transaction from account a to account c, which lives in shard 1, of more than a can pay.\<close>

definition sampleCross :: Transaction where
  "sampleCross = NewTransaction (hashTx modelEnv) ''a'' ''c'' (Init_Balance + 1) 4 5"

definition sampleMixed :: Block where
  "sampleMixed = \<lparr>Header = Header (genesis modelEnv), Body = [hd sampleTxs, sampleCross], Hash = ''''\<rparr>"

theorem relay_routes_witness:
  "\<exists>p' os. relayReport modelEnv sampleCfg True 0 sampleSched sampleRequest sampleMixed sampleLeader = Inr (p', os) \<and>
     ('''', WRelay \<lparr>r_Txs = [mark sampleCross], r_SenderShardID = 0, r_SenderSeq = 1\<rparr>) \<in> set os \<and>
     TxQueue (Txpool (CurChain p')) = TxQueue (Txpool sampleChain)"
proof -
  have run: "isOk (relayReport modelEnv sampleCfg True 0 sampleSched sampleRequest sampleMixed sampleLeader)"
    by (simp add: relayReport_def sampleMixed_def sampleCross_def sampleTxs_def NewTransaction_fields relayTx_def
        sampleLeader_def sampleNode_def sampleChain_def Get_PartitionMap_def onPool_def AddRelayTx_def sampleCfg_def
        RelayMsgSend_def Let_def)
  then obtain p' os where h: "relayReport modelEnv sampleCfg True 0 sampleSched sampleRequest sampleMixed sampleLeader = Inr (p', os)"
    by (auto simp: isOk_iff)
  have g: "goesTo sampleCfg sampleLeader (hd sampleTxs) = 0" "goesTo sampleCfg sampleLeader sampleCross = 1"
    by (simp_all add: goesTo_def Get_PartitionMap_def sampleLeader_def sampleChain_def sampleTxs_def sampleCross_def
        NewTransaction_fields)
  have o: "otherShards sampleLeader = [1]"
    by (simp add: otherShards_def sampleLeader_def sampleNode_def sampleChain_def sampleCC_def upt_conv_Cons)
  have f: "ipOf (ip_nodeTable sampleLeader) 1 0 = ''''" "n_ShardID sampleLeader = 0" "sequenceID sampleLeader = 1"
    "CurChain sampleLeader = sampleChain"
    by (simp_all add: sampleLeader_def sampleNode_def ipOf_def)
  have c: "RelayWithMerkleProof sampleCfg = 0" by (simp add: sampleCfg_def)
  from relay_routes [OF c h] h show ?thesis
    unfolding o f by (auto simp: sampleMixed_def g f)
qed

definition sampleMover :: mnode where
  "sampleMover = sampleLeader\<lparr>cdm := NewCLPADataSupport\<lparr>ModifiedMap := [[(''a'', 1)]]\<rparr>\<rparr>"

lemma sample_fetch: "FetchAccounts modelEnv sampleChain [''a''] = Inr [newAccount 0]"
  by (simp add: FetchAccounts_def sample_defs genesis_fields modelEnv_ops loadAccount_def)

theorem transfer_conserves_witness:
  "\<exists>p' os. sendAccounts_and_Txs modelEnv sampleCfg sampleMover = Inr (p', os) \<and>
     mset (TxQueue (Txpool sampleChain)) = mset (TxQueue (Txpool (CurChain p'))) + mset (concat (map (carried \<circ> snd) os)) \<and>
     length os = 1"
proof -
  note s = sample_fetch
  have f: "CurChain sampleMover = sampleChain" "ModifiedMap (cdm sampleMover) = [[(''a'', 1)]]" "n_ShardID sampleMover = 0"
    by (simp_all add: sampleMover_def sampleLeader_def sampleNode_def)
  have a: "accountsToFetch sampleCfg [(''a'', 1)] sampleMover = Inr [''a'']"
    by (simp add: accountsToFetch_def f Get_PartitionMap_def sampleChain_def)
  have o: "length (otherShards sampleMover) = 1"
    by (simp add: otherShards_def f) (simp add: sampleChain_def sampleCC_def upt_conv_Cons)
  obtain p' os where h: "sendAccounts_and_Txs modelEnv sampleCfg sampleMover = Inr (p', os)"
    by (cases "foldl (sendOne [(''a'', 1)] (zip [''a''] [newAccount 0])) (sampleMover, []) (otherShards sampleMover)")
      (simp add: sendAccounts_and_Txs_def f nthI_def a s)
  from transfer_conserves [OF h] h show ?thesis unfolding f o by auto
qed


text \<open>The same chain in shard 1, with an account transfer in flight for account a.\<close>

definition sampleDest :: mchain where
  "sampleDest = sampleChain\<lparr>ChainCfg := sampleCC\<lparr>cc_ShardID := 1\<rparr>\<rparr>"

definition sampleATM :: AccountTransferMsg where
  "sampleATM = \<lparr>atm_ModifiedMap = [(''a'', 1)], atm_Addrs = [''a''], atm_AccountState = [newAccount 0], ATid = 1\<rparr>"

lemma sampleDest_start:
  "stateAt modelEnv (triedb sampleDest) (toHash modelEnv (StateRoot (Header (CurrentBlock sampleDest)))) =
     Some (\<lambda>a. Init_Balance)"
  "wfDb modelEnv (triedb sampleDest)"
  using sample_start sample_wfDb by (simp_all add: sampleDest_def)

lemma sample_decode:
  "\<exists>q'. decodeTransfer modelEnv sampleCfg (sampleRequest\<lparr>Content := encATM modelEnv sampleATM\<rparr>)
     (sampleLeader\<lparr>CurChain := sampleDest\<rparr>) = Inr q'"
proof -
  obtain bl where bl: "GetBloomFilter modelEnv [] = Inr bl" using GetBloomFilter_total by blast
  have "\<exists>s. storeBlock modelEnv b Map.empty = Inr s" for b using modelEnv_store .
  then obtain f where f: "storeBlock modelEnv b Map.empty = Inr (f b)" for b by metis
  have d: "decATM modelEnv (encATM modelEnv sampleATM) = Some sampleATM" by (simp add: modelEnv_def)
  show ?thesis
    by (simp add: decodeTransfer_def d)
      (simp add: accountTransfer_do_def sampleATM_def sampleDest_def Update_PartitionMap_def
        AddAccounts_def sample_defs genesis_fields modelEnv_ops addAccountsTrie_def addAccountStep_def
        Get_PartitionMap_def nthR_def commitTrie_def bl f Let_def)
qed

theorem account_moves_with_balance_witness:
  "\<exists>q'. decodeTransfer modelEnv sampleCfg (sampleRequest\<lparr>Content := encATM modelEnv sampleATM\<rparr>)
     (sampleLeader\<lparr>CurChain := sampleDest\<rparr>) = Inr q' \<and>
   (\<exists>L'. stateAt modelEnv (triedb (CurChain q')) (toHash modelEnv (StateRoot (Header (CurrentBlock (CurChain q'))))) = Some L' \<and>
      L' ''a'' = Init_Balance) \<and> Get_PartitionMap sampleCfg (CurChain q') ''a'' = Inr 1 \<and>
   AccountTransferRound (cdm q') = 1"
proof -
  obtain q' where h: "decodeTransfer modelEnv sampleCfg (sampleRequest\<lparr>Content := encATM modelEnv sampleATM\<rparr>)
     (sampleLeader\<lparr>CurChain := sampleDest\<rparr>) = Inr q'" using sample_decode by blast
  have d: "decATM modelEnv (Content (sampleRequest\<lparr>Content := encATM modelEnv sampleATM\<rparr>)) = Some sampleATM"
    by (simp add: modelEnv_def)
  have a: "FetchAccounts modelEnv sampleChain (atm_Addrs sampleATM) = Inr (atm_AccountState sampleATM)"
    "distinct (atm_Addrs sampleATM)" "distinct (map fst (atm_ModifiedMap sampleATM))"
    "\<forall>a \<in> set (atm_Addrs sampleATM). map_of (atm_ModifiedMap sampleATM) a =
       Some (cc_ShardID (ChainCfg (CurChain (sampleLeader\<lparr>CurChain := sampleDest\<rparr>))))"
    using sample_fetch by (simp_all add: sampleATM_def sampleDest_def sampleCC_def)
  have w: "wfDb modelEnv (triedb (CurChain (sampleLeader\<lparr>CurChain := sampleDest\<rparr>)))"
    "stateAt modelEnv (triedb (CurChain (sampleLeader\<lparr>CurChain := sampleDest\<rparr>)))
      (toHash modelEnv (StateRoot (Header (CurrentBlock (CurChain (sampleLeader\<lparr>CurChain := sampleDest\<rparr>)))))) =
       Some (\<lambda>a. Init_Balance)"
    using sampleDest_start by simp_all
  from account_moves_with_balance [OF modelEnv_lawful modelEnv_triedb w(1) sample_start a(1) w(2) a(2-4) d h] h
  show ?thesis by (auto simp: sampleATM_def)
qed

text \<open>The sample transaction is worth one more than its sender has.\<close>

theorem cross_shard_value_witness:
  "\<exists>rtS bcS' rtD bcD' LS' LD'. GetUpdateStatusTrie modelEnv sampleCfg [sampleCross] sampleChain = Inr (rtS, bcS') \<and>
     GetUpdateStatusTrie modelEnv sampleCfg [mark sampleCross] sampleDest = Inr (rtD, bcD') \<and>
     stateAt modelEnv (triedb bcS') rtS = Some LS' \<and> stateAt modelEnv (triedb bcD') rtD = Some LD' \<and>
     LS' ''a'' + LD' ''c'' = 2 * Init_Balance + (Init_Balance + 1)"
proof -
  have okS: "\<exists>rt d. GetUpdateStatusTrie modelEnv sampleCfg [sampleCross] sampleChain = Inr (rt, sampleChain\<lparr>triedb := d\<rparr>)"
    by (simp add: GetUpdateStatusTrie_def sample_defs sampleCross_def genesis_fields modelEnv_ops execTxs_def execTx_def
        senderHalf_def recipientHalf_def Get_PartitionMap_def loadAccount_def newAccount_def
        NewTransaction_fields Init_Balance_def Deduct_def Deposit_def commitTrie_def Let_def)
  have okD: "\<exists>rt d. GetUpdateStatusTrie modelEnv sampleCfg [mark sampleCross] sampleDest = Inr (rt, sampleDest\<lparr>triedb := d\<rparr>)"
    by (simp add: GetUpdateStatusTrie_def sample_defs sampleDest_def sampleCross_def mark_def genesis_fields modelEnv_ops
        execTxs_def execTx_def senderHalf_def recipientHalf_def Get_PartitionMap_def loadAccount_def newAccount_def
        NewTransaction_fields Init_Balance_def Deduct_def Deposit_def commitTrie_def)
  obtain rtS dS rtD dD where S: "GetUpdateStatusTrie modelEnv sampleCfg [sampleCross] sampleChain = Inr (rtS, sampleChain\<lparr>triedb := dS\<rparr>)"
    and D: "GetUpdateStatusTrie modelEnv sampleCfg [mark sampleCross] sampleDest = Inr (rtD, sampleDest\<lparr>triedb := dD\<rparr>)"
    using okS okD by blast
  have tx: "Sender sampleCross = ''a''" "Recipient sampleCross = ''c''" "Value sampleCross = Init_Balance + 1"
    "\<not> Relayed sampleCross" "\<not> HasBroker sampleCross"
    by (simp_all add: sampleCross_def NewTransaction_fields)
  have home: "isHome sampleCfg sampleChain (Sender sampleCross)" "\<not> isHome sampleCfg sampleChain (Recipient sampleCross)"
    "isHome sampleCfg sampleDest (Recipient sampleCross)"
    unfolding tx by (simp_all add: isHome_def Get_PartitionMap_def sampleDest_def sampleChain_def sampleCC_def)
  obtain LS' LD' where r: "stateAt modelEnv (triedb (sampleChain\<lparr>triedb := dS\<rparr>)) rtS = Some LS'"
    "stateAt modelEnv (triedb (sampleDest\<lparr>triedb := dD\<rparr>)) rtD = Some LD'"
    "LS' ''a'' + LD' ''c'' = Init_Balance + Init_Balance +
       (if Init_Balance < Init_Balance + 1 then Init_Balance + 1 else 0)"
    using cross_shard_value [OF modelEnv_lawful modelEnv_triedb sample_wfDb sampleDest_start(2) sample_start S
      sampleDest_start(1) D home tx(4,5)] unfolding tx by (elim exE conjE) rule
  then have "LS' ''a'' + LD' ''c'' = 2 * Init_Balance + (Init_Balance + 1)" by simp
  with S D r(1,2) show ?thesis by (intro exI conjI)
qed

end
