(* ===== verification/InjectionProps.thy ===== *)
theory InjectionProps
  imports CLPACommittee TransferProps
begin

text \<open>
  Properties of the injection of transactions: the batches of the sending loop, what each
  shard is sent, and which part of the data set a committee sends.
\<close>

section \<open>Batches\<close>

function chunks :: "nat \<Rightarrow> 'a list \<Rightarrow> 'a list list" where
  "chunks n xs = (if n = 0 \<or> xs = [] then [] else take n xs # chunks n (drop n xs))"
  by pat_completeness auto

termination
  by (relation "measure (\<lambda>(n, xs). length xs)") auto

declare chunks.simps [simp del]

lemma chunks_Nil [simp]: "chunks n [] = []"
  by (simp add: chunks.simps)

lemma chunks_short: "xs \<noteq> [] \<Longrightarrow> length xs \<le> n \<Longrightarrow> chunks n xs = [xs]"
  by (cases n) (simp_all add: chunks.simps [of _ xs])

lemma chunks_full: "length xs = n \<Longrightarrow> 0 < n \<Longrightarrow> chunks n (xs @ ys) = xs # chunks n ys"
  by (subst chunks.simps) auto

lemma concat_chunks: "0 < n \<Longrightarrow> concat (chunks n xs) = xs"
proof (induction n xs rule: chunks.induct)
  case (1 n xs)
  show ?case
  proof (cases "xs = []")
    case False
    with 1 show ?thesis by (subst chunks.simps) simp
  qed simp
qed

lemma chunks_length: "c \<in> set (chunks n xs) \<Longrightarrow> 0 < length c \<and> length c \<le> n"
proof (induction n xs rule: chunks.induct)
  case (1 n xs)
  show ?case
  proof (cases "n = 0 \<or> xs = []")
    case True
    then show ?thesis using 1(2) by (subst (asm) chunks.simps) simp
  next
    case False
    then have "c = take n xs \<or> c \<in> set (chunks n (drop n xs))" using 1(2) by (subst (asm) chunks.simps) auto
    then show ?thesis using False 1(1) by auto
  qed
qed

lemma length_chunks: "0 < n \<Longrightarrow> length (chunks n xs) = (length xs + n - 1) div n"
proof (induction n xs rule: chunks.induct)
  case (1 n xs)
  show ?case
  proof (cases "xs = []")
    case True
    then show ?thesis using 1(2) by simp
  next
    case False
    then have c: "length (chunks n xs) = Suc (length (chunks n (drop n xs)))" using 1(2) by (subst chunks.simps) simp
    show ?thesis
    proof (cases "length xs \<le> n")
      case True
      then have "(length xs + n - 1) div n = 1"
        using False 1(2) by (intro div_nat_eqI) (cases xs, auto)
      with c True show ?thesis by simp
    next
      case gt: False
      then have "length xs + n - 1 = (length (drop n xs) + n - 1) + n" by simp
      then have "(length xs + n - 1) div n = Suc ((length (drop n xs) + n - 1) div n)"
        using 1(2) div_add_self2 [of n "length (drop n xs) + n - 1"] by (simp only: Suc_eq_plus1)
      moreover have "length (chunks n (drop n xs)) = (length (drop n xs) + n - 1) div n" using 1 False by blast
      ultimately show ?thesis using c by (simp only:)
    qed
  qed
qed

section \<open>The sending loop\<close>

text \<open>What one batch sends to each shard.\<close>

definition byShard :: "(Transaction \<Rightarrow> u64 res) \<Rightarrow> Transaction list \<Rightarrow> u64 \<Rightarrow> Transaction list" where
  "byShard dest txs sid = filter (\<lambda>tx. dest tx = Inr sid) txs"

lemma byShard_snoc: "dest tx = Inr s \<Longrightarrow> (byShard dest cur)(s := byShard dest cur s @ [tx]) = byShard dest (cur @ [tx])"
  by (auto simp: byShard_def)

lemma goRem_nat: "0 < n \<Longrightarrow> goRem (int i) (int n) = Inr (int (i mod n))"
  by (cases "i = 0") (simp_all add: goRem_def zmod_int)

lemma mod_full: "0 < k \<Longrightarrow> k \<le> n \<Longrightarrow> k mod n = 0 \<Longrightarrow> k = (n :: nat)"
  by (cases "k < n") simp_all

lemma sendLoop_batches:
  assumes n: "InjectSpeed cfg = int n" "0 < n"
    and ok: "\<forall>tx \<in> set txs. isOk (dest tx)"
    and cur: "idx = 0 \<and> cur = [] \<or> 0 < idx \<and> cur \<noteq> [] \<and> length cur \<le> n \<and> length cur mod n = idx mod n"
  shows "sendLoop cfg tbl dest idx (byShard dest cur) txs os =
     Inr (os @ concat (map (\<lambda>c. flushShards cfg tbl (byShard dest c)) (chunks n (cur @ txs))))"
  using ok cur
proof (induction txs arbitrary: idx cur os)
  case Nil
  then show ?case
    using n by (subst sendLoop.simps) (auto simp: goRem_nat chunks_short)
next
  case (Cons tx txs)
  obtain s where s: "dest tx = Inr s" using Cons.prems(1) by (auto simp: isOk_iff)
  have ok': "\<forall>tx \<in> set txs. isOk (dest tx)" using Cons.prems(1) by simp
  have nil: "(\<lambda>_. []) = byShard dest []" by (simp add: byShard_def fun_eq_iff)
  show ?case
  proof (cases "0 < idx \<and> idx mod n = 0")
    case True
    then have len: "length cur = n" using Cons.prems(2) n mod_full [of "length cur" n] by auto
    have "sendLoop cfg tbl dest idx (byShard dest cur) (tx # txs) os =
        sendLoop cfg tbl dest (Suc idx) (byShard dest ([] @ [tx])) txs (os @ flushShards cfg tbl (byShard dest cur))"
      using True n s by (subst sendLoop.simps) (simp add: goRem_nat nil byShard_snoc)
    also have "\<dots> = Inr ((os @ flushShards cfg tbl (byShard dest cur)) @
        concat (map (\<lambda>c. flushShards cfg tbl (byShard dest c)) (chunks n (([] @ [tx]) @ txs))))"
      using True n by (intro Cons.IH ok' disjI2) (auto simp: mod_Suc)
    finally show ?thesis using chunks_full [OF len n(2), of "tx # txs"] by simp
  next
    case False
    have "sendLoop cfg tbl dest idx (byShard dest cur) (tx # txs) os =
        sendLoop cfg tbl dest (Suc idx) (byShard dest (cur @ [tx])) txs os"
      using False n s by (subst sendLoop.simps) (auto simp: goRem_nat byShard_snoc)
    also have "\<dots> = Inr (os @ concat (map (\<lambda>c. flushShards cfg tbl (byShard dest c)) (chunks n ((cur @ [tx]) @ txs))))"
    proof (intro Cons.IH ok' disjI2 conjI)
      show "length (cur @ [tx]) \<le> n"
        using Cons.prems(2) False n by (cases "length cur = n") auto
      show "length (cur @ [tx]) mod n = Suc idx mod n"
        using Cons.prems(2) by (metis length_append_singleton list.size(3) mod_Suc_eq)
    qed auto
    finally show ?thesis by simp
  qed
qed

lemma sendLoop_fails:
  assumes "\<exists>tx \<in> set txs. \<not> isOk (dest tx)"
  shows "\<not> isOk (sendLoop cfg tbl dest idx S txs os)"
  using assms
proof (induction txs arbitrary: idx S os)
  case Nil
  then show ?case by simp
next
  case (Cons tx txs)
  then show ?case
    by (subst sendLoop.simps) (auto simp: isOk_iff res_simps Let_def split: prod.splits)
qed

section \<open>What each shard is sent\<close>

definition toShard :: "u64 \<Rightarrow> outs \<Rightarrow> Transaction list" where
  "toShard sid os = concat (map (\<lambda>(ip, m). case m of
     WInject it \<Rightarrow> if ToShardID it = sid then it_Txs it else [] | _ \<Rightarrow> []) os)"

lemma toShard_append: "toShard sid (os @ os') = toShard sid os @ toShard sid os'"
  by (simp add: toShard_def)

lemma toShard_flush:
  assumes "distinct (shardIds cfg)"
  shows "toShard sid (flushShards cfg tbl S) = (if sid \<in> set (shardIds cfg) then S sid else [])"
proof -
  have "concat (map (\<lambda>s. if s = sid then S s else []) ids) = (if sid \<in> set ids then S sid else [])"
    if "distinct ids" for ids
    using that by (induction ids) auto
  then show ?thesis using assms by (simp add: toShard_def flushShards_def comp_def cong: if_cong)
qed

lemma toShard_batches:
  assumes "distinct (shardIds cfg)" "sid \<in> set (shardIds cfg)"
  shows "toShard sid (concat (map (\<lambda>c. flushShards cfg tbl (byShard dest c)) cs)) = byShard dest (concat cs) sid"
  by (induction cs) (simp_all add: toShard_append toShard_flush assms byShard_def, simp add: toShard_def)

lemma mset_by_key:
  assumes inj: "inj g" and "distinct ids"
  shows "mset (concat (map (\<lambda>s. filter (\<lambda>x. f x = g s) xs) ids)) = mset (filter (\<lambda>x. f x \<in> g ` set ids) xs)"
  using assms(2)
proof (induction ids)
  case Nil
  then show ?case by simp
next
  case (Cons s ids)
  have "mset (filter (\<lambda>x. f x \<in> g ` set (s # ids)) xs) =
      mset (filter (\<lambda>x. f x = g s) xs) + mset (filter (\<lambda>x. f x \<in> g ` set ids) xs)"
    using Cons.prems by (induction xs) (auto dest: injD [OF inj])
  with Cons show ?case by simp
qed

lemma txSendingBy_run:
  assumes "InjectSpeed cfg = int n" "0 < n" and "\<forall>tx \<in> set txs. isOk (dest tx)"
  shows "txSendingBy cfg tbl dest txs = Inr (concat (map (\<lambda>c. flushShards cfg tbl (byShard dest c)) (chunks n txs)))"
proof -
  have "byShard dest [] = (\<lambda>_. [])" by (simp add: byShard_def fun_eq_iff)
  then show ?thesis using sendLoop_batches [OF assms, of 0 "[]"] by (simp add: txSendingBy_def)
qed

text \<open>What a shard is sent altogether.\<close>

lemma txSendingBy_toShard:
  assumes speed: "0 < InjectSpeed cfg" and shards: "0 \<le> ShardNum cfg" "ShardNum cfg < 2 ^ 64"
    and ok: "\<forall>tx \<in> set txs. isOk (dest tx)"
  shows "\<exists>os. txSendingBy cfg tbl dest txs = Inr os \<and>
     (\<forall>sid. int (unat sid) < ShardNum cfg \<longrightarrow> toShard sid os = filter (\<lambda>tx. dest tx = Inr sid) txs)"
proof -
  define n where "n = nat (InjectSpeed cfg)"
  have n: "InjectSpeed cfg = int n" "0 < n" using speed by (simp_all add: n_def)
  note ids = shardIds_word [OF shards]
  have "toShard sid (concat (map (\<lambda>c. flushShards cfg tbl (byShard dest c)) (chunks n txs))) = filter (\<lambda>tx. dest tx = Inr sid) txs"
    if "int (unat sid) < ShardNum cfg" for sid
    using toShard_batches [OF ids(2), of sid tbl dest "chunks n txs"] concat_chunks [OF n(2), of txs] that ids(1)
    by (simp add: byShard_def)
  then show ?thesis using txSendingBy_run [OF n ok] by blast
qed

text \<open>C32: Injection fails exactly when the shard of some transaction cannot be computed. Otherwise every
  message goes to node 0 of a shard and carries at most a batch, every shard gets one message per batch, and over
  all batches a shard is sent exactly the transactions placed on it, once and in order; together the shards get
  all transactions except those placed on a shard that does not exist, which are dropped.\<close>

theorem injected_exactly_once:
  assumes speed: "0 < InjectSpeed cfg" and shards: "0 \<le> ShardNum cfg" "ShardNum cfg < 2 ^ 64"
  shows "(isOk (txSendingBy cfg tbl dest txs) \<longleftrightarrow> (\<forall>tx \<in> set txs. isOk (dest tx))) \<and>
    (\<forall>os. txSendingBy cfg tbl dest txs = Inr os \<longrightarrow>
       (\<forall>m \<in> set os. \<exists>sid xs. m = (ipOf tbl sid 0, WInject \<lparr>it_Txs = xs, ToShardID = sid\<rparr>) \<and>
          int (unat sid) < ShardNum cfg \<and> int (length xs) \<le> InjectSpeed cfg) \<and>
       int (length os) = ShardNum cfg * ((int (length txs) + InjectSpeed cfg - 1) div InjectSpeed cfg) \<and>
       (\<forall>sid. int (unat sid) < ShardNum cfg \<longrightarrow> toShard sid os = filter (\<lambda>tx. dest tx = Inr sid) txs) \<and>
       mset (concat (map (\<lambda>sid. toShard sid os) (shardIds cfg))) =
         mset (filter (\<lambda>tx. dest tx \<in> Inr ` {sid. int (unat sid) < ShardNum cfg}) txs))"
proof -
  define n where "n = nat (InjectSpeed cfg)"
  have n: "InjectSpeed cfg = int n" "0 < n" using speed by (simp_all add: n_def)
  note ids = shardIds_word [OF shards]
  have lids: "int (length (shardIds cfg)) = ShardNum cfg"
    using shards by (simp add: shardIds_def unsigned_of_int take_bit_int_eq_self_iff)
  note run = txSendingBy_run [OF n, of txs dest tbl]
  have ok: "isOk (txSendingBy cfg tbl dest txs) \<longleftrightarrow> (\<forall>tx \<in> set txs. isOk (dest tx))"
    using run sendLoop_fails [of txs dest cfg tbl 0 "\<lambda>_. []" "[]"] unfolding txSendingBy_def by (metis isOk.simps(2))
  have main: "(\<forall>m \<in> set os. \<exists>sid xs. m = (ipOf tbl sid 0, WInject \<lparr>it_Txs = xs, ToShardID = sid\<rparr>) \<and>
          int (unat sid) < ShardNum cfg \<and> int (length xs) \<le> InjectSpeed cfg) \<and>
       int (length os) = ShardNum cfg * ((int (length txs) + InjectSpeed cfg - 1) div InjectSpeed cfg) \<and>
       (\<forall>sid. int (unat sid) < ShardNum cfg \<longrightarrow> toShard sid os = filter (\<lambda>tx. dest tx = Inr sid) txs) \<and>
       mset (concat (map (\<lambda>sid. toShard sid os) (shardIds cfg))) =
         mset (filter (\<lambda>tx. dest tx \<in> Inr ` {sid. int (unat sid) < ShardNum cfg}) txs)"
    if r: "txSendingBy cfg tbl dest txs = Inr os" for os
  proof (intro conjI)
    have os: "os = concat (map (\<lambda>c. flushShards cfg tbl (byShard dest c)) (chunks n txs))"
      using run r ok by (metis isOk.simps(2) sum.inject(2))
    have short: "int (length (byShard dest c sid)) \<le> InjectSpeed cfg" if "c \<in> set (chunks n txs)" for c sid
      using chunks_length [OF that] n length_filter_le [of _ c] unfolding byShard_def by (smt (verit) of_nat_mono)
    then show "\<forall>m \<in> set os. \<exists>sid xs. m = (ipOf tbl sid 0, WInject \<lparr>it_Txs = xs, ToShardID = sid\<rparr>) \<and>
          int (unat sid) < ShardNum cfg \<and> int (length xs) \<le> InjectSpeed cfg"
      using ids(1) by (auto simp: os flushShards_def)
    have "length (flushShards cfg tbl S) = length (shardIds cfg)" for S by (simp add: flushShards_def)
    then have "length os = length (chunks n txs) * length (shardIds cfg)"
      by (simp add: os length_concat comp_def sum_list_triv)
    then show "int (length os) = ShardNum cfg * ((int (length txs) + InjectSpeed cfg - 1) div InjectSpeed cfg)"
      using length_chunks [OF n(2), of txs] lids n by (simp add: zdiv_int of_nat_diff)
    have "\<forall>tx \<in> set txs. isOk (dest tx)" using r ok by (metis isOk.simps(2))
    from txSendingBy_toShard [OF speed shards this, of tbl] r
    have to: "toShard sid os = filter (\<lambda>tx. dest tx = Inr sid) txs" if "sid \<in> set (shardIds cfg)" for sid
      using that ids(1) by auto
    then show "\<forall>sid. int (unat sid) < ShardNum cfg \<longrightarrow> toShard sid os = filter (\<lambda>tx. dest tx = Inr sid) txs"
      using ids(1) by simp
    have "map (\<lambda>sid. toShard sid os) (shardIds cfg) = map (\<lambda>sid. filter (\<lambda>tx. dest tx = Inr sid) txs) (shardIds cfg)"
      using to by simp
    then show "mset (concat (map (\<lambda>sid. toShard sid os) (shardIds cfg))) =
         mset (filter (\<lambda>tx. dest tx \<in> Inr ` {sid. int (unat sid) < ShardNum cfg}) txs)"
      using mset_by_key [OF inj_Inr ids(2), of dest txs] ids(1) by (simp only:)
  qed
  show ?thesis using ok main by blast
qed

section \<open>How much of the data set is sent\<close>

definition batchActs :: "params \<Rightarrow> ipTable \<Rightarrow> Transaction list \<Rightarrow> action list" where
  "batchActs cfg tbl b = (case relay_txSending cfg tbl b of Inr os \<Rightarrow> sends os @ [AResetGap] | Inl _ \<Rightarrow> [])"

definition sentBatches :: "nat \<Rightarrow> bool \<Rightarrow> Transaction list \<Rightarrow> Transaction list list" where
  "sentBatches n complete xs = (if complete then chunks n xs else take (length xs div n) (chunks n xs))"

lemma sentBatches_full: "length xs = n \<Longrightarrow> 0 < n \<Longrightarrow> sentBatches n d (xs @ ys) = xs # sentBatches n d ys"
  by (simp add: sentBatches_def chunks_full)

lemma loadRows_extends: "loadRows E clk tot rows acc = Inr L \<Longrightarrow> set acc \<subseteq> set L"
proof (induction rows arbitrary: acc)
  case Nil
  then show ?case by simp
next
  case (Cons d rows)
  obtain x ok where t: "data2tx (hashTx E) (clk (length rows)) d (word_of_nat (length acc)) = Inr (x, ok)"
    using Cons.prems by (auto simp: res_simps)
  define acc1 where "acc1 = (if ok then acc @ [x] else acc)"
  have "(if int (length acc1) = tot then Inr acc1 else loadRows E clk tot rows acc1) = Inr L"
    using Cons.prems t by (cases ok) (simp_all add: acc1_def Let_def split: if_splits)
  then have "set acc1 \<subseteq> set L" using Cons.IH [of acc1] by (auto split: if_splits)
  then show ?case by (auto simp: acc1_def split: if_splits)
qed

lemma relayRows_sends:
  assumes n: "0 < n" and speed: "0 < InjectSpeed cfg" "0 \<le> ShardNum cfg" "ShardNum cfg < 2 ^ 64"
    and "loadRows E clk tot rows acc = Inr L" and "\<forall>tx \<in> set cur \<union> set L. isOk (staticShard cfg (Sender tx))"
    and "length cur < n" and "nowDataNum c = int (length acc)" and "int (length acc) < tot"
    and "batchDataNum c = int n" and "dataTotalNum c = tot"
  shows "\<exists>ext c' cur'. L = acc @ ext \<and> int (length L) \<le> tot \<and> nowDataNum c' = int (length L) \<and>
     relayRows E cfg tbl clk rows (c, cur, acts) =
       Inr (c', cur', acts @ concat (map (batchActs cfg tbl) (sentBatches n (int (length L) = tot) (cur @ ext))))"
  using assms(5-)
proof (induction rows arbitrary: acc cur c acts)
  case Nil
  then show ?case by (intro exI [of _ "[]"]) (simp add: sentBatches_def)
next
  case (Cons data rows)
  obtain tx ok where t: "data2tx (hashTx E) (clk (length rows)) data (word_of_nat (length acc)) = Inr (tx, ok)"
    using Cons.prems(1) by (auto simp: res_simps)
  have nonce: "word_of_int (nowDataNum c) = (word_of_nat (length acc) :: u64)"
    using Cons.prems(4) by simp
  have send: "\<exists>os. relay_txSending cfg tbl xs = Inr os \<and> batchActs cfg tbl xs = sends os @ [AResetGap]"
    if "\<forall>tx \<in> set xs. isOk (staticShard cfg (Sender tx))" for xs
    using txSendingBy_run [of cfg "nat (InjectSpeed cfg)" xs "\<lambda>tx. staticShard cfg (Sender tx)" tbl] that speed
    by (auto simp: relay_txSending_def batchActs_def)
  show ?case
  proof (cases ok)
    case False
    then have l: "loadRows E clk tot rows acc = Inr L" using Cons.prems(1,5) t by simp
    from Cons.IH [OF l Cons.prems(2-), of acts] show ?thesis
      using Cons.prems t False nonce by simp
  next
    case True
    define c1 where "c1 = c\<lparr>nowDataNum := int (length (acc @ [tx]))\<rparr>"
    have c1: "nowDataNum c1 = int (length (acc @ [tx]))" "batchDataNum c1 = int n" "dataTotalNum c1 = tot"
      "c\<lparr>nowDataNum := nowDataNum c + 1\<rparr> = c1"
      using Cons.prems by (simp_all add: c1_def)
    have mem: "tx \<in> set L"
    proof (cases "int (length (acc @ [tx])) = tot")
      case True
      then show ?thesis using Cons.prems(1) t \<open>ok\<close> by (auto simp: Let_def)
    next
      case False
      then have "loadRows E clk tot rows (acc @ [tx]) = Inr L" using Cons.prems(1) t \<open>ok\<close> by simp
      from loadRows_extends [OF this] show ?thesis by auto
    qed
    then obtain os where os: "relay_txSending cfg tbl (cur @ [tx]) = Inr os"
        "batchActs cfg tbl (cur @ [tx]) = sends os @ [AResetGap]"
      using send [of "cur @ [tx]"] Cons.prems(2) by auto
    show ?thesis
    proof (cases "int (length (acc @ [tx])) = tot")
      case True
      then have "L = acc @ [tx]" using Cons.prems(1) t \<open>ok\<close> by simp
      moreover have "chunks n (cur @ [tx]) = [cur @ [tx]]" using Cons.prems(3) by (intro chunks_short) simp_all
      moreover have "relayRows E cfg tbl clk (data # rows) (c, cur, acts) = Inr (c1, [], acts @ sends os @ [AResetGap])"
        using True t \<open>ok\<close> os Cons.prems(4,6,7) by (simp add: c1_def)
      ultimately show ?thesis
        using True c1 os by (intro exI [of _ "[tx]"] exI [of _ c1] exI [of _ "[]"]) (simp add: sentBatches_def)
    next
      case False
      then have l: "loadRows E clk tot rows (acc @ [tx]) = Inr L" and lt: "int (length (acc @ [tx])) < tot"
        using Cons.prems(1,5) t \<open>ok\<close> by simp_all
      show ?thesis
      proof (cases "length (cur @ [tx]) = n")
        case True
        have "\<forall>tx \<in> set [] \<union> set L. isOk (staticShard cfg (Sender tx))" using Cons.prems(2) by simp
        from Cons.IH [OF l this _ c1(1) lt c1(2,3), of "acts @ batchActs cfg tbl (cur @ [tx])"] n
        obtain ext c' cur' where "L = (acc @ [tx]) @ ext" "int (length L) \<le> tot" "nowDataNum c' = int (length L)"
          "relayRows E cfg tbl clk rows (c1, [], acts @ batchActs cfg tbl (cur @ [tx])) = Inr (c', cur',
             (acts @ batchActs cfg tbl (cur @ [tx])) @ concat (map (batchActs cfg tbl) (sentBatches n (int (length L) = tot) ([] @ ext))))"
          by auto
        then show ?thesis
          using True False t \<open>ok\<close> nonce c1 os Cons.prems(4,6,7) sentBatches_full [OF True n, of "int (length L) = tot" ext]
          by (intro exI [of _ "tx # ext"]) (simp add: c1_def add.commute)
      next
        case len: False
        have "length (cur @ [tx]) < n" using len Cons.prems(3) by simp
        moreover have "\<forall>tx \<in> set (cur @ [tx]) \<union> set L. isOk (staticShard cfg (Sender tx))"
          using Cons.prems(2) mem by auto
        ultimately obtain ext c' cur' where "L = (acc @ [tx]) @ ext" "int (length L) \<le> tot" "nowDataNum c' = int (length L)"
          "relayRows E cfg tbl clk rows (c1, cur @ [tx], acts) = Inr (c', cur',
             acts @ concat (map (batchActs cfg tbl) (sentBatches n (int (length L) = tot) ((cur @ [tx]) @ ext))))"
          using Cons.IH [OF l _ _ c1(1) lt c1(2,3), of "cur @ [tx]" acts] by blast
        then show ?thesis
          using len False t \<open>ok\<close> nonce c1 Cons.prems(4,6,7)
          by (intro exI [of _ "tx # ext"]) (simp add: c1_def add.commute)
      qed
    qed
  qed
qed

text \<open>C33: The relay committee sends the data set in batches: with \<open>L\<close> the transactions of the first legal rows, at most
  the configured total, it sends every batch of \<open>L\<close> in order, resetting the stop signal after each. When the data
  set is shorter than the total, the transactions after the last full batch are never sent.\<close>

theorem relay_sends_loaded:
  assumes "0 < batchNum" "0 < dataNum" and speed: "0 < InjectSpeed cfg" "0 \<le> ShardNum cfg" "ShardNum cfg < 2 ^ 64"
    and load: "loadRows E clk dataNum rows [] = Inr L" and addr: "\<forall>tx \<in> set L. isOk (staticShard cfg (Sender tx))"
  shows "\<exists>c bs. relay_MsgSendingControl E cfg tbl clk rows (NewRelayCommitteeModule dataNum batchNum) =
       Inr (c, concat (map (batchActs cfg tbl) bs)) \<and> nowDataNum c = int (length L) \<and> int (length L) \<le> dataNum \<and>
     concat bs = take (if int (length L) = dataNum then length L else length L - length L mod nat batchNum) L \<and>
     (\<forall>b \<in> set bs. 0 < length b \<and> int (length b) \<le> batchNum)"
proof -
  define n where "n = nat batchNum"
  have n: "0 < n" "batchNum = int n" using assms(1) by (simp_all add: n_def)
  have pre: "\<forall>tx \<in> set [] \<union> set L. isOk (staticShard cfg (Sender tx))" "length ([] :: Transaction list) < n"
    "nowDataNum (NewRelayCommitteeModule dataNum batchNum) = int (length ([] :: Transaction list))"
    "int (length ([] :: Transaction list)) < dataNum" "batchDataNum (NewRelayCommitteeModule dataNum batchNum) = int n"
    "dataTotalNum (NewRelayCommitteeModule dataNum batchNum) = dataNum"
    using addr n assms(2) by (simp_all add: NewRelayCommitteeModule_def)
  from relayRows_sends [OF n(1) speed load pre, of tbl "[]"] obtain c' cur' where
    L: "int (length L) \<le> dataNum" "nowDataNum c' = int (length L)" and
    r: "relayRows E cfg tbl clk rows (NewRelayCommitteeModule dataNum batchNum, [], []) =
       Inr (c', cur', concat (map (batchActs cfg tbl) (sentBatches n (int (length L) = dataNum) L)))"
    by auto
  have sub: "set (sentBatches n d L) \<subseteq> set (chunks n L)" for d
    by (auto simp: sentBatches_def dest: in_set_takeD)
  have cc: "concat (take k (chunks n L)) = take (k * n) L" if "k \<le> length L div n" for k
    using that
  proof (induction k arbitrary: L)
    case (Suc k)
    then have len: "n \<le> length L" using n(1) by (metis div_less not_le not_less_eq_eq zero_le)
    then have "chunks n L = take n L # chunks n (drop n L)"
      using chunks_full [of "take n L" n "drop n L"] n(1) by simp
    moreover have "k \<le> length (drop n L) div n" using Suc.prems len n(1) by (simp add: le_div_geq)
    ultimately show ?case using Suc.IH [of "drop n L"] len by (simp add: take_add)
  qed simp
  have "concat (sentBatches n (int (length L) = dataNum) L) =
      take (if int (length L) = dataNum then length L else length L - length L mod nat batchNum) L"
    using concat_chunks [OF n(1), of L] cc [of "length L div n"]
    by (simp add: sentBatches_def n_def minus_mod_eq_div_mult)
  then show ?thesis
    using r L sub chunks_length [of _ n L] n
    by (intro exI [of _ c'] exI [of _ "sentBatches n (int (length L) = dataNum) L"])
      (auto simp: relay_MsgSendingControl_def)
qed

text \<open>The endless sending loop of the CLPA committee sends the loaded transactions over and over: the n-th one is
  loaded transaction n modulo their number with a nonce raised by ten million per round, but with the hash it
  had when it was loaded, so the copies of one transaction all have the same hash; with nothing loaded the loop
  panics.\<close>

theorem loop_repeats_hash:
  assumes "0 \<le> n"
  shows "loopTx allTxs now n =
    (if allTxs = [] then Inl DivideByZero
     else Inr ((allTxs ! (nat n mod length allTxs))
       \<lparr>Nonce := Nonce (allTxs ! (nat n mod length allTxs)) + word_of_nat (nat n div length allTxs) * 10000000, Time := now\<rparr>)) \<and>
    (\<forall>k now' tx tx'. loopTx allTxs now n = Inr tx \<longrightarrow> loopTx allTxs now' (n + int (k * length allTxs)) = Inr tx' \<longrightarrow>
       TxHash tx' = TxHash tx \<and> Nonce tx' = Nonce tx + word_of_nat k * 10000000)"
proof -
  have r: "loopTx allTxs t (int i) =
      (if allTxs = [] then Inl DivideByZero
       else Inr ((allTxs ! (i mod length allTxs))
         \<lparr>Nonce := Nonce (allTxs ! (i mod length allTxs)) + word_of_nat (i div length allTxs) * 10000000, Time := t\<rparr>))" for t i
    using goRem_nat [of "length allTxs" i]
    by (simp add: loopTx_def goRem_def [of _ 0] nthI_def goQuot_def zdiv_int [symmetric] sgn_if)
  have n: "int (nat n) = n" using assms by simp
  show ?thesis
  proof (intro conjI allI impI)
    show "loopTx allTxs now n = (if allTxs = [] then Inl DivideByZero
     else Inr ((allTxs ! (nat n mod length allTxs))
       \<lparr>Nonce := Nonce (allTxs ! (nat n mod length allTxs)) + word_of_nat (nat n div length allTxs) * 10000000, Time := now\<rparr>))"
      using r [of now "nat n"] unfolding n .
  next
    fix k now' tx tx'
    assume t: "loopTx allTxs now n = Inr tx" "loopTx allTxs now' (n + int (k * length allTxs)) = Inr tx'"
    have "n + int (k * length allTxs) = int (nat n + k * length allTxs)" unfolding of_nat_add n ..
    with t have t': "loopTx allTxs now (int (nat n)) = Inr tx" "loopTx allTxs now' (int (nat n + k * length allTxs)) = Inr tx'"
      unfolding n by simp_all
    with r [of now "nat n"] have ne: "allTxs \<noteq> []" by (metis sum.simps(4))
    then have d: "(nat n + k * length allTxs) div length allTxs = nat n div length allTxs + k"
      "(nat n + k * length allTxs) mod length allTxs = nat n mod length allTxs" by simp_all
    from t'(1) ne have "tx = (allTxs ! (nat n mod length allTxs))
       \<lparr>Nonce := Nonce (allTxs ! (nat n mod length allTxs)) + word_of_nat (nat n div length allTxs) * 10000000, Time := now\<rparr>"
      unfolding r by simp
    moreover from t'(2) ne have "tx' = (allTxs ! (nat n mod length allTxs))
       \<lparr>Nonce := Nonce (allTxs ! (nat n mod length allTxs)) + word_of_nat (nat n div length allTxs + k) * 10000000, Time := now'\<rparr>"
      unfolding r d by simp
    ultimately show "TxHash tx' = TxHash tx" "Nonce tx' = Nonce tx + word_of_nat k * 10000000"
      by (simp_all add: distrib_right)
  qed
qed

section \<open>Witnesses\<close>

definition sampleRow :: "string \<Rightarrow> string \<Rightarrow> string list" where
  "sampleRow s r = ['''', '''', '''', s, r, '''', ''0'', ''0'', ''12'']"

definition sampleRows :: "string list list" where
  "sampleRows = [sampleRow ''0x00000000000000a1'' ''0x00000000000000a2'',
     sampleRow ''0xa'' ''0xb'', sampleRow ''0x00000000000000a2'' ''0x00000000000000a1'',
     sampleRow ''0x00000000000000a3'' ''0x00000000000000a1'']"

definition sampleTx :: "string \<Rightarrow> string \<Rightarrow> u64 \<Rightarrow> Transaction" where
  "sampleTx s r n = NewTransaction (hashTx modelEnv) s r 12 n 7"

definition sampleLoaded :: "Transaction list" where
  "sampleLoaded = [sampleTx ''00000000000000a1'' ''00000000000000a2'' 0, sampleTx ''00000000000000a2'' ''00000000000000a1'' 1,
     sampleTx ''00000000000000a3'' ''00000000000000a1'' 2]"

lemma sampleRow_tx:
  assumes "length s > 16" "length r > 16" "s \<noteq> r"
  shows "data2tx h t (sampleRow s r) n = Inr (NewTransaction h (drop 2 s) (drop 2 r) 12 n t, True)"
  using assms by (simp add: data2tx_def legalRow_def sampleRow_def nthR_def SetString10_def decDigit_def)

lemma sampleRow_short: "length s \<le> 16 \<Longrightarrow> data2tx h t (sampleRow s r) n = Inr (zeroTx, False)"
  by (simp add: data2tx_def legalRow_def sampleRow_def nthR_def)

lemma sample_load: "loadRows modelEnv (\<lambda>_. 7) 9 sampleRows [] = Inr sampleLoaded"
  by (simp add: sampleRows_def sampleLoaded_def sampleTx_def sampleRow_tx sampleRow_short)

lemma sample_placed: "\<forall>tx \<in> set sampleLoaded. isOk (staticShard sampleCfg (Sender tx))"
  by (simp add: sampleLoaded_def sampleTx_def NewTransaction_fields staticShard_def Addr2Shard_alt last8_def
      ParseUint16_def hexDigit_def goRem_def sampleCfg_def)

theorem injected_exactly_once_witness:
  "\<exists>os. txSendingBy sampleCfg [] (\<lambda>tx. staticShard sampleCfg (Sender tx)) sampleLoaded = Inr os \<and> length os = 2 \<and>
     toShard 0 os = [sampleLoaded ! 1] \<and> toShard 1 os = [sampleLoaded ! 0, sampleLoaded ! 2]"
proof -
  have c: "0 < InjectSpeed sampleCfg" "0 \<le> ShardNum sampleCfg" "ShardNum sampleCfg < 2 ^ 64" by (simp_all add: sampleCfg_def)
  note t = injected_exactly_once [OF c, of "[]" "\<lambda>tx. staticShard sampleCfg (Sender tx)" sampleLoaded]
  then obtain os where os: "txSendingBy sampleCfg [] (\<lambda>tx. staticShard sampleCfg (Sender tx)) sampleLoaded = Inr os"
    using sample_placed by (auto simp: isOk_iff)
  have f: "filter (\<lambda>tx. staticShard sampleCfg (Sender tx) = Inr 0) sampleLoaded = [sampleLoaded ! 1]"
    "filter (\<lambda>tx. staticShard sampleCfg (Sender tx) = Inr 1) sampleLoaded = [sampleLoaded ! 0, sampleLoaded ! 2]"
    by (simp_all add: sampleLoaded_def sampleTx_def NewTransaction_fields staticShard_def Addr2Shard_alt last8_def
      ParseUint16_def hexDigit_def goRem_def sampleCfg_def)
  have cf: "InjectSpeed sampleCfg = 2000" "ShardNum sampleCfg = 2" "length sampleLoaded = 3"
    by (simp_all add: sampleCfg_def sampleLoaded_def)
  from t os have "int (length os) = ShardNum sampleCfg * ((int (length sampleLoaded) + InjectSpeed sampleCfg - 1) div InjectSpeed sampleCfg)"
    and to: "\<forall>sid. int (unat sid) < ShardNum sampleCfg \<longrightarrow>
      toShard sid os = filter (\<lambda>tx. staticShard sampleCfg (Sender tx) = Inr sid) sampleLoaded"
    by blast+
  then have "length os = 2" unfolding cf by simp
  moreover have "toShard 0 os = [sampleLoaded ! 1]" "toShard 1 os = [sampleLoaded ! 0, sampleLoaded ! 2]"
    using to [rule_format, of 0] to [rule_format, of 1] f unfolding cf by simp_all
  ultimately show ?thesis using os by simp
qed

theorem relay_sends_loaded_witness:
  "\<exists>c bs. relay_MsgSendingControl modelEnv sampleCfg [] (\<lambda>_. 7) sampleRows (NewRelayCommitteeModule 9 2) =
       Inr (c, concat (map (batchActs sampleCfg []) bs)) \<and> nowDataNum c = 3 \<and> concat bs = take 2 sampleLoaded"
proof -
  have c: "(0 :: int) < 2" "(0 :: int) < 9" "0 < InjectSpeed sampleCfg" "0 \<le> ShardNum sampleCfg" "ShardNum sampleCfg < 2 ^ 64"
    by (simp_all add: sampleCfg_def)
  have l: "length sampleLoaded = 3" by (simp add: sampleLoaded_def)
  from relay_sends_loaded [OF c sample_load sample_placed, of "[]"] show ?thesis unfolding l by auto
qed

theorem loop_repeats_hash_witness:
  "\<exists>tx tx'. loopTx sampleLoaded 8 1 = Inr tx \<and> loopTx sampleLoaded 9 4 = Inr tx' \<and> TxHash tx' = TxHash tx \<and>
     Nonce tx' = Nonce tx + 10000000"
proof -
  have h: "(0 :: int) \<le> 1" "(0 :: int) \<le> 4" by simp_all
  have l: "length sampleLoaded = 3" "sampleLoaded \<noteq> []" by (simp_all add: sampleLoaded_def)
  obtain tx tx' where r: "loopTx sampleLoaded 8 1 = Inr tx" "loopTx sampleLoaded 9 4 = Inr tx'"
    unfolding loop_repeats_hash [OF h(1), THEN conjunct1] loop_repeats_hash [OF h(2), THEN conjunct1] using l(2) by simp
  then have "loopTx sampleLoaded 9 (1 + int (1 * length sampleLoaded)) = Inr tx'" by (simp add: l)
  with loop_repeats_hash [OF h(1), of sampleLoaded 8, THEN conjunct2, rule_format, OF r(1)]
  have "TxHash tx' = TxHash tx" "Nonce tx' = Nonce tx + word_of_nat 1 * 10000000" by blast+
  then have "TxHash tx' = TxHash tx" "Nonce tx' = Nonce tx + 10000000" unfolding of_nat_1 mult_1 .
  with r show ?thesis by blast
qed

end
