(* ===== verification/EpochProps.thy ===== *)
theory EpochProps
  imports CLPABrokerCommittee InjectionProps
begin

text \<open>
  Properties of the epochs of the committees that repartition: what the counting of reports
  guarantees, the CLPA committee as a barrier between repartitions, when its wait ends, and
  the broker committee's advance on a single report.
\<close>

section \<open>What has been acknowledged\<close>

definition acked :: "(u64 \<times> int) list \<Rightarrow> int \<Rightarrow> u64 set" where
  "acked h e = {s. (s, e) \<in> set h}"

lemma finite_acked [simp]: "finite (acked h e)"
proof -
  have "acked h e \<subseteq> fst ` set h" by (force simp: acked_def)
  then show ?thesis by (rule finite_subset) simp
qed

lemma acked_snoc: "acked (h @ [(s, e)]) e' = (if e' = e then insert s (acked h e) else acked h e')"
  by (auto simp: acked_def)

text \<open>The epoch an acknowledgement history amounts to, and the buckets that are kept.\<close>

definition ackInv :: "int \<Rightarrow> (u64 \<times> int) list \<Rightarrow> int \<Rightarrow> (int \<times> u64 set) list \<Rightarrow> bool" where
  "ackInv sn h cur acks \<longleftrightarrow> 0 \<le> cur \<and> cur < 2 ^ 31 \<and>
     (\<forall>e. map_of acks e = (if cur < e \<and> acked h e \<noteq> {} then Some (acked h e) else None)) \<and>
     (\<forall>e. 1 \<le> e \<and> e \<le> cur \<longrightarrow> sn \<le> int (card (acked h e)))"

definition settled :: "int \<Rightarrow> (u64 \<times> int) list \<Rightarrow> int \<Rightarrow> bool" where
  "settled sn h cur \<longleftrightarrow> int (card (acked h (cur + 1))) < sn"

definition int32s :: "(u64 \<times> int) list \<Rightarrow> bool" where
  "int32s h \<longleftrightarrow> (\<forall>x \<in> set h. snd x < 2 ^ 31)"

lemma toInt32_wrap: "toInt32 (2 ^ 31) = - (2 ^ 31)"
  by (simp add: toInt32_def)

lemma toInt32_less: "toInt32 i < 2 ^ 31"
  unfolding toInt32_def using sint_less [of "word_of_int i :: 32 word"] by simp

lemma advance_inv:
  assumes sn: "0 < sn" and h: "int32s h"
    and "ackInv sn h cur acks" and "advanceEpoch sn (toInt32 (cur + 1)) acks cur = (cur', acks')"
  shows "ackInv sn h cur' acks' \<and> settled sn h cur'"
  using assms(3-)
proof (induction acks arbitrary: cur rule: length_induct)
  case (1 acks)
  note I = 1(2) [unfolded ackInv_def]
  show ?case
  proof (cases "cur + 1 < 2 ^ 31")
    case False
    then have c: "cur + 1 = 2 ^ 31" using I by simp
    have "acked h (cur + 1) = {}" using h unfolding c by (force simp: acked_def int32s_def)
    moreover have "map_of acks (toInt32 (cur + 1)) = None" unfolding c toInt32_wrap using I by simp
    ultimately show ?thesis
      using 1(2,3) sn by (subst (asm) advanceEpoch.simps) (simp add: settled_def)
  next
    case True
    then have t: "toInt32 (cur + 1) = cur + 1" using I by (simp add: toInt32_id)
    show ?thesis
    proof (cases "acked h (cur + 1) = {}")
      case True
      then have "map_of acks (cur + 1) = None" using I by simp
      with True show ?thesis
        using 1(2,3) sn t by (subst (asm) advanceEpoch.simps) (simp add: settled_def)
    next
      case False
      then have m: "map_of acks (cur + 1) = Some (acked h (cur + 1))" using I by simp
      show ?thesis
      proof (cases "int (card (acked h (cur + 1))) < sn")
        case True
        then show ?thesis
          using 1(2,3) t m by (subst (asm) advanceEpoch.simps) (simp add: settled_def)
      next
        case full: False
        have run: "advanceEpoch sn (toInt32 (cur + 1 + 1)) (AList.delete (cur + 1) acks) (cur + 1) = (cur', acks')"
          using 1(3) t m full by (subst (asm) advanceEpoch.simps) simp
        have "sn \<le> int (card (acked h e))" if "1 \<le> e" "e \<le> cur + 1" for e
          using that I full by (cases "e = cur + 1") auto
        then have "ackInv sn h (cur + 1) (AList.delete (cur + 1) acks)"
          using I \<open>cur + 1 < 2 ^ 31\<close> unfolding ackInv_def AList.delete_conv' by (auto simp: restrict_map_def)
        with 1(1) delete_shorter [OF m] run show ?thesis by blast
      qed
    qed
  qed
qed

lemma recordEpochAck_inv:
  assumes sn: "0 < ShardNum cfg" and h: "int32s (h @ [(s, e)])"
    and I: "ackInv (ShardNum cfg) h (curEpoch m) (epochShardAcks m)" and st: "settled (ShardNum cfg) h (curEpoch m)"
  shows "ackInv (ShardNum cfg) (h @ [(s, e)]) (curEpoch (recordEpochAck cfg s e m)) (epochShardAcks (recordEpochAck cfg s e m)) \<and>
     settled (ShardNum cfg) (h @ [(s, e)]) (curEpoch (recordEpochAck cfg s e m))"
proof (cases "e \<le> curEpoch m")
  case True
  then have "ShardNum cfg \<le> int (card (acked (h @ [(s, e)]) x))" if "1 \<le> x" "x \<le> curEpoch m" for x
    using that I card_insert_le [of "acked h e" s] unfolding ackInv_def acked_snoc by (cases "x = e") (auto intro: order_trans)
  with True I st show ?thesis
    by (simp add: recordEpochAck_def ackInv_def settled_def acked_snoc)
next
  case False
  define acks where "acks = (if map_of (epochShardAcks m) e = None then AList.update e {} (epochShardAcks m) else epochShardAcks m)"
  define acks' where "acks' = AList.update e (insert s (getOr {} (map_of acks e))) acks"
  have "map_of acks e = Some (acked h e)"
    using I False by (auto simp: acks_def ackInv_def AList.update_conv')
  then have "map_of acks' x = (if x = e then Some (insert s (acked h e)) else map_of (epochShardAcks m) x)" for x
    by (auto simp: acks'_def acks_def AList.update_conv')
  moreover have "acked (h @ [(s, e)]) x = acked h x" if "x \<le> curEpoch m" for x
    using that False by (simp add: acked_snoc)
  ultimately have I': "ackInv (ShardNum cfg) (h @ [(s, e)]) (curEpoch m) acks'"
    using I False by (auto simp: ackInv_def acked_snoc)
  obtain cur2 acks2 where adv: "advanceEpoch (ShardNum cfg) (toInt32 (curEpoch m + 1)) acks' (curEpoch m) = (cur2, acks2)"
    by (cases "advanceEpoch (ShardNum cfg) (toInt32 (curEpoch m + 1)) acks' (curEpoch m)")
  have "recordEpochAck cfg s e m = m\<lparr>curEpoch := cur2, epochShardAcks := acks2\<rparr>"
    using False adv by (simp add: recordEpochAck_def acks'_def acks_def Let_def)
  with advance_inv [OF sn h I' adv] show ?thesis by simp
qed

lemma recordAcks_inv:
  assumes sn: "0 < ShardNum cfg" and new: "curEpoch m0 = 0" "epochShardAcks m0 = []" and h: "int32s h"
    and m: "m = foldl (\<lambda>m x. recordEpochAck cfg (fst x) (snd x) m) m0 h"
  shows "ackInv (ShardNum cfg) h (curEpoch m) (epochShardAcks m) \<and> settled (ShardNum cfg) h (curEpoch m)"
  using h unfolding m
proof (induction h rule: rev_induct)
  case Nil
  then show ?case using new sn by (simp add: ackInv_def settled_def acked_def)
next
  case (snoc x h)
  obtain s e where x: "x = (s, e)" by (cases x)
  have "int32s h" using snoc.prems by (simp add: int32s_def)
  note I = snoc.IH [OF this]
  from recordEpochAck_inv [OF sn snoc.prems [unfolded x] I [THEN conjunct1] I [THEN conjunct2]]
  show ?case by (simp add: x)
qed

text \<open>C13: The epoch of the CLPA committee, after any sequence of reports (shard, epoch) in any order, is the largest number
  n such that for every epoch from 1 to n as many different shards have reported it as there are shards: no shard
  can push it ahead alone, repeated and late reports do not count twice, and early ones are not lost.\<close>

theorem epoch_is_barrier:
  assumes sn: "0 < ShardNum cfg" and new: "curEpoch m0 = 0" "epochShardAcks m0 = []" and h: "int32s h"
  shows "curEpoch (foldl (\<lambda>m x. recordEpochAck cfg (fst x) (snd x) m) m0 h) =
     (GREATEST n. 0 \<le> n \<and> (\<forall>e. 1 \<le> e \<and> e \<le> n \<longrightarrow> ShardNum cfg \<le> int (card (acked h e))))"
proof -
  define m where "m = foldl (\<lambda>m x. recordEpochAck cfg (fst x) (snd x) m) m0 h"
  from recordAcks_inv [OF sn new h m_def]
  have c: "0 \<le> curEpoch m" "\<forall>e. 1 \<le> e \<and> e \<le> curEpoch m \<longrightarrow> ShardNum cfg \<le> int (card (acked h e))"
    "int (card (acked h (curEpoch m + 1))) < ShardNum cfg"
    by (simp_all add: ackInv_def settled_def)
  have "n \<le> curEpoch m" if "0 \<le> n \<and> (\<forall>e. 1 \<le> e \<and> e \<le> n \<longrightarrow> ShardNum cfg \<le> int (card (acked h e)))" for n
  proof (rule ccontr)
    assume "\<not> n \<le> curEpoch m"
    with that c(1) have "ShardNum cfg \<le> int (card (acked h (curEpoch m + 1)))" by auto
    with c(3) show False by simp
  qed
  with c show ?thesis unfolding m_def [symmetric] by (intro Greatest_equality [symmetric]) auto
qed


section \<open>The committee as a barrier\<close>

text \<open>The reports of a run, as the epochs are counted.\<close>

definition reportsOf :: "clpaEvent list \<Rightarrow> (u64 \<times> int) list" where
  "reportsOf es = List.map_filter (\<lambda>e. case e of Report b \<Rightarrow> Some (SenderShardID b, toInt32 (Epoch b)) | _ \<Rightarrow> None) es"

text \<open>The shards whose report of an epoch is among the events.\<close>

definition reporters :: "clpaEvent list \<Rightarrow> int \<Rightarrow> u64 set" where
  "reporters es e = {SenderShardID b | b. Report b \<in> set es \<and> toInt32 (Epoch b) = e}"

text \<open>A turn of the loop that sends a partition map.\<close>

definition publishes :: "clpaEvent \<Rightarrow> bool" where
  "publishes e = (case e of
     Turn acts \<Rightarrow> list_ex (\<lambda>a. case a of ASend ip (WPartition pm) \<Rightarrow> True | _ \<Rightarrow> False) acts
   | _ \<Rightarrow> False)"

lemma reporters_acked: "reporters es e = acked (reportsOf es) e"
proof (induction es)
  case Nil
  then show ?case by (simp add: reporters_def acked_def reportsOf_def List.map_filter_def)
next
  case (Cons x es)
  have "reporters (x # es) e = reporters [x] e \<union> reporters es e" by (auto simp: reporters_def)
  moreover have "acked (reportsOf (x # es)) e = acked (reportsOf [x]) e \<union> acked (reportsOf es) e"
    by (auto simp: acked_def reportsOf_def List.map_filter_def)
  moreover have "reporters [x] e = acked (reportsOf [x]) e"
    by (cases x) (auto simp: reporters_def acked_def reportsOf_def List.map_filter_def)
  ultimately show ?case using Cons by simp
qed

lemma reportsOf_snoc:
  "reportsOf (es @ [Report b]) = reportsOf es @ [(SenderShardID b, toInt32 (Epoch b))]"
  "reportsOf (es @ [Turn acts]) = reportsOf es" "reportsOf (es @ [Poll]) = reportsOf es"
  by (simp_all add: reportsOf_def List.map_filter_def)

lemma int32s_reports: "int32s (reportsOf es)"
  using toInt32_less by (auto simp: int32s_def reportsOf_def List.map_filter_def split: clpaEvent.splits)

definition injects :: "outs \<Rightarrow> bool" where
  "injects os = list_all (\<lambda>x. case snd x of WInject it \<Rightarrow> True | _ \<Rightarrow> False) os"

lemma injects_flush: "injects os \<Longrightarrow> injects (if b then os @ flushShards cfg tbl S else os)"
  by (auto simp: injects_def flushShards_def list_all_iff)

lemma sendLoop_injects: "sendLoop cfg tbl dest idx S txs os = Inr os' \<Longrightarrow> injects os \<Longrightarrow> injects os'"
proof (induction txs arbitrary: idx S os)
  case Nil
  then show ?case
    using injects_flush [of os True cfg tbl S]
    by (subst (asm) sendLoop.simps) (auto simp: res_simps split: if_splits)
next
  case (Cons tx txs)
  define fl where "fl = (if idx > 0 then bindR (goRem (int idx) (InjectSpeed cfg)) (\<lambda>r. Inr (r = 0 \<or> tx # txs = [])) else Inr False)"
  obtain f where f: "fl = Inr f"
    using Cons.prems(1) unfolding sendLoop.simps [of cfg tbl dest idx S] fl_def [symmetric] by (cases fl) (simp_all add: res_simps)
  obtain S' where "sendLoop cfg tbl dest (Suc idx) S' txs (if f then os @ flushShards cfg tbl S else os) = Inr os'"
    using Cons.prems(1) unfolding sendLoop.simps [of cfg tbl dest idx S] fl_def [symmetric] f
    by (cases f) (auto simp: res_simps)
  from Cons.IH [OF this injects_flush [OF Cons.prems(2)]] show ?case .
qed

lemma publishes_sends: "publishes (Turn (sends os)) \<longleftrightarrow> (\<exists>x \<in> set os. \<exists>pm. snd x = WPartition pm)"
  by (induction os) (auto simp: publishes_def sends_def split: wire.splits)

lemma publishes_append: "publishes (Turn (xs @ ys)) \<longleftrightarrow> publishes (Turn xs) \<or> publishes (Turn ys)"
  by (simp add: publishes_def)

lemma sendPart_frame:
  assumes "sendPart cfg tbl allTxs now1 now2 (m, l) = Inr (m', l', acts)"
  shows "curEpoch m' = curEpoch m \<and> epochShardAcks m' = epochShardAcks m \<and> clpaCnt l' = clpaCnt l \<and>
     lp_phase l' = lp_phase l \<and> modifiedMap m' = modifiedMap m \<and> clpaGraph m' = clpaGraph m \<and> \<not> publishes (Turn acts)"
proof -
  have "\<not> publishes (Turn (sends os @ [AResetGap]))" if "clpa_txSending cfg tbl m txs = Inr os" for m txs os
  proof -
    have "injects os"
      using sendLoop_injects [of cfg tbl _ 0 "\<lambda>_. []" txs "[]" os] that
      by (auto simp: clpa_txSending_def txSendingBy_def injects_def [of "[]"])
    then have "\<not> publishes (Turn (sends os))" by (auto simp: publishes_sends injects_def list_all_iff)
    then show ?thesis by (simp add: publishes_append publishes_def [of "Turn [AResetGap]"])
  qed
  moreover have "\<not> publishes (Turn [])" by (simp add: publishes_def)
  ultimately show ?thesis
    using assms by (auto simp: sendPart_def Let_def res_simps split: if_splits)
qed

lemma repartition_frame:
  assumes "repartition F cfg tbl ps (m, l) = Inr (m', l', acts)"
  shows "curEpoch m' = curEpoch m \<and> epochShardAcks m' = epochShardAcks m \<and> clpaCnt l' = clpaCnt l + 1 \<and> lp_phase l' = Waiting"
  using assms by (auto simp: repartition_def publishMap_def clpaReset_def Let_def res_simps)

text \<open>A turn either leaves the count alone and publishes nothing, or counts one more and waits.\<close>

lemma loopTurn_cases:
  assumes "loopTurn F cfg tbl allTxs now1 now2 now3 ps (m, l) = Inr (m', l', acts)"
  shows "curEpoch m' = curEpoch m \<and> epochShardAcks m' = epochShardAcks m \<and>
     (clpaCnt l' = clpaCnt l \<and> lp_phase l' = lp_phase l \<and> \<not> publishes (Turn acts) \<or>
      clpaCnt l' = clpaCnt l + 1 \<and> lp_phase l' = Waiting)"
proof -
  obtain m1 l1 a1 where s: "sendPart cfg tbl allTxs now1 now2 (m, l) = Inr (m1, l1, a1)"
    and r: "(if repartitionDue cfg now3 m1 then bindR (repartition F cfg tbl ps (m1, l1)) (\<lambda>(m, l, acts'). Inr (m, l, a1 @ acts'))
       else Inr (m1, l1, a1)) = Inr (m', l', acts)"
    using assms by (auto simp: loopTurn_def res_simps)
  note f = sendPart_frame [OF s]
  show ?thesis
  proof (cases "repartitionDue cfg now3 m1")
    case True
    then obtain a2 where "repartition F cfg tbl ps (m1, l1) = Inr (m', l', a2)" using r by (auto simp: res_simps)
    from repartition_frame [OF this] f show ?thesis by simp
  next
    case False
    then show ?thesis using r f by simp
  qed
qed

definition barrierInv :: "params \<Rightarrow> clpaEvent list \<Rightarrow> 'f clpaCommittee \<times> clpaLoop \<Rightarrow> bool" where
  "barrierInv cfg es st = (let (m, l) = st in
     ackInv (ShardNum cfg) (reportsOf es) (curEpoch m) (epochShardAcks m) \<and> settled (ShardNum cfg) (reportsOf es) (curEpoch m) \<and>
     0 \<le> clpaCnt l \<and> clpaCnt l \<le> 200 \<and> (lp_phase l = Sending \<longrightarrow> clpaCnt l < 200) \<and>
     (if lp_phase l = Waiting then clpaCnt l \<le> curEpoch m + 1 else clpaCnt l \<le> curEpoch m) \<and>
     int (length (filter publishes es)) \<le> clpaCnt l)"

lemma clpa_HandleBlockInfo_epoch:
  "clpa_HandleBlockInfo cfg b m = Inr m' \<Longrightarrow>
     curEpoch m' = curEpoch (recordEpochAck cfg (SenderShardID b) (toInt32 (Epoch b)) m) \<and>
     epochShardAcks m' = epochShardAcks (recordEpochAck cfg (SenderShardID b) (toInt32 (Epoch b)) m)"
  by (auto simp: clpa_HandleBlockInfo_def Let_def res_simps split: if_splits)

lemma recordEpochAck_mono:
  assumes "0 < ShardNum cfg" "int32s (h @ [(s, e)])"
    and I: "ackInv (ShardNum cfg) h (curEpoch m) (epochShardAcks m)" "settled (ShardNum cfg) h (curEpoch m)"
  shows "curEpoch m \<le> curEpoch (recordEpochAck cfg s e m)"
proof (rule ccontr)
  define c where "c = curEpoch (recordEpochAck cfg s e m)"
  note I' = recordEpochAck_inv [OF assms, folded c_def]
  assume "\<not> curEpoch m \<le> curEpoch (recordEpochAck cfg s e m)"
  then have "c < curEpoch m" by (simp add: c_def)
  moreover have "0 \<le> c" using I' by (simp add: ackInv_def)
  ultimately have "ShardNum cfg \<le> int (card (acked h (c + 1)))" using I(1) by (simp add: ackInv_def)
  also have "\<dots> \<le> int (card (acked (h @ [(s, e)]) (c + 1)))"
    unfolding acked_snoc by (auto intro: card_insert_le)
  finally show False using I' by (simp add: settled_def)
qed

lemma barrier_step:
  assumes sn: "0 < ShardNum cfg" and I: "barrierInv cfg es st" and step: "clpaStep F cfg tbl allTxs st e st'"
  shows "barrierInv cfg (es @ [e]) st'"
  using step I
proof (cases rule: clpaStep.cases)
  case (turn l now1 now2 now3 ps m m' l' acts)
  from loopTurn_cases [OF turn(5)] show ?thesis
    using I turn(1-4) by (auto simp: barrierInv_def reportsOf_snoc split: if_splits)
next
  case (poll l m now)
  have "toInt32 (clpaCnt l) = clpaCnt l"
    using I poll by (intro toInt32_id) (auto simp: barrierInv_def)
  then show ?thesis
    using I poll by (auto simp: barrierInv_def reportsOf_snoc waitTurn_def publishes_def split: if_splits)
next
  case (report b m m' l)
  have I': "ackInv (ShardNum cfg) (reportsOf es) (curEpoch m) (epochShardAcks m)" "settled (ShardNum cfg) (reportsOf es) (curEpoch m)"
    using I report by (simp_all add: barrierInv_def)
  have h: "int32s (reportsOf es @ [(SenderShardID b, toInt32 (Epoch b))])"
    using int32s_reports [of "es @ [Report b]"] by (simp add: reportsOf_snoc)
  note r = recordEpochAck_inv [OF sn h I'] recordEpochAck_mono [OF sn h I'] clpa_HandleBlockInfo_epoch [OF report(4)]
  show ?thesis
    using I r report(1-3) by (auto simp: barrierInv_def reportsOf_snoc publishes_def)
qed

lemma clpaRuns_barrier:
  assumes sn: "0 < ShardNum cfg" and new: "NewCLPACommitteeModule F cfg tot batch freq = Inr m0"
    and run: "clpaRuns F cfg tbl allTxs m0 es st"
  shows "barrierInv cfg es st"
  using run
proof induction
  case init
  have "curEpoch m0 = 0" "epochShardAcks m0 = []" using new by (auto simp: NewCLPACommitteeModule_def res_simps)
  then show ?case
    using sn by (simp add: barrierInv_def loopStart_def ackInv_def settled_def reportsOf_def List.map_filter_def acked_def)
next
  case (next_event es st e st')
  from barrier_step [OF sn next_event.IH next_event.hyps(2)] show ?case .
qed

text \<open>C14: In every run of a CLPA committee, whatever the shards report, when and in which order: the loop repartitions
  at most 200 times; it publishes no more maps than it has counted; and when it has counted k repartitions, every
  epoch before the k-th has been reported by at least as many different shards as there are - the k-th as well
  once the loop has left its wait. So a new partition never overtakes a shard that has not followed the last.\<close>

theorem repartition_barrier:
  assumes sn: "0 < ShardNum cfg" and new: "NewCLPACommitteeModule F cfg tot batch freq = Inr m0"
    and run: "clpaRuns F cfg tbl allTxs m0 es (m, l)"
  shows "0 \<le> clpaCnt l \<and> clpaCnt l \<le> 200 \<and> int (length (filter publishes es)) \<le> clpaCnt l \<and>
     (\<forall>e. 1 \<le> e \<and> (e < clpaCnt l \<or> e = clpaCnt l \<and> lp_phase l \<noteq> Waiting) \<longrightarrow> ShardNum cfg \<le> int (card (reporters es e)))"
  using clpaRuns_barrier [OF assms] unfolding reporters_acked
  by (auto simp: barrierInv_def ackInv_def split: if_splits)

text \<open>A loop that waits has counted a repartition.\<close>

lemma waiting_counted:
  assumes sn: "0 < ShardNum cfg" and new: "NewCLPACommitteeModule F cfg tot batch freq = Inr m0"
    and run: "clpaRuns F cfg tbl allTxs m0 es (m, l)"
  shows "lp_phase l = Waiting \<longrightarrow> 1 \<le> clpaCnt l"
  using run
proof (induction es "(m, l)" arbitrary: m l rule: clpaRuns.induct)
  case init
  then show ?case by (simp add: loopStart_def)
next
  case (next_event es st e)
  show ?case using next_event.hyps(3)
  proof (cases rule: clpaStep.cases)
    case (turn l now1 now2 now3 ps m acts)
    have "0 \<le> clpaCnt l" using clpaRuns_barrier [OF sn new next_event.hyps(1)] turn by (simp add: barrierInv_def)
    with loopTurn_cases [OF turn(4)] turn(3) show ?thesis by auto
  next
    case (poll l m now)
    then show ?thesis using next_event.hyps(2) [of m l] by (auto simp: waitTurn_def split: if_splits)
  next
    case (report b m)
    then show ?thesis using next_event.hyps(2) by blast
  qed
qed

text \<open>C15: The wait of the CLPA committee ends exactly when enough different shards have reported the awaited epoch: no
  other condition can hold it up, and nothing else can end it.\<close>

theorem wait_ends:
  assumes sn: "0 < ShardNum cfg" and new: "NewCLPACommitteeModule F cfg tot batch freq = Inr m0"
    and run: "clpaRuns F cfg tbl allTxs m0 es (m, l)" and waits: "lp_phase l = Waiting"
  shows "lp_phase (snd (waitTurn now (m, l))) \<noteq> Waiting \<longleftrightarrow> ShardNum cfg \<le> int (card (reporters es (clpaCnt l)))"
proof -
  have I: "ackInv (ShardNum cfg) (reportsOf es) (curEpoch m) (epochShardAcks m)" "settled (ShardNum cfg) (reportsOf es) (curEpoch m)"
    "0 \<le> clpaCnt l" "clpaCnt l \<le> 200" "clpaCnt l \<le> curEpoch m + 1"
    using clpaRuns_barrier [OF sn new run] waits by (simp_all add: barrierInv_def)
  have pos: "1 \<le> clpaCnt l" using waiting_counted [OF sn new run] waits by blast
  have t: "toInt32 (clpaCnt l) = clpaCnt l" using I(3,4) by (intro toInt32_id) auto
  have "lp_phase (snd (waitTurn now (m, l))) \<noteq> Waiting \<longleftrightarrow> clpaCnt l \<le> curEpoch m"
    using waits by (auto simp: waitTurn_def t)
  also have "\<dots> \<longleftrightarrow> ShardNum cfg \<le> int (card (reporters es (clpaCnt l)))"
  proof
    assume "clpaCnt l \<le> curEpoch m"
    then show "ShardNum cfg \<le> int (card (reporters es (clpaCnt l)))"
      using I(1) pos by (simp add: ackInv_def reporters_acked)
  next
    assume r: "ShardNum cfg \<le> int (card (reporters es (clpaCnt l)))"
    show "clpaCnt l \<le> curEpoch m"
    proof (rule ccontr)
      assume "\<not> clpaCnt l \<le> curEpoch m"
      then have "clpaCnt l = curEpoch m + 1" using I(5) by simp
      then show False using I(2) r by (simp add: settled_def reporters_acked)
    qed
  qed
  finally show ?thesis .
qed

section \<open>The epoch of the committee with brokers\<close>

text \<open>C34: In the CLPA-broker committee one shard alone moves the epoch: when a shard reports the epochs from 1 to k, and no
  other shard reports anything, the compare-and-swap brings the committee to epoch k and its wait for epoch k ends.
  The same reports leave the CLPA committee, which counts shards, at epoch 0 as soon as there are two shards.\<close>

theorem single_shard_advances:
  fixes b0 :: "'f clpaBrokerCommittee" and m0 :: "'f clpaCommittee"
  assumes k: "int k < 2 ^ 31" and start: "cb_curEpoch b0 = 0"
    and two: "1 < ShardNum cfg" and new: "curEpoch m0 = 0" "epochShardAcks m0 = []"
  shows "cb_curEpoch (foldl (\<lambda>b e. cb_epochCAS e b) b0 (map int [1..<Suc k])) = int k \<and>
     (\<forall>(b :: 'f clpaBrokerCommittee) l now. cb_curEpoch b = int k \<and> cb_clpaCnt l = int k \<longrightarrow> cb_phase (snd (cb_waitTurn now (b, l))) \<noteq> CbWaiting) \<and>
     curEpoch (foldl (\<lambda>m e. recordEpochAck cfg s e m) m0 (map int [1..<Suc k])) = 0"
proof (intro conjI allI impI)
  show "cb_curEpoch (foldl (\<lambda>b e. cb_epochCAS e b) b0 (map int [1..<Suc k])) = int k"
    using k
  proof (induction k)
    case 0
    then show ?case using start by simp
  next
    case (Suc k)
    then show ?case by (simp add: cb_epochCAS_def toInt32_id)
  qed
next
  fix b :: "'f clpaBrokerCommittee" and l :: cbLoop and now
  assume "cb_curEpoch b = int k \<and> cb_clpaCnt l = int k"
  then show "cb_phase (snd (cb_waitTurn now (b, l))) \<noteq> CbWaiting"
    using k by (simp add: cb_waitTurn_def toInt32_id)
next
  define h where "h = map (\<lambda>e. (s, int e)) [1..<Suc k]"
  define m where "m = foldl (\<lambda>m x. recordEpochAck cfg (fst x) (snd x) m) m0 h"
  have h: "int32s h" using k by (auto simp: int32s_def h_def)
  have sn: "0 < ShardNum cfg" using two by simp
  note I = recordAcks_inv [OF sn new h m_def, THEN conjunct1]
  have "acked h 1 \<subseteq> {s}" by (auto simp: acked_def h_def)
  then have "card (acked h 1) \<le> 1" using card_mono [of "{s}"] by fastforce
  then have "\<not> 1 \<le> curEpoch m" using I two by (auto simp: ackInv_def)
  moreover have "m = foldl (\<lambda>m e. recordEpochAck cfg s e m) m0 (map int [1..<Suc k])"
    by (simp add: m_def h_def foldl_map)
  ultimately show "curEpoch (foldl (\<lambda>m e. recordEpochAck cfg s e m) m0 (map int [1..<Suc k])) = 0"
    using I by (simp add: ackInv_def)
qed

section \<open>A concrete committee\<close>

text \<open>Rational arithmetic for the scores, two shards of two nodes, batches of one transaction, no pause.\<close>

definition ratScores :: "rat f64" where
  "ratScores = \<lparr>f_ofInt = of_int, f_mul = (*), f_div = (/), f_sub = (-), f_less = (<)\<rparr>"

definition sampleIps :: ipTable where
  "sampleIps = [(0, [(0, ''a0''), (1, ''a1'')]), (1, [(0, ''b0''), (1, ''b1'')])]"

definition sampleGraph :: "rat CLPAState" where
  "sampleGraph = (newCLPAState ratScores)\<lparr>WeightPenalty := 1/2, MaxIterations := 100, cs_ShardNum := 2, VertexsNumInShard := [0, 0]\<rparr>"

definition sampleCommittee :: "rat clpaCommittee" where
  "sampleCommittee = \<lparr>dataTotalNum = 9, nowDataNum = 0, batchDataNum = 1, curEpoch = 0, clpaGraph = sampleGraph,
     modifiedMap = Map.empty, clpaLastRunningTime = 0, clpaFreq = 0, epochShardAcks = []\<rparr>"

lemma sampleGraph_fresh: "freshGraph ratScores sampleCfg = Inr sampleGraph"
  by (simp add: freshGraph_def Init_CLPAState_def makeInts_def sampleCfg_def sampleGraph_def ratScores_def
      newCLPAState_def numeral_2_eq_2)

lemma sampleCommittee_new: "NewCLPACommitteeModule ratScores sampleCfg 9 1 0 = Inr sampleCommittee"
  by (simp add: NewCLPACommitteeModule_def sampleGraph_fresh sampleCommittee_def)

definition sampleReport :: "u64 \<Rightarrow> int \<Rightarrow> BlockInfoMsg" where
  "sampleReport s e = \<lparr>BlockBodyLength = 0, InnerShardTxs = [], Epoch = e, ProposeTime = 1, CommitTime = 2, SenderShardID = s,
     Relay1Txs = [], Relay2Txs = [], Broker1Txs = [], Broker2Txs = []\<rparr>"

lemma ack_sample:
  "recordEpochAck sampleCfg s e m =
     (if e \<le> curEpoch m then m else
       let acks = AList.update e (insert s (getOr {} (map_of (epochShardAcks m) e))) (epochShardAcks m);
           (cur, acks) = advanceEpoch 2 (toInt32 (curEpoch m + 1)) acks (curEpoch m)
       in m\<lparr>curEpoch := cur, epochShardAcks := acks\<rparr>)"
  by (simp add: recordEpochAck_def sampleCfg_def Let_def AList.update_conv')

theorem epoch_is_barrier_witness:
  "(GREATEST n. 0 \<le> n \<and> (\<forall>e. 1 \<le> e \<and> e \<le> n \<longrightarrow>
      2 \<le> int (card (acked [(1, 2), (0, 1), (0, 1), (1, 1), (0, 3), (0, 2)] e)))) = 2"
proof -
  have h: "0 < ShardNum sampleCfg" "curEpoch sampleCommittee = 0" "epochShardAcks sampleCommittee = []"
    "int32s [(1, 2), (0, 1), (0, 1), (1, 1), (0, 3), (0, 2)]"
    by (simp_all add: sampleCfg_def sampleCommittee_def int32s_def)
  have "curEpoch (foldl (\<lambda>m x. recordEpochAck sampleCfg (fst x) (snd x) m) sampleCommittee
      [(1, 2), (0, 1), (0, 1), (1, 1), (0, 3), (0, 2)]) = 2"
    by (simp add: ack_sample advanceEpoch.simps h toInt32_id)
  with epoch_is_barrier [OF h] show ?thesis by (simp add: sampleCfg_def)
qed

definition sampleSched :: "rat psched" where
  "sampleSched = \<lparr>ps_agent = (\<lambda>_. Some []), ps_ks = [], ps_es = [], ps_kp1 = [], ps_kp2 = [], ps_kp3 = [], ps_es1 = [],
     ps_ordV = (\<lambda>_. []), ps_ordA = (\<lambda>_. [fakeAddr])\<rparr>"

lemma sample_edges: "\<exists>g. ComputeEdges2Shard [] sampleGraph = Inr g \<and> cs_ShardNum g = 2"
  "cs_ShardNum g = 2 \<Longrightarrow> \<exists>g'. ComputeEdges2Shard [] g = Inr g' \<and> cs_ShardNum g' = 2"
  by (simp_all add: ComputeEdges2Shard_def makeInts_def sampleGraph_def Let_def)

lemma sample_payload: "cs_ShardNum g = 2 \<Longrightarrow> \<exists>pl. aeroPayload ratScores [] [] [] [] n g = Inr pl"
  by (simp add: aeroPayload_def shardTotals_def statsOf_def makeInts_def)

lemma sample_map: "clpaMapSend sampleCfg sampleIps [(fakeAddr, 0)] =
    Inr (map (\<lambda>addr. (addr, WPartition [(fakeAddr, 0)])) [''a0'', ''a1'', ''b0'', ''b1''])"
  by (simp add: clpaMapSend_def sliceTo_def fakeAddr_def shardIds_def sampleCfg_def getNodeIpsWithinShard_def sampleIps_def upt_rec)

lemma sample_repartition:
  assumes g: "clpaGraph m = sampleGraph" 
  shows "\<exists>m' acts. repartition ratScores sampleCfg sampleIps sampleSched (m, l) = Inr (m', l\<lparr>clpaCnt := clpaCnt l + 1, lp_phase := Waiting\<rparr>, acts) \<and>
     publishes (Turn acts)"
proof -
  obtain g1 where g1: "ComputeEdges2Shard [] sampleGraph = Inr g1" "cs_ShardNum g1 = 2" using sample_edges(1) by blast
  obtain pl where pl: "aeroPayload ratScores [] [] [] [] (clpaCnt l + 1) g1 = Inr pl" using sample_payload [OF g1(2)] by blast
  obtain g2 where g2: "ComputeEdges2Shard [] g1 = Inr g2" using sample_edges(2) [OF g1(2)] by blast
  have a: "AERO_Partition ratScores (\<lambda>_. Some []) [] [] [] [] [] [] (clpaCnt l + 1) sampleGraph = Inr (Some [fakeAddr \<mapsto> 0], g2)"
    by (simp add: AERO_Partition_def g1 pl g2)
  have e: "mapEntries (\<lambda>_. [fakeAddr]) (Some [fakeAddr \<mapsto> 0]) = [(fakeAddr, 0)]" by (simp add: mapEntries_def)
  show ?thesis
    by (simp add: repartition_def sampleSched_def g a publishMap_def e sample_map clpaReset_def resetGraph_def sampleGraph_fresh
        publishes_def sends_def)
qed

lemma sample_sendPart:
  "\<exists>m' acts. sendPart sampleCfg sampleIps sampleLoaded 1 1 (sampleCommittee, loopStart) =
     Inr (m', loopStart\<lparr>globalSendCount := 1\<rparr>, acts) \<and> clpaGraph m' = sampleGraph \<and> clpaFreq m' = 0 \<and> clpaLastRunningTime m' = 1"
proof -
  obtain tx where tx: "loopTx sampleLoaded 1 0 = Inr tx" "Sender tx = ''00000000000000a1''"
    by (simp add: loopTx_def sampleLoaded_def goRem_def nthI_def sampleTx_def NewTransaction_fields)
  have "isOk (staticShard sampleCfg ''00000000000000a1'')"
    by (simp add: staticShard_def Addr2Shard_alt last8_def ParseUint16_def hexDigit_def goRem_def sampleCfg_def)
  then have p: "\<forall>x \<in> set [tx]. isOk (fetchModifiedMap sampleCfg Map.empty (Sender x))"
    by (simp add: tx fetchModifiedMap_def)
  have n: "InjectSpeed sampleCfg = int 2000" "0 < (2000 :: nat)" by (simp_all add: sampleCfg_def)
  note r = txSendingBy_run [OF n p, of sampleIps]
  show ?thesis
    by (simp add: sendPart_def sampleCommittee_def loopStart_def tx clpa_txSending_def r)
qed

definition sampleWaiting :: "rat clpaCommittee \<Rightarrow> bool" where
  "sampleWaiting m \<longleftrightarrow> curEpoch m = 0 \<and> epochShardAcks m = [] \<and>
     (\<exists>acts l. clpaRuns ratScores sampleCfg sampleIps sampleLoaded sampleCommittee [Turn acts] (m, l) \<and>
        publishes (Turn acts) \<and> clpaCnt l = 1 \<and> lp_phase l = Waiting)"

lemma sample_waits: "\<exists>m. sampleWaiting m"
proof -
  obtain m1 a1 where s: "sendPart sampleCfg sampleIps sampleLoaded 1 1 (sampleCommittee, loopStart) =
      Inr (m1, loopStart\<lparr>globalSendCount := 1\<rparr>, a1)" "clpaGraph m1 = sampleGraph" "clpaFreq m1 = 0" "clpaLastRunningTime m1 = 1"
    using sample_sendPart by blast
  define l1 where "l1 = (loopStart\<lparr>globalSendCount := 1\<rparr>)\<lparr>clpaCnt := 1, lp_phase := Waiting\<rparr>"
  obtain m2 a2 where r: "repartition ratScores sampleCfg sampleIps sampleSched (m1, loopStart\<lparr>globalSendCount := 1\<rparr>) = Inr (m2, l1, a2)"
    "publishes (Turn a2)"
    using sample_repartition [OF s(2), of "loopStart\<lparr>globalSendCount := 1\<rparr>"] by (auto simp: l1_def loopStart_def)
  have "repartitionDue sampleCfg 1 m1" by (simp add: repartitionDue_def s sampleCfg_def)
  then have t: "loopTurn ratScores sampleCfg sampleIps sampleLoaded 1 1 1 sampleSched (sampleCommittee, loopStart) = Inr (m2, l1, a1 @ a2)"
    by (simp add: loopTurn_def s(1) r(1))
  have "clpaStep ratScores sampleCfg sampleIps sampleLoaded (sampleCommittee, loopStart) (Turn (a1 @ a2)) (m2, l1)"
    by (rule clpaStep.turn [OF _ t]) (simp add: loopStart_def)
  from clpaRuns.next_event [OF clpaRuns.init this]
  have "clpaRuns ratScores sampleCfg sampleIps sampleLoaded sampleCommittee [Turn (a1 @ a2)] (m2, l1)" by simp
  moreover have "curEpoch m2 = 0 \<and> epochShardAcks m2 = []"
    using loopTurn_cases [OF t] by (simp add: sampleCommittee_def)
  moreover have "publishes (Turn (a1 @ a2))" "clpaCnt l1 = 1" "lp_phase l1 = Waiting"
    using r(2) by (simp_all add: publishes_append l1_def)
  ultimately show ?thesis unfolding sampleWaiting_def by blast
qed

text \<open>Both shards report epoch 1, and the committee is polled.\<close>

lemma sample_reports:
  assumes "sampleWaiting m"
  shows "\<exists>acts m' l. clpaRuns ratScores sampleCfg sampleIps sampleLoaded sampleCommittee
      [Turn acts, Report (sampleReport 0 1), Report (sampleReport 1 1)] (m', l) \<and>
     publishes (Turn acts) \<and> curEpoch m' = 1 \<and> clpaCnt l = 1 \<and> lp_phase l = Waiting"
proof -
  obtain acts l where r: "clpaRuns ratScores sampleCfg sampleIps sampleLoaded sampleCommittee [Turn acts] (m, l)"
    "publishes (Turn acts)" "clpaCnt l = 1" "lp_phase l = Waiting"
    using assms by (auto simp: sampleWaiting_def)
  have m: "curEpoch m = 0" "epochShardAcks m = []" using assms by (simp_all add: sampleWaiting_def)
  define m1 where "m1 = recordEpochAck sampleCfg 0 1 m"
  define m2 where "m2 = recordEpochAck sampleCfg 1 1 m1"
  have e: "clpa_HandleBlockInfo sampleCfg (sampleReport 0 1) m = Inr m1" "clpa_HandleBlockInfo sampleCfg (sampleReport 1 1) m1 = Inr m2"
    by (simp_all add: clpa_HandleBlockInfo_def sampleReport_def m1_def m2_def toInt32_id)
  have "curEpoch m2 = 1"
    unfolding m2_def m1_def by (simp add: ack_sample advanceEpoch.simps m toInt32_id)
  moreover have "clpaRuns ratScores sampleCfg sampleIps sampleLoaded sampleCommittee
      (([Turn acts] @ [Report (sampleReport 0 1)]) @ [Report (sampleReport 1 1)]) (m2, l)"
    by (rule clpaRuns.next_event [OF clpaRuns.next_event [OF r(1) clpaStep.report [OF e(1)]] clpaStep.report [OF e(2)]])
  ultimately show ?thesis using r by auto
qed

theorem repartition_barrier_witness:
  "\<exists>acts m l now. publishes (Turn acts) \<and> clpaRuns ratScores sampleCfg sampleIps sampleLoaded sampleCommittee
      [Turn acts, Report (sampleReport 0 1), Report (sampleReport 1 1), Poll] (m, l) \<and>
     clpaCnt l = 1 \<and> lp_phase l = Sending \<and>
     2 \<le> int (card (reporters [Turn acts, Report (sampleReport 0 1), Report (sampleReport 1 1), Poll] 1))"
proof -
  obtain m where "sampleWaiting m" using sample_waits by blast
  from sample_reports [OF this] obtain acts m' l where
    r: "clpaRuns ratScores sampleCfg sampleIps sampleLoaded sampleCommittee
      [Turn acts, Report (sampleReport 0 1), Report (sampleReport 1 1)] (m', l)"
    "publishes (Turn acts)" "curEpoch m' = 1" "clpaCnt l = 1" "lp_phase l = Waiting"
    by blast
  obtain m2 l2 where w: "waitTurn 1 (m', l) = (m2, l2)" "lp_phase l2 = Sending" "clpaCnt l2 = 1"
    using r by (simp add: waitTurn_def toInt32_id)
  from clpaStep.poll [OF r(5), of ratScores sampleCfg sampleIps sampleLoaded m' 1] w(1)
  have "clpaStep ratScores sampleCfg sampleIps sampleLoaded (m', l) Poll (m2, l2)" by simp
  from clpaRuns.next_event [OF r(1) this]
  have run: "clpaRuns ratScores sampleCfg sampleIps sampleLoaded sampleCommittee
      [Turn acts, Report (sampleReport 0 1), Report (sampleReport 1 1), Poll] (m2, l2)" by simp
  have sn: "0 < ShardNum sampleCfg" by (simp add: sampleCfg_def)
  from repartition_barrier [OF sn sampleCommittee_new run] w
  have "2 \<le> int (card (reporters [Turn acts, Report (sampleReport 0 1), Report (sampleReport 1 1), Poll] 1))"
    by (simp add: sampleCfg_def)
  with run r(2) w show ?thesis by blast
qed

theorem wait_ends_witness:
  "\<exists>m l m' l' acts acts'.
     lp_phase (snd (waitTurn 9 (m, l))) = Waiting \<and>
     lp_phase (snd (waitTurn 9 (m', l'))) \<noteq> Waiting \<and>
     clpaRuns ratScores sampleCfg sampleIps sampleLoaded sampleCommittee [Turn acts] (m, l) \<and>
     clpaRuns ratScores sampleCfg sampleIps sampleLoaded sampleCommittee
       [Turn acts', Report (sampleReport 0 1), Report (sampleReport 1 1)] (m', l')"
proof -
  obtain m where m: "sampleWaiting m" using sample_waits by blast
  then obtain acts l where r: "clpaRuns ratScores sampleCfg sampleIps sampleLoaded sampleCommittee [Turn acts] (m, l)"
    "clpaCnt l = 1" "lp_phase l = Waiting"
    by (auto simp: sampleWaiting_def)
  from sample_reports [OF m] obtain acts' m' l' where
    r': "clpaRuns ratScores sampleCfg sampleIps sampleLoaded sampleCommittee
      [Turn acts', Report (sampleReport 0 1), Report (sampleReport 1 1)] (m', l')" "clpaCnt l' = 1" "lp_phase l' = Waiting"
    by blast
  have sn: "0 < ShardNum sampleCfg" by (simp add: sampleCfg_def)
  have "reporters [Turn acts] 1 = {}" by (auto simp: reporters_def)
  then have "lp_phase (snd (waitTurn 9 (m, l))) = Waiting"
    using wait_ends [OF sn sampleCommittee_new r(1,3), of 9] by (simp add: r sampleCfg_def)
  moreover have "reporters [Turn acts', Report (sampleReport 0 1), Report (sampleReport 1 1)] 1 = {0, 1}"
    by (auto simp: reporters_acked acked_def reportsOf_def List.map_filter_def sampleReport_def toInt32_id)
  then have "lp_phase (snd (waitTurn 9 (m', l'))) \<noteq> Waiting"
    using wait_ends [OF sn sampleCommittee_new r'(1,3), of 9] by (simp add: r' sampleCfg_def)
  ultimately show ?thesis using r(1) r'(1) by blast
qed

definition sampleCb :: "rat clpaBrokerCommittee" where
  "sampleCb = \<lparr>dataTotalNum = 9, nowDataNum = 0, batchDataNum = 1, broker = NewBroker [] 0, brokerConfirm1Pool = Map.empty,
     brokerConfirm2Pool = Map.empty, brokerTxPool = [], cb_curEpoch = 0, cb_clpaGraph = sampleGraph,
     cb_modifiedMap = Map.empty, cb_clpaLastRunningTime = 0, cb_clpaFreq = 0\<rparr>"

theorem single_shard_advances_witness:
  "cb_curEpoch (foldl (\<lambda>b e. cb_epochCAS e b) sampleCb [1, 2, 3]) = 3 \<and>
     curEpoch (foldl (\<lambda>m e. recordEpochAck sampleCfg 1 e m) sampleCommittee [1, 2, 3]) = 0"
proof -
  have a: "int 3 < 2 ^ 31" "cb_curEpoch sampleCb = 0" "1 < ShardNum sampleCfg" "curEpoch sampleCommittee = 0"
    "epochShardAcks sampleCommittee = []"
    by (simp_all add: sampleCb_def sampleCfg_def sampleCommittee_def)
  have l: "map int [1..<Suc 3] = [1, 2, 3]" by (simp add: upt_rec)
  from single_shard_advances [OF a, of 1] show ?thesis unfolding l of_nat_numeral by blast
qed

end
