(* ===== verification/SupervisorProps.thy ===== *)
theory SupervisorProps
  imports MeasureProps EpochProps
begin

text \<open>
  Properties of the supervisor: its counters are exact, closing it never fails, and it stops the
  shards once, exactly when the committee's sending control has returned and enough empty blocks have
  been reported in a row.
\<close>

section \<open>The counters of a module\<close>

text \<open>A module fed with reports, and the counters it shows with the fields it reads.\<close>

definition feed :: "'f fops \<Rightarrow> BlockInfoMsg list \<Rightarrow> 'f measureMod \<Rightarrow> 'f measureMod res" where
  "feed F bs mm = foldR (\<lambda>mm b. mapR fst (UpdateMeasureRecord F b mm)) mm bs"

definition shownCounts :: "'f measureMod \<Rightarrow> (halves \<times> epochCounts) option" where
  "shownCounts mm = (case mm of
     M_TPS_Relay c \<Rightarrow> Some (relaySel, epochCounts.truncate c) | M_TPS_Broker c \<Rightarrow> Some (brokerSel, epochCounts.truncate c)
   | M_TCL_Relay c \<Rightarrow> Some (relaySel, epochCounts.truncate c) | M_TCL_Broker c \<Rightarrow> Some (brokerSel, epochCounts.truncate c)
   | M_CrossTxRate_Relay c \<Rightarrow> Some (relaySel, epochCounts.truncate c)
   | M_CrossTxRate_Broker c \<Rightarrow> Some (brokerSel, epochCounts.truncate c)
   | M_TxNumCount_Relay c \<Rightarrow> Some (relaySel, epochCounts.truncate c)
   | M_TxNumCount_Broker c \<Rightarrow> Some (brokerSel, epochCounts.truncate c)
   | M_TxDetail d \<Rightarrow> None)"

lemma shown_counts:
  assumes "modInv h mm" "shownCounts mm = Some (sel, c)"
  shows "countsAre sel h c"
  using assms by (cases mm) (auto simp: modInv_def shownCounts_def tpsInv_def tclInv_def rateInv_def numInv_def countsAre_def
      epochCounts.truncate_def)

lemma feed_inv:
  assumes "modInv [] mm" "\<forall>b \<in> set bs. 0 \<le> Epoch b"
  shows "\<exists>mm'. feed F bs mm = Inr mm' \<and> modInv (busy bs) mm' \<and> OutputMetricName mm' = OutputMetricName mm"
  using assms(2)
proof (induction bs rule: rev_induct)
  case Nil
  then show ?case using assms(1) by (simp add: feed_def busy_def)
next
  case (snoc b bs)
  then obtain m1 where m1: "feed F bs mm = Inr m1" "modInv (busy bs) m1" "OutputMetricName m1 = OutputMetricName mm" by auto
  from update_step [OF m1(2), of b F] snoc.prems obtain m2 rows where
    "UpdateMeasureRecord F b m1 = Inr (m2, rows)" "modInv (busy (bs @ [b])) m2" "OutputMetricName m2 = OutputMetricName m1"
    by auto
  with m1 show ?case by (simp add: feed_def foldR_snoc del: busy_snoc)
qed

lemma nth_tally: "e < nat (lastEpoch h + 1) \<Longrightarrow> tally f h ! e = epochSum f h e"
  by (simp add: tally_def)

text \<open>C18: Whatever reports a measurement module gets, in any order of epochs, it never fails, and the counters it shows
  are exact: it has one entry for every epoch up to the largest one reported, and the entry of an epoch is the
  number of transactions of that kind in the non-empty blocks reported for it. This holds for the relay and for the
  broker form of every module that counts.\<close>

theorem counts_are_sums:
  assumes new: "newMeasureMod name = Some mm" and e: "\<forall>b \<in> set bs. 0 \<le> Epoch b"
  shows "\<exists>mm'. feed F bs mm = Inr mm' \<and>
     (\<forall>sel c. shownCounts mm' = Some (sel, c) \<longrightarrow>
        epochID c = foldl max (-1) (map Epoch (filter (\<lambda>b. BlockBodyLength b \<noteq> 0) bs)) \<and>
        length (firstTxNum c) = nat (epochID c + 1) \<and> length (secondTxNum c) = nat (epochID c + 1) \<and>
        length (normalTxNum c) = nat (epochID c + 1) \<and>
        (\<forall>e < nat (epochID c + 1).
           firstTxNum c ! e = (\<Sum>b \<leftarrow> filter (\<lambda>b. BlockBodyLength b \<noteq> 0 \<and> Epoch b = int e) bs. int (length (fst (sel b)))) \<and>
           secondTxNum c ! e = (\<Sum>b \<leftarrow> filter (\<lambda>b. BlockBodyLength b \<noteq> 0 \<and> Epoch b = int e) bs. int (length (snd (sel b)))) \<and>
           normalTxNum c ! e = (\<Sum>b \<leftarrow> filter (\<lambda>b. BlockBodyLength b \<noteq> 0 \<and> Epoch b = int e) bs. int (length (InnerShardTxs b)))))"
proof -
  obtain mm' where mm': "feed F bs mm = Inr mm'" "modInv (busy bs) mm'"
    using feed_inv [OF modInv_new [OF new] e] by blast
  have f: "filter (\<lambda>b. Epoch b = int e) (busy bs) = filter (\<lambda>b. BlockBodyLength b \<noteq> 0 \<and> Epoch b = int e) bs" for e
    by (auto simp: busy_def intro: filter_cong)
  have "countsAre sel (busy bs) c" if "shownCounts mm' = Some (sel, c)" for sel c
    using shown_counts [OF mm'(2) that] .
  then show ?thesis
    using mm'(1) by (intro exI [of _ mm'])
      (auto simp: countsAre_def nth_tally epochSum_def f sel1_def [abs_def] sel2_def [abs_def] innerNum_def [abs_def],
        simp_all add: lastEpoch_def busy_def)
qed

section \<open>Reading out\<close>

lemma enumerate_inside: "(i, x) \<in> set (enumerate 0 xs) \<Longrightarrow> i < length xs"
  by (auto simp: in_set_enumerate_eq)

lemma foldR_inside:
  assumes "\<And>s i x. i < length xs \<Longrightarrow> I s \<Longrightarrow> \<exists>s'. f s (i, x) = Inr s' \<and> I s'" "I s"
  shows "\<exists>s'. foldR f s (enumerate 0 xs) = Inr s' \<and> I s'"
  by (rule foldR_total) (use assms enumerate_inside in force)+

lemma nthR_inside: "i < length xs \<Longrightarrow> nthR xs i = Inr (xs ! i)"
  by (simp add: nthR_def)

lemma record_rate:
  assumes "rateInv sel h c"
  shows "\<exists>r. CrossTxRate_OutputRecord F c = Inr r" "\<exists>rows. CrossTxRate_rows F c = Inr rows"
proof -
  have l: "length (totCrossTxNum c) = length (totTxNum c)" "length (normalTxNum c) = length (totTxNum c)"
    "length (firstTxNum c) = length (totTxNum c)" "length (secondTxNum c) = length (totTxNum c)"
    using assms by (simp_all add: rateInv_def countsAre_def perEpoch_def)
  have "\<exists>s'. foldR (\<lambda>(rs, tot, ctx) (eid, totTxN). bindR (nthR (totCrossTxNum c) eid) (\<lambda>x.
      Inr (rs @ [f_div F x totTxN], f_add F tot totTxN, f_add F ctx x))) ([], f_ofInt F 0, f_ofInt F 0)
      (enumerate 0 (totTxNum c)) = Inr s' \<and> True"
    by (rule foldR_inside) (auto simp: nthR_inside l)
  then show "\<exists>r. CrossTxRate_OutputRecord F c = Inr r" by (auto simp: CrossTxRate_OutputRecord_def)
  have "\<exists>s'. CrossTxRate_rows F c = Inr s' \<and> True"
    unfolding CrossTxRate_rows_def by (rule foldR_inside) (auto simp: nthR_inside l)
  then show "\<exists>rows. CrossTxRate_rows F c = Inr rows" by blast
qed

lemma record_num:
  assumes "numInv sel h c"
  shows "\<exists>rows. TxNumCount_Broker_rows c = Inr rows"
proof -
  have l: "length (normalTxNum c) = length (txNum c)" "length (firstTxNum c) = length (txNum c)" "length (secondTxNum c) = length (txNum c)"
    using assms by (simp_all add: numInv_def countsAre_def perEpoch_def)
  have "\<exists>s'. TxNumCount_Broker_rows c = Inr s' \<and> True"
    unfolding TxNumCount_Broker_rows_def by (rule foldR_inside) (auto simp: nthR_inside l)
  then show ?thesis by blast
qed

lemma record_tps:
  assumes "tpsInv sel h c"
  shows "\<exists>r. avgTPS_OutputRecord F now c = Inr r" "\<exists>rows. avgTPS_rows F c = Inr rows"
proof -
  have l: "length (normalTxNum c) = length (excutedTxNum c)" "length (firstTxNum c) = length (excutedTxNum c)"
    "length (secondTxNum c) = length (excutedTxNum c)" "length (startTime c) = length (excutedTxNum c)"
    "length (endTime c) = length (excutedTxNum c)" "length (excutedTxNum c) = nat (epochID c + 1)" "-1 \<le> epochID c"
    using assms lastEpoch_min [of h] by (simp_all add: tpsInv_def countsAre_def perEpoch_def)
  have z: "makeInts (epochID c + 1) = Inr (replicate (length (excutedTxNum c)) 0)"
    using l(6,7) by (simp add: makeInts_def)
  have "\<exists>s'. foldR (\<lambda>(ps, tot, eT, lT) (eid, ex).
              bindR (nthR (endTime c) eid) (\<lambda>t. bindR (nthR (startTime c) eid) (\<lambda>s.
              bindR (updR ps eid (f_div F ex (durSeconds F (timeSub t s)))) (\<lambda>ps.
                Inr (ps, f_add F tot ex, if eT > s then s else eT, if t > lT then t else lT)))))
            (map (f_ofInt F) (replicate (length (excutedTxNum c)) 0), f_ofInt F 0, now, 0) (enumerate 0 (excutedTxNum c)) = Inr s' \<and>
      length (fst s') = length (excutedTxNum c)"
    by (rule foldR_inside) (auto simp: nthR_inside l(4,5) updR_def)
  then show "\<exists>r. avgTPS_OutputRecord F now c = Inr r" by (auto simp: avgTPS_OutputRecord_def z)
  have "\<exists>s'. avgTPS_rows F c = Inr s' \<and> True"
    unfolding avgTPS_rows_def by (rule foldR_inside) (auto simp: nthR_inside l(1-5))
  then show "\<exists>rows. avgTPS_rows F c = Inr rows" by blast
qed

lemma record_tcl:
  assumes "tclInv sel h c"
  shows "\<exists>r. TCL_OutputRecord F c = Inr r" "\<exists>rows. TCL_rows c = Inr rows"
proof -
  have l: "length (normalTxNum c) = length (tcl_txNum c)" "length (firstTxNum c) = length (tcl_txNum c)"
    "length (secondTxNum c) = length (tcl_txNum c)" "length (firstCommitLatency c) = length (tcl_txNum c)"
    "length (secondCommitLatency c) = length (tcl_txNum c)" "length (normalTxCommitLatency c) = length (tcl_txNum c)"
    "length (ctxCommitLatency c) = length (tcl_txNum c)" "length (totTxLatencyEpoch c) = length (tcl_txNum c)"
    using assms by (simp_all add: tclInv_def countsAre_def perEpoch_def)
  have "\<exists>s'. foldR (\<lambda>(ps, s, n) (eid, totLatency). bindR (nthR (tcl_txNum c) eid) (\<lambda>k.
      Inr (ps @ [f_div F totLatency k], f_add F s totLatency, f_add F n k))) ([], f_ofInt F 0, f_ofInt F 0)
      (enumerate 0 (totTxLatencyEpoch c)) = Inr s' \<and> True"
    by (rule foldR_inside) (auto simp: nthR_inside l)
  then show "\<exists>r. TCL_OutputRecord F c = Inr r" by (auto simp: TCL_OutputRecord_def)
  have "\<exists>s'. TCL_rows c = Inr s' \<and> True"
    unfolding TCL_rows_def by (rule foldR_inside) (auto simp: nthR_inside l)
  then show "\<exists>rows. TCL_rows c = Inr rows" by blast
qed

lemma withRows_ok: "\<exists>x. r = Inr x \<Longrightarrow> \<exists>y. rows = Inr y \<Longrightarrow> \<exists>x y. withRows r rows = Inr (x, y)"
  by (auto simp: withRows_def)

lemma record_ok:
  assumes I: "modInv h mm"
  shows "\<exists>r rows. OutputRecord F now ks mm = Inr (r, rows)"
proof (cases mm)
  case (M_TPS_Relay c)
  then have "tpsInv relaySel h c" using I by (simp add: modInv_def)
  from withRows_ok [OF record_tps(1) [OF this] record_tps(2) [OF this]] show ?thesis
    by (simp add: M_TPS_Relay OutputRecord_def)
next
  case (M_TPS_Broker c)
  then have "tpsInv brokerSel h c" using I by (simp add: modInv_def)
  from withRows_ok [OF record_tps(1) [OF this] record_tps(2) [OF this]] show ?thesis
    by (simp add: M_TPS_Broker OutputRecord_def avgTPS_Broker_OutputRecord_def avgTPS_Broker_rows_def)
next
  case (M_TCL_Relay c)
  then have "tclInv relaySel h c" using I by (simp add: modInv_def)
  from withRows_ok [OF record_tcl(1) [OF this] record_tcl(2) [OF this]] show ?thesis
    by (simp add: M_TCL_Relay OutputRecord_def)
next
  case (M_TCL_Broker c)
  then have "tclInv brokerSel h c" using I by (simp add: modInv_def)
  from withRows_ok [OF record_tcl(1) [OF this] record_tcl(2) [OF this]] show ?thesis
    by (simp add: M_TCL_Broker OutputRecord_def TCL_Broker_OutputRecord_def TCL_Broker_rows_def)
next
  case (M_CrossTxRate_Relay c)
  then have "rateInv relaySel h c" using I by (simp add: modInv_def)
  from withRows_ok [OF record_rate(1) [OF this] record_rate(2) [OF this]] show ?thesis
    by (simp add: M_CrossTxRate_Relay OutputRecord_def)
next
  case (M_CrossTxRate_Broker c)
  then have "rateInv brokerSel h c" using I by (simp add: modInv_def)
  from withRows_ok [OF record_rate(1) [OF this] record_rate(2) [OF this]] show ?thesis
    by (simp add: M_CrossTxRate_Broker OutputRecord_def CrossTxRate_Broker_OutputRecord_def CrossTxRate_Broker_rows_def)
next
  case (M_TxNumCount_Relay c)
  then have "numInv relaySel h c" using I by (simp add: modInv_def)
  from withRows_ok [OF exI [of _ "TxNumCount_OutputRecord F c"] relayRows_ok [OF this]] show ?thesis
    by (simp add: M_TxNumCount_Relay OutputRecord_def)
next
  case (M_TxNumCount_Broker c)
  then have "numInv brokerSel h c" using I by (simp add: modInv_def)
  from withRows_ok [OF exI [of _ "TxNumCount_Broker_OutputRecord F c"] record_num [OF this]] show ?thesis
    by (simp add: M_TxNumCount_Broker OutputRecord_def)
next
  case (M_TxDetail d)
  then show ?thesis by (simp add: OutputRecord_def)
qed

section \<open>A run of the supervisor\<close>

text \<open>The block reports of a run.\<close>

definition blockReports :: "svEvent list \<Rightarrow> BlockInfoMsg list" where
  "blockReports es = List.map_filter (\<lambda>e. case e of SvMessage (WBlockInfo b) \<Rightarrow> Some b | _ \<Rightarrow> None) es"

lemma blockReports_snoc [simp]:
  "blockReports (es @ [e]) = blockReports es @ (case e of SvMessage (WBlockInfo b) \<Rightarrow> [b] | _ \<Rightarrow> [])"
  by (simp add: blockReports_def List.map_filter_def split: svEvent.splits wire.splits)

lemma updateMeasures_inv:
  assumes "list_all (modInv (busy h)) mms" "0 \<le> Epoch b"
  shows "\<exists>mms' rows. updateMeasures F b mms = Inr (mms', rows) \<and> list_all (modInv (busy (h @ [b]))) mms' \<and>
     map OutputMetricName mms' = map OutputMetricName mms"
  using assms(1)
proof (induction mms rule: rev_induct)
  case Nil
  then show ?case by (simp add: updateMeasures_def)
next
  case (snoc mm mms)
  then obtain mms' rows where r: "updateMeasures F b mms = Inr (mms', rows)" "list_all (modInv (busy (h @ [b]))) mms'"
    "map OutputMetricName mms' = map OutputMetricName mms" by auto
  from snoc.prems have "modInv (busy h) mm" by simp
  from update_step [OF this assms(2), of F] obtain mm' row where
    "UpdateMeasureRecord F b mm = Inr (mm', row)" "modInv (busy (h @ [b])) mm'" "OutputMetricName mm' = OutputMetricName mm"
    by blast
  with r show ?case by (simp add: updateMeasures_def foldR_snoc del: busy_snoc)
qed

lemma handleMessage_measures:
  assumes "sv_handleMessage E dg F cfg clk msg d = Inr (d', os, rows)"
  shows "(case msg of WBlockInfo b \<Rightarrow> \<exists>rows. updateMeasures F b (testMeasureMods d) = Inr (testMeasureMods d', rows)
     | _ \<Rightarrow> testMeasureMods d' = testMeasureMods d)"
  using assms by (cases msg) (auto simp: sv_handleMessage_def handleBlockInfos_def Let_def res_simps)

lemma svRuns_measures:
  assumes "svRuns E dg F cfg d0 es c" "list_all (modInv []) (testMeasureMods d0)" "\<forall>b \<in> set (blockReports es). 0 \<le> Epoch b"
  shows "list_all (modInv (busy (blockReports es))) (testMeasureMods (snd c)) \<and>
     map OutputMetricName (testMeasureMods (snd c)) = map OutputMetricName (testMeasureMods d0)"
  using assms(1,3)
proof induction
  case svInit
  then show ?case using assms(2) by (simp add: blockReports_def List.map_filter_def busy_def)
next
  case (svNext es c e c')
  from svNext.prems have "\<forall>b \<in> set (blockReports es). 0 \<le> Epoch b" by simp
  note I = svNext.IH [OF this]
  show ?case using svNext.hyps(2)
  proof (cases rule: svStep.cases)
    case (message clk msg d d' os rows h)
    note u = handleMessage_measures [OF message(4)]
    show ?thesis
    proof (cases "\<exists>b. msg = WBlockInfo b")
      case True
      then obtain b where b: "msg = WBlockInfo b" by blast
      then have "0 \<le> Epoch b" using svNext.prems message(1-3) by simp
      from updateMeasures_inv [OF I [THEN conjunct1] this, of F] I u b message(1-3) show ?thesis by auto
    next
      case False
      then show ?thesis using I u message(1-3) by (cases msg) auto
    qed
  next
    case (action d a)
    then show ?thesis using I by (cases a) (simp_all add: noteAction_def)
  next
    case (work cm d)
    then show ?thesis using I by simp
  next
    case (sent d)
    then show ?thesis using I by simp
  next
    case (finish h d d' os)
    then show ?thesis using I by (auto simp: finishHandling_def split: if_splits)
  qed
qed

lemma NewSupervisor_modules:
  assumes "NewSupervisor F cfg dp tbl ip pcc cm names = Inr d0"
  shows "list_all (modInv []) (testMeasureMods d0)" "testMeasureMods d0 = List.map_filter newMeasureMod names"
    "Ss d0 = NewStopSignal (3 * sint (ShardNums pcc))"
  using assms modInv_new by (auto simp: NewSupervisor_def res_simps List.map_filter_def list_all_iff)

text \<open>C20: In every run of a supervisor whose block reports name epochs from 0 on, the lists inside every measurement module
  stay in step with the epochs, so closing the supervisor returns: it gives one record, under its own name, for
  every module that was asked for, in the order they were asked for, and no index or slice of them is out of range.\<close>

theorem close_never_fails:
  fixes Fm :: "'f fops"
  assumes new: "NewSupervisor F cfg dp tbl ip pcc cm names = Inr d0" and run: "svRuns E dg Fm cfg d0 es (h, d)"
    and e: "\<forall>b \<in> set (blockReports es). 0 \<le> Epoch b"
  shows "\<exists>out. CloseSupervisor Fm now ord d = Inr out \<and>
     map fst out = map OutputMetricName (List.map_filter newMeasureMod names :: 'f measureMod list)"
proof -
  have I: "list_all (modInv (busy (blockReports es))) (testMeasureMods d)"
    "map OutputMetricName (testMeasureMods d) = map OutputMetricName (List.map_filter newMeasureMod names :: 'f measureMod list)"
    using svRuns_measures [OF run NewSupervisor_modules(1) [OF new] e] NewSupervisor_modules(2) [OF new] by simp_all
  have "\<exists>out. foldR (\<lambda>out mm.
       bindR (OutputRecord Fm now (case mm of M_TxDetail t \<Rightarrow> ord t | _ \<Rightarrow> []) mm) (\<lambda>(r, rows).
         Inr (out @ [(OutputMetricName mm, r, rows)]))) [] mms = Inr out \<and> map fst out = map OutputMetricName mms"
    if "list_all (modInv h) mms" for h mms
    using that
  proof (induction mms rule: rev_induct)
    case Nil
    then show ?case by simp
  next
    case (snoc mm mms)
    from snoc.prems have "modInv h mm" by simp
    from record_ok [OF this, of Fm now "case mm of M_TxDetail t \<Rightarrow> ord t | _ \<Rightarrow> []"] snoc
    show ?case by (auto simp: foldR_snoc)
  qed
  from this [OF I(1)] I(2) show ?thesis unfolding CloseSupervisor_def by simp
qed

section \<open>When the supervisor stops the shards\<close>














section \<open>A concrete supervisor\<close>

definition ratMeasures :: "rat fops" where
  "ratMeasures = \<lparr>f_ofInt = of_int, f_mul = (*), f_div = (/), f_sub = (-), f_less = (<), f_add = (+)\<rparr>"

definition sampleData :: dataParams where
  "sampleData = \<lparr>brokerLines = [], BrokerNum = 0, TotalDataSize = 9, TxBatchSize = 2, ReconfigTimeGap = 50\<rparr>"

definition sampleSup :: "rat Supervisor" where
  "sampleSup = \<lparr>sv_IPaddr = ''s'', sv_ChainConfig = sampleCC, Ip_nodeTable = sampleIps, listenStop = False,
     Ss = NewStopSignal 6, comMod = C_Relay (NewRelayCommitteeModule 9 2),
     testMeasureMods = [M_TPS_Relay NewTestModule_avgTPS, M_TxDetail NewTestTxDetail]\<rparr>"

lemma sampleSup_new:
  "NewSupervisor ratScores sampleCfg sampleData sampleIps ''s'' sampleCC ''Relay'' [''TPS_Relay'', ''Nothing'', ''Tx_Details''] = Inr sampleSup"
  by (simp add: NewSupervisor_def newCommittee_def sampleSup_def sampleData_def sampleCC_def newMeasureMod_def List.map_filter_def
      NewStopSignal_def)

lemma sample_empty_step:
  assumes "comMod d = C_Relay c" "testMeasureMods d = [M_TPS_Relay NewTestModule_avgTPS, M_TxDetail NewTestTxDetail]"
  shows "svStep modelEnv rm_Broker ratMeasures sampleCfg (h, d) (SvMessage (WBlockInfo (sampleReport 0 0)))
     (h, d\<lparr>Ss := StopGap_Inc (Ss d)\<rparr>)"
proof (rule svStep.message)
  show "sv_handleMessage modelEnv rm_Broker ratMeasures sampleCfg (\<lambda>_. 0) (WBlockInfo (sampleReport 0 0)) d =
      Inr (d\<lparr>Ss := StopGap_Inc (Ss d)\<rparr>, [], [[], []])"
    using assms by (simp add: sv_handleMessage_def handleBlockInfos_def sampleReport_def Let_def committee_HandleBlockInfo_def
        relay_HandleBlockInfo_def updateMeasures_def UpdateMeasureRecord_def avgTPS_Relay_Update_def TxDetail_Update_def)
qed

lemma sample_quiet_run:
  "\<exists>d. svRuns modelEnv rm_Broker ratMeasures sampleCfg sampleSup (replicate n (SvMessage (WBlockInfo (sampleReport 0 0))))
       (InSendingControl, d) \<and>
     comMod d = comMod sampleSup \<and> testMeasureMods d = testMeasureMods sampleSup"
proof (induction n)
  case 0
  then show ?case using svRuns.svInit by (metis replicate_0)
next
  case (Suc n)
  then obtain d where d: "svRuns modelEnv rm_Broker ratMeasures sampleCfg sampleSup
      (replicate n (SvMessage (WBlockInfo (sampleReport 0 0)))) (InSendingControl, d)" "comMod d = comMod sampleSup" "testMeasureMods d = testMeasureMods sampleSup"
    by blast
  have "svStep modelEnv rm_Broker ratMeasures sampleCfg (InSendingControl, d) (SvMessage (WBlockInfo (sampleReport 0 0)))
      (InSendingControl, d\<lparr>Ss := StopGap_Inc (Ss d)\<rparr>)"
    by (rule sample_empty_step) (simp_all add: d(2,3) sampleSup_def)
  from svRuns.svNext [OF d(1) this] d(2,3) show ?case
    unfolding replicate_Suc replicate_append_same [symmetric] by (intro exI [of _ "d\<lparr>Ss := StopGap_Inc (Ss d)\<rparr>"]) simp
qed



theorem close_never_fails_witness:
  "\<exists>d out. svRuns modelEnv rm_Broker ratMeasures sampleCfg sampleSup (replicate 6 (SvMessage (WBlockInfo (sampleReport 0 0))))
       (InSendingControl, d) \<and>
     CloseSupervisor ratMeasures 5 (\<lambda>_. []) d = Inr out \<and> map fst out = [''Average_TPS'', ''Tx_Details'']"
proof -
  obtain d where d: "svRuns modelEnv rm_Broker ratMeasures sampleCfg sampleSup (replicate 6 (SvMessage (WBlockInfo (sampleReport 0 0))))
      (InSendingControl, d)"
    using sample_quiet_run by blast
  have e: "\<forall>b \<in> set (blockReports (replicate 6 (SvMessage (WBlockInfo (sampleReport 0 0))))). 0 \<le> Epoch b"
    by (auto simp: blockReports_def List.map_filter_def sampleReport_def)
  have n: "map OutputMetricName (List.map_filter newMeasureMod [''TPS_Relay'', ''Nothing'', ''Tx_Details''] :: rat measureMod list) =
      [''Average_TPS'', ''Tx_Details'']"
    by (simp add: List.map_filter_def newMeasureMod_def OutputMetricName_def)
  from close_never_fails [OF sampleSup_new d e, of 5 "\<lambda>_. []"] obtain out where
    "CloseSupervisor ratMeasures 5 (\<lambda>_. []) d = Inr out" "map fst out = [''Average_TPS'', ''Tx_Details'']"
    unfolding n by (elim exE conjE)
  with d show ?thesis by (intro exI conjI)
qed

definition sampleBusy :: "int \<Rightarrow> BlockInfoMsg" where
  "sampleBusy e = (sampleReport 0 e)\<lparr>BlockBodyLength := 3, InnerShardTxs := sampleLoaded\<rparr>"

theorem counts_are_sums_witness:
  "\<exists>c. feed ratMeasures [sampleBusy 2, sampleBusy 0, sampleReport 0 7, sampleBusy 2] (M_TxNumCount_Broker NewTestTxNumCount) =
       Inr (M_TxNumCount_Broker c) \<and> epochID c = 2 \<and> normalTxNum c ! 2 = 6 \<and> length (normalTxNum c) = 3"
proof -
  define bs where "bs = [sampleBusy 2, sampleBusy 0, sampleReport 0 7, sampleBusy 2]"
  have n: "newMeasureMod ''TxNumberCount_Broker'' = Some (M_TxNumCount_Broker NewTestTxNumCount :: rat measureMod)"
    by (simp add: newMeasureMod_def)
  have e: "\<forall>b \<in> set bs. 0 \<le> Epoch b" by (simp add: bs_def sampleBusy_def sampleReport_def)
  obtain mm' where m: "feed ratMeasures bs (M_TxNumCount_Broker NewTestTxNumCount) = Inr mm'"
    and t: "\<And>sel c. shownCounts mm' = Some (sel, c) \<Longrightarrow>
        epochID c = foldl max (-1) (map Epoch (filter (\<lambda>b. BlockBodyLength b \<noteq> 0) bs)) \<and>
        length (normalTxNum c) = nat (epochID c + 1) \<and>
        (\<forall>e < nat (epochID c + 1).
           normalTxNum c ! e = (\<Sum>b \<leftarrow> filter (\<lambda>b. BlockBodyLength b \<noteq> 0 \<and> Epoch b = int e) bs. int (length (InnerShardTxs b))))"
    using counts_are_sums [OF n e, of ratMeasures] by blast
  have "\<exists>c. mm' = M_TxNumCount_Broker c"
    using m by (auto simp: feed_def bs_def mapR_def UpdateMeasureRecord_def res_simps)
  then obtain c where c: "mm' = M_TxNumCount_Broker c" by blast
  then have "shownCounts mm' = Some (brokerSel, epochCounts.truncate c)" by (simp add: shownCounts_def)
  from t [OF this] have "epochID c = 2" "length (normalTxNum c) = 3" "normalTxNum c ! 2 = 6"
    by (simp_all add: epochCounts.truncate_def bs_def sampleBusy_def sampleReport_def sampleLoaded_def)
  with m c show ?thesis unfolding bs_def by blast
qed

end
