(* ===== verification/BrokerProps.thy ===== *)
theory BrokerProps
  imports InjectionProps CLPABrokerCommittee
begin

text \<open>
  Properties of the broker protocol: how a batch is split at the broker accounts, the two-step
  transfer through a broker, and what repeated reports do to it. They hold for any placement of
  accounts, so for the broker committee and for the CLPA-broker committee.
\<close>

section \<open>Splitting a batch\<close>

definition crossing :: "(address \<Rightarrow> u64 res) \<Rightarrow> Broker \<Rightarrow> Transaction \<Rightarrow> bool" where
  "crossing fetch b tx \<longleftrightarrow> fetch (Recipient tx) \<noteq> fetch (Sender tx) \<and> \<not> IsBroker b (Recipient tx) \<and> \<not> IsBroker b (Sender tx)"

text \<open>A transaction that is injected as it is, marked when one of its ends is a broker.\<close>

definition marked :: "Broker \<Rightarrow> Transaction \<Rightarrow> Transaction" where
  "marked b tx = (if IsBroker b (Recipient tx) \<or> IsBroker b (Sender tx)
     then tx\<lparr>HasBroker := True, SenderIsBroker := IsBroker b (Sender tx)\<rparr> else tx)"

definition rawOf :: "address \<Rightarrow> Transaction \<Rightarrow> BrokerRawMeg" where
  "rawOf a tx = \<lparr>rm_Tx = tx, rm_Broker = a, Hlock = 0, Snonce = 0, Bnonce = 0, rm_Signature = ''''\<rparr>"

definition type1Of :: "address \<Rightarrow> Transaction \<Rightarrow> BrokerType1Meg" where
  "type1Of a tx = \<lparr>t1_RawMeg = rawOf a tx, Hcurrent = 0, t1_Broker = a\<rparr>"

definition type2Of :: "address \<Rightarrow> Transaction \<Rightarrow> BrokerType2Meg" where
  "type2Of a tx = \<lparr>t2_RawMeg = rawOf a tx, t2_Broker = a\<rparr>"

lemma dealTx_fold:
  assumes a: "BrokerAddress b = a # as" and ok: "\<forall>tx \<in> set txs. isOk (fetch (Sender tx)) \<and> isOk (fetch (Recipient tx))"
  shows "foldR (dealTx fetch b) (itxs, megs) txs =
     Inr (itxs @ map (marked b) (filter (\<lambda>tx. \<not> crossing fetch b tx) txs), megs @ map (rawOf a) (filter (crossing fetch b) txs))"
  using ok
proof (induction txs arbitrary: itxs megs)
  case Nil
  then show ?case by simp
next
  case (Cons tx txs)
  then obtain s r where sr: "fetch (Sender tx) = Inr s" "fetch (Recipient tx) = Inr r" by (auto simp: isOk_iff)
  have "dealTx fetch b (itxs, megs) tx =
      Inr (if crossing fetch b tx then (itxs, megs @ [rawOf a tx]) else (itxs @ [marked b tx], megs))"
    by (auto simp: dealTx_def sr crossing_def marked_def rawOf_def a nthR_def)
  then show ?case using Cons by simp
qed

lemma tx1_fields:
  "Sender (mkTx1 h t (type1Of a tx)) = Sender tx" "Recipient (mkTx1 h t (type1Of a tx)) = a"
  "Value (mkTx1 h t (type1Of a tx)) = Value tx" "OriginalSender (mkTx1 h t (type1Of a tx)) = Sender tx"
  "FinalRecipient (mkTx1 h t (type1Of a tx)) = Recipient tx" "RawTxHash (mkTx1 h t (type1Of a tx)) = Some (TxHash tx)"
  by (simp_all add: mkTx1_def type1Of_def rawOf_def NewTransaction_fields)

lemma tx2_fields:
  "Sender (mkTx2 h t (type2Of a tx)) = a" "Recipient (mkTx2 h t (type2Of a tx)) = Recipient tx"
  "Value (mkTx2 h t (type2Of a tx)) = Value tx" "OriginalSender (mkTx2 h t (type2Of a tx)) = Sender tx"
  "FinalRecipient (mkTx2 h t (type2Of a tx)) = Recipient tx" "RawTxHash (mkTx2 h t (type2Of a tx)) = Some (TxHash tx)"
  by (simp_all add: mkTx2_def type2Of_def rawOf_def NewTransaction_fields)

lemma addTx1_fold:
  "\<exists>m'. foldl (addTx1 h clk) (m, ts) megs = (m', ts @ map (\<lambda>(i, meg). mkTx1 h (clk i) meg) (enumerate (length ts) megs)) \<and>
     broker m' = broker m \<and> brokerConfirm2Pool m' = brokerConfirm2Pool m \<and>
     dom (brokerConfirm1Pool m') = dom (brokerConfirm1Pool m) \<union>
       TxHash ` set (map (\<lambda>(i, meg). mkTx1 h (clk i) meg) (enumerate (length ts) megs))"
proof (induction megs arbitrary: m ts)
  case Nil
  then show ?case by simp
next
  case (Cons meg megs)
  let ?tx = "mkTx1 h (clk (length ts)) meg"
  define m1 where "m1 = m\<lparr>brokerConfirm1Pool := (brokerConfirm1Pool m)(TxHash ?tx \<mapsto> \<lparr>Tx1Hash = TxHash ?tx, c1_RawMeg = t1_RawMeg meg\<rparr>)\<rparr>"
  have "addTx1 h clk (m, ts) meg = (m1, ts @ [?tx])" by (simp add: addTx1_def m1_def Let_def)
  moreover have "broker m1 = broker m" "brokerConfirm2Pool m1 = brokerConfirm2Pool m"
    "dom (brokerConfirm1Pool m1) = insert (TxHash ?tx) (dom (brokerConfirm1Pool m))"
    by (simp_all add: m1_def)
  ultimately show ?case using Cons.IH [of m1 "ts @ [?tx]"] by auto
qed

lemma rawMegs_fold:
  "foldl (\<lambda>m meg. onBroker (\<lambda>b. b\<lparr>BrokerRawMegs := (BrokerRawMegs b)(dg meg \<mapsto> meg)\<rparr>) m) m megs =
     onBroker (\<lambda>b. b\<lparr>BrokerRawMegs := foldl (\<lambda>R meg. R(dg meg \<mapsto> meg)) (BrokerRawMegs b) megs\<rparr>) m"
  by (induction megs arbitrary: m) (simp_all add: onBroker_def)

lemma brokerDest_sender: "\<not> IsBroker b (Sender tx) \<Longrightarrow> brokerDest fetch b tx = fetch (Sender tx)"
  by (cases "fetch (Sender tx)") (simp_all add: brokerDest_def)

lemma IsBroker_first: "BrokerAddress b = a # as \<Longrightarrow> IsBroker b a"
  by (simp add: IsBroker_def)

lemma IsBroker_cong: "BrokerAddress b = BrokerAddress b' \<Longrightarrow> IsBroker b = IsBroker b'"
  by (simp add: IsBroker_def fun_eq_iff)

lemma filter_cong_set: "(\<And>x. x \<in> set xs \<Longrightarrow> P x = Q x) \<Longrightarrow> filter P xs = filter Q xs"
  by (rule filter_cong) simp_all

text \<open>The first halves of the split transactions, with the clock readings at which they are made.\<close>

definition firstHalves :: "(Transaction \<Rightarrow> bytes) \<Rightarrow> (nat \<Rightarrow> time) \<Rightarrow> address \<Rightarrow> Transaction list \<Rightarrow> Transaction list" where
  "firstHalves h clk a txs = map (\<lambda>(i, tx). mkTx1 h (clk i) (type1Of a tx)) (enumerate 0 txs)"

lemma firstHalves_fields:
  "map Sender (firstHalves h clk a txs) = map Sender txs" "map Value (firstHalves h clk a txs) = map Value txs"
  "map FinalRecipient (firstHalves h clk a txs) = map Recipient txs"
  "map RawTxHash (firstHalves h clk a txs) = map (\<lambda>tx. Some (TxHash tx)) txs" "\<forall>t \<in> set (firstHalves h clk a txs). Recipient t = a"
  by (auto simp: firstHalves_def tx1_fields nth_enumerate_eq intro!: nth_equalityI)

lemma rawMag_sends:
  assumes speed: "0 < InjectSpeed cfg" and shards: "0 \<le> ShardNum cfg" "ShardNum cfg < 2 ^ 64"
    and ok: "\<forall>tx \<in> set txs. isOk (fetch (Sender tx)) \<and> \<not> IsBroker (broker m) (Sender tx)"
  shows "\<exists>m' os. handleBrokerRawMag E dg cfg tbl fetch clk (map (rawOf a) txs) m = Inr (m', os) \<and>
     (\<forall>sid. int (unat sid) < ShardNum cfg \<longrightarrow>
        toShard sid os = filter (\<lambda>t. fetch (Sender t) = Inr sid) (firstHalves (hashTx E) clk a txs)) \<and>
     (\<forall>t \<in> set (firstHalves (hashTx E) clk a txs). brokerConfirm1Pool m' (TxHash t) \<noteq> None)"
proof -
  define m1 where "m1 = onBroker (\<lambda>b. b\<lparr>BrokerRawMegs := foldl (\<lambda>R meg. R(dg meg \<mapsto> meg)) (BrokerRawMegs b) (map (rawOf a) txs)\<rparr>) m"
  have t1: "map (\<lambda>meg. \<lparr>t1_RawMeg = meg, Hcurrent = 0, t1_Broker = rm_Broker meg\<rparr>) (map (rawOf a) txs) = map (type1Of a) txs"
    by (simp add: type1Of_def rawOf_def)
  have en: "map (\<lambda>(i, meg). mkTx1 h (clk i) meg) (enumerate 0 (map (type1Of a) txs)) = firstHalves h clk a txs" for h
    by (rule nth_equalityI) (simp_all add: firstHalves_def nth_enumerate_eq)
  obtain m' where m': "foldl (addTx1 (hashTx E) clk) (m1, []) (map (type1Of a) txs) = (m', firstHalves (hashTx E) clk a txs)"
    "broker m' = broker m1"
    and dom: "dom (brokerConfirm1Pool m') = dom (brokerConfirm1Pool m1) \<union> TxHash ` set (firstHalves (hashTx E) clk a txs)"
    using addTx1_fold [of "hashTx E" clk m1 "[]" "map (type1Of a) txs"] unfolding list.size(3) en append_Nil by blast
  have pool: "\<forall>t \<in> set (firstHalves (hashTx E) clk a txs). brokerConfirm1Pool m' (TxHash t) \<noteq> None"
    using dom by (metis UnCI domIff image_eqI)
  have ba: "IsBroker (broker m1) = IsBroker (broker m)" by (rule IsBroker_cong) (simp add: m1_def onBroker_def)
  have mem: "Sender t \<in> Sender ` set txs" if "t \<in> set (firstHalves (hashTx E) clk a txs)" for t
    using that firstHalves_fields(1) [of "hashTx E" clk a txs] by (metis image_eqI image_set)
  have d: "brokerDest fetch (broker m') t = fetch (Sender t)" if "t \<in> set (firstHalves (hashTx E) clk a txs)" for t
    using mem [OF that] ok ba m'(2) by (intro brokerDest_sender) auto
  have all: "\<forall>t \<in> set (firstHalves (hashTx E) clk a txs). isOk (brokerDest fetch (broker m') t)"
    using d mem ok by force
  from txSendingBy_toShard [OF speed shards all, of tbl] obtain os where
    os: "txSendingBy cfg tbl (brokerDest fetch (broker m')) (firstHalves (hashTx E) clk a txs) = Inr os"
    "\<forall>sid. int (unat sid) < ShardNum cfg \<longrightarrow>
       toShard sid os = filter (\<lambda>t. brokerDest fetch (broker m') t = Inr sid) (firstHalves (hashTx E) clk a txs)"
    by blast
  have "handleBrokerRawMag E dg cfg tbl fetch clk (map (rawOf a) txs) m = Inr (m', os)"
    unfolding handleBrokerRawMag_def rawMegs_fold m1_def [symmetric] t1 Let_def handleBrokerType1Mes_def
    by (simp add: m'(1) broker_txSending_def os(1))
  moreover have "filter (\<lambda>t. brokerDest fetch (broker m') t = Inr sid) (firstHalves (hashTx E) clk a txs) =
      filter (\<lambda>t. fetch (Sender t) = Inr sid) (firstHalves (hashTx E) clk a txs)" for sid
    by (rule filter_cong_set) (simp add: d)
  ultimately show ?thesis using os(2) pool by auto
qed

text \<open>C17: A batch is split at the first broker account: the transactions between two shards with no broker at either end
  are held back, and for each of them, in order, the sender's shard is sent exactly one transaction that moves the
  same amount from the sender to the broker, noted for its confirmation; all the others are returned for direct
  injection, marked when one of their ends is a broker.\<close>

theorem broker_splits:
  assumes speed: "0 < InjectSpeed cfg" and shards: "0 \<le> ShardNum cfg" "ShardNum cfg < 2 ^ 64"
    and a: "BrokerAddress (broker m) = a # as"
    and ok: "\<forall>tx \<in> set txs. isOk (fetch (Sender tx)) \<and> isOk (fetch (Recipient tx))"
  shows "\<exists>m' os tx1s. dealTxByBroker E dg cfg tbl fetch clk txs m =
       Inr (map (marked (broker m)) (filter (\<lambda>tx. \<not> crossing fetch (broker m) tx) txs), m', os) \<and>
     map Sender tx1s = map Sender (filter (crossing fetch (broker m)) txs) \<and>
     map Value tx1s = map Value (filter (crossing fetch (broker m)) txs) \<and>
     map FinalRecipient tx1s = map Recipient (filter (crossing fetch (broker m)) txs) \<and>
     (\<forall>t \<in> set tx1s. Recipient t = a \<and> brokerConfirm1Pool m' (TxHash t) \<noteq> None) \<and>
     (\<forall>sid. int (unat sid) < ShardNum cfg \<longrightarrow> toShard sid os = filter (\<lambda>t. fetch (Sender t) = Inr sid) tx1s)"
proof -
  define cr where "cr = filter (crossing fetch (broker m)) txs"
  have f: "foldR (dealTx fetch (broker m)) ([], []) txs =
      Inr (map (marked (broker m)) (filter (\<lambda>tx. \<not> crossing fetch (broker m) tx) txs), map (rawOf a) cr)"
    using dealTx_fold [OF a ok, of "[]" "[]"] by (simp add: cr_def)
  note fields = firstHalves_fields [of "hashTx E" clk a cr]
  show ?thesis
  proof (cases "cr = []")
    case True
    then show ?thesis using f by (intro exI [of _ m] exI [of _ "[]"]) (simp add: dealTxByBroker_def cr_def toShard_def)
  next
    case False
    have "\<forall>tx \<in> set cr. isOk (fetch (Sender tx)) \<and> \<not> IsBroker (broker m) (Sender tx)"
      using ok by (auto simp: cr_def crossing_def)
    from rawMag_sends [OF speed shards this, of E dg tbl clk a] obtain m' os where
      "handleBrokerRawMag E dg cfg tbl fetch clk (map (rawOf a) cr) m = Inr (m', os)"
      "\<forall>sid. int (unat sid) < ShardNum cfg \<longrightarrow>
        toShard sid os = filter (\<lambda>t. fetch (Sender t) = Inr sid) (firstHalves (hashTx E) clk a cr)"
      "\<forall>t \<in> set (firstHalves (hashTx E) clk a cr). brokerConfirm1Pool m' (TxHash t) \<noteq> None"
      by blast
    then show ?thesis using False fields unfolding cr_def [symmetric]
      by (intro exI [of _ m'] exI [of _ os] exI [of _ "firstHalves (hashTx E) clk a cr"]) (simp add: dealTxByBroker_def f)
  qed
qed

section \<open>The second half\<close>

lemma brokerDest_broker: "IsBroker b (Sender tx) \<Longrightarrow> fetch (Sender tx) = Inr s \<Longrightarrow> brokerDest fetch b tx = fetch (Recipient tx)"
  by (simp add: brokerDest_def)

text \<open>What the report of one transaction does whose confirmation is noted and whose raw message is known.\<close>

lemma confirm_step:
  assumes speed: "0 < InjectSpeed cfg" and shards: "0 \<le> ShardNum cfg" "ShardNum cfg < 2 ^ 64"
    and a: "BrokerAddress (broker m) = a # as" and f: "fetch a = Inr sa" "fetch (Recipient tx) = Inr r"
    and p: "brokerConfirm1Pool m (TxHash tx1) = Some \<lparr>Tx1Hash = h1, c1_RawMeg = rawOf a tx\<rparr>"
    and raw: "BrokerRawMegs (broker m) (dg (rawOf a tx)) \<noteq> None"
  shows "\<exists>m' os. createConfirm E dg cfg tbl fetch clk [tx1] m = Inr (m', os) \<and>
     (\<forall>sid. int (unat sid) < ShardNum cfg \<longrightarrow>
        toShard sid os = (if sid = r then [mkTx2 (hashTx E) (clk 0) (type2Of a tx)] else [])) \<and>
     BrokerAddress (broker m') = BrokerAddress (broker m) \<and> BrokerRawMegs (broker m') = BrokerRawMegs (broker m) \<and>
     brokerConfirm1Pool m' = brokerConfirm1Pool m \<and>
     brokerConfirm2Pool m' (TxHash (mkTx2 (hashTx E) (clk 0) (type2Of a tx))) =
       Some \<lparr>Tx2Hash = TxHash (mkTx2 (hashTx E) (clk 0) (type2Of a tx)), c2_RawMeg = rawOf a tx\<rparr> \<and>
     (brokerConfirm2Pool m (TxHash tx1) = None \<longrightarrow>
        RawTx2BrokerTx (broker m') (TxHash tx) = RawTx2BrokerTx (broker m) (TxHash tx) @ [h1])"
proof -
  let ?tx2 = "mkTx2 (hashTx E) (clk 0) (type2Of a tx)"
  define m1 where "m1 = onBroker (noteBrokerTx (rawOf a tx) h1) m"
  define m2 where "m2 = m1\<lparr>brokerConfirm2Pool := (brokerConfirm2Pool m1)(TxHash ?tx2 \<mapsto> \<lparr>Tx2Hash = TxHash ?tx2, c2_RawMeg = rawOf a tx\<rparr>)\<rparr>"
  have m1: "BrokerAddress (broker m1) = a # as" "BrokerRawMegs (broker m1) = BrokerRawMegs (broker m)"
    "brokerConfirm1Pool m1 = brokerConfirm1Pool m" "brokerConfirm2Pool m1 = brokerConfirm2Pool m"
    "RawTx2BrokerTx (broker m1) (TxHash tx) = RawTx2BrokerTx (broker m) (TxHash tx) @ [h1]"
    by (simp_all add: m1_def onBroker_def noteBrokerTx_def a rawOf_def)
  have c: "foldR (confirm1 dg) (m, []) [\<lparr>Tx1Hash = h1, c1_RawMeg = rawOf a tx\<rparr>] = Inr (m1, [type2Of a tx])"
    using raw m1(1) by (simp add: confirm1_def Let_def m1_def nthR_def type2Of_def)
  have t2: "foldl (addTx2 (hashTx E) clk) (m1, []) [type2Of a tx] = (m2, [?tx2])"
    by (simp add: addTx2_def Let_def m2_def) (simp add: type2Of_def)
  have b2: "broker m2 = broker m1" by (simp add: m2_def)
  have d: "brokerDest fetch (broker m2) ?tx2 = Inr r"
    using brokerDest_broker [of "broker m2" ?tx2 fetch sa] IsBroker_first [OF m1(1)] f by (simp add: b2 tx2_fields)
  then have "\<forall>t \<in> set [?tx2]. isOk (brokerDest fetch (broker m2) t)" by simp
  from txSendingBy_toShard [OF speed shards this, of tbl] obtain os where
    os: "txSendingBy cfg tbl (brokerDest fetch (broker m2)) [?tx2] = Inr os"
    "\<forall>sid. int (unat sid) < ShardNum cfg \<longrightarrow> toShard sid os = filter (\<lambda>t. brokerDest fetch (broker m2) t = Inr sid) [?tx2]"
    by blast
  have h: "handleTx1ConfirmMag E dg cfg tbl fetch clk [\<lparr>Tx1Hash = h1, c1_RawMeg = rawOf a tx\<rparr>] m = Inr (m2, os)"
    unfolding handleTx1ConfirmMag_def c handleBrokerType2Mes_def by (simp add: t2 broker_txSending_def os(1) del: foldl_Cons)
  define m3 where "m3 = (case brokerConfirm2Pool m (TxHash tx1) of None \<Rightarrow> m2 | Some c2 \<Rightarrow> handleTx2ConfirmMag [c2] m2)"
  have run: "createConfirm E dg cfg tbl fetch clk [tx1] m = Inr (m3, os)"
    using h by (cases "brokerConfirm2Pool m (TxHash tx1)") (simp_all add: createConfirm_def Let_def List.map_filter_def p m3_def)
  have "BrokerAddress (broker m3) = a # as" "BrokerRawMegs (broker m3) = BrokerRawMegs (broker m)"
    "brokerConfirm1Pool m3 = brokerConfirm1Pool m" "brokerConfirm2Pool m3 = brokerConfirm2Pool m2"
    by (cases "brokerConfirm2Pool m (TxHash tx1)";
        simp add: m3_def m2_def m1 handleTx2ConfirmMag_def onBroker_def noteBrokerTx_def)+
  moreover have "brokerConfirm2Pool m (TxHash tx1) = None \<longrightarrow>
      RawTx2BrokerTx (broker m3) (TxHash tx) = RawTx2BrokerTx (broker m) (TxHash tx) @ [h1]"
    by (simp add: m3_def b2 m1(5))
  ultimately show ?thesis using run os(2) d by (auto simp: a m2_def)
qed

text \<open>C16: The two-step transfer through a broker. A transaction between two shards is split; when the first half is
  reported committed, the recipient's shard, and no other, is sent one transaction that moves the same amount from
  the broker to the recipient; when that is reported too, nothing more is sent and the broker knows the hashes
  of the two halves, in order, under the hash of the original transaction.\<close>

theorem broker_round:
  assumes speed: "0 < InjectSpeed cfg" and shards: "0 \<le> ShardNum cfg" "ShardNum cfg < 2 ^ 64"
    and a: "BrokerAddress (broker m) = a # as"
    and f: "fetch a = Inr sa" "fetch (Sender tx) = Inr s" "fetch (Recipient tx) = Inr r" and cross: "crossing fetch (broker m) tx"
    and tx1: "tx1 = mkTx1 (hashTx E) (clkA 0) (type1Of a tx)" and tx2: "tx2 = mkTx2 (hashTx E) (clkB 0) (type2Of a tx)"
    and fresh: "RawTx2BrokerTx (broker m) (TxHash tx) = []" "brokerConfirm2Pool m (TxHash tx1) = None"
      "brokerConfirm1Pool m (TxHash tx2) = None" "TxHash tx1 \<noteq> TxHash tx2"
  shows "\<exists>m1 os1 m2 os2 m3.
     dealTxByBroker E dg cfg tbl fetch clkA [tx] m = Inr ([], m1, os1) \<and>
     (\<forall>sid. int (unat sid) < ShardNum cfg \<longrightarrow> toShard sid os1 = (if sid = s then [tx1] else [])) \<and>
     createConfirm E dg cfg tbl fetch clkB [tx1] m1 = Inr (m2, os2) \<and>
     (\<forall>sid. int (unat sid) < ShardNum cfg \<longrightarrow> toShard sid os2 = (if sid = r then [tx2] else [])) \<and>
     createConfirm E dg cfg tbl fetch clkC [tx2] m2 = Inr (m3, []) \<and>
     RawTx2BrokerTx (broker m3) (TxHash tx) = [TxHash tx1, TxHash tx2] \<and>
     Sender tx1 = Sender tx \<and> Recipient tx1 = a \<and> Sender tx2 = a \<and> Recipient tx2 = Recipient tx \<and>
     Value tx1 = Value tx \<and> Value tx2 = Value tx"
proof -
  define mr where "mr = onBroker (\<lambda>b. b\<lparr>BrokerRawMegs := (BrokerRawMegs b)(dg (rawOf a tx) \<mapsto> rawOf a tx)\<rparr>) m"
  define m1 where "m1 = mr\<lparr>brokerConfirm1Pool := (brokerConfirm1Pool mr)(TxHash tx1 \<mapsto> \<lparr>Tx1Hash = TxHash tx1, c1_RawMeg = rawOf a tx\<rparr>)\<rparr>"
  have m1: "BrokerAddress (broker m1) = a # as" "brokerConfirm1Pool m1 (TxHash tx1) = Some \<lparr>Tx1Hash = TxHash tx1, c1_RawMeg = rawOf a tx\<rparr>"
    "BrokerRawMegs (broker m1) (dg (rawOf a tx)) \<noteq> None" "brokerConfirm2Pool m1 (TxHash tx1) = None"
    "RawTx2BrokerTx (broker m1) (TxHash tx) = []" "brokerConfirm1Pool m1 (TxHash tx2) = None"
    using fresh by (simp_all add: m1_def mr_def onBroker_def a)
  have ok: "\<forall>tx \<in> set [tx]. isOk (fetch (Sender tx)) \<and> isOk (fetch (Recipient tx))" by (simp add: f)
  have deal: "foldR (dealTx fetch (broker m)) ([], []) [tx] = Inr ([], [rawOf a tx])"
    using dealTx_fold [OF a ok, of "[]" "[]"] cross by simp
  have d: "brokerDest fetch (broker m1) tx1 = Inr s"
    using brokerDest_sender [of "broker m1" tx1 fetch] cross IsBroker_cong [of "broker m1" "broker m"] m1(1) a f
    by (simp add: crossing_def tx1 tx1_fields)
  then have "\<forall>t \<in> set [tx1]. isOk (brokerDest fetch (broker m1) t)" by simp
  from txSendingBy_toShard [OF speed shards this, of tbl] obtain os1 where
    os1: "txSendingBy cfg tbl (brokerDest fetch (broker m1)) [tx1] = Inr os1"
    "\<forall>sid. int (unat sid) < ShardNum cfg \<longrightarrow> toShard sid os1 = filter (\<lambda>t. brokerDest fetch (broker m1) t = Inr sid) [tx1]"
    by blast
  have t1: "\<lparr>t1_RawMeg = rawOf a tx, Hcurrent = 0, t1_Broker = rm_Broker (rawOf a tx)\<rparr> = type1Of a tx"
    by (simp add: type1Of_def rawOf_def)
  have add1: "addTx1 (hashTx E) clkA (mr, []) (type1Of a tx) = (m1, [tx1])"
    by (simp add: addTx1_def Let_def m1_def tx1) (simp add: type1Of_def)
  have one: "dealTxByBroker E dg cfg tbl fetch clkA [tx] m = Inr ([], m1, os1)"
    unfolding dealTxByBroker_def deal
    by (simp add: handleBrokerRawMag_def Let_def mr_def [symmetric] t1 handleBrokerType1Mes_def add1 broker_txSending_def os1(1))
  from confirm_step [where m = m1 and dg = dg and fetch = fetch and tx = tx, OF speed shards m1(1) f(1,3) m1(2,3), of E tbl clkB]
  obtain m2 os2 where two: "createConfirm E dg cfg tbl fetch clkB [tx1] m1 = Inr (m2, os2)"
    "\<forall>sid. int (unat sid) < ShardNum cfg \<longrightarrow> toShard sid os2 = (if sid = r then [tx2] else [])"
    "brokerConfirm1Pool m2 = brokerConfirm1Pool m1" "brokerConfirm2Pool m2 (TxHash tx2) = Some \<lparr>Tx2Hash = TxHash tx2, c2_RawMeg = rawOf a tx\<rparr>"
    "RawTx2BrokerTx (broker m2) (TxHash tx) = [TxHash tx1]"
    using m1(4,5) unfolding tx2 [symmetric] by auto
  have three: "createConfirm E dg cfg tbl fetch clkC [tx2] m2 = Inr (handleTx2ConfirmMag [\<lparr>Tx2Hash = TxHash tx2, c2_RawMeg = rawOf a tx\<rparr>] m2, [])"
    using two(3,4) m1(6) by (simp add: createConfirm_def Let_def List.map_filter_def)
  have "RawTx2BrokerTx (broker (handleTx2ConfirmMag [\<lparr>Tx2Hash = TxHash tx2, c2_RawMeg = rawOf a tx\<rparr>] m2)) (TxHash tx) = [TxHash tx1, TxHash tx2]"
    using two(5) by (simp add: handleTx2ConfirmMag_def onBroker_def noteBrokerTx_def rawOf_def)
  with one os1(2) d two(1,2) three show ?thesis
    by (intro exI [of _ m1] exI [of _ os1] exI [of _ m2] exI [of _ os2] exI) (auto simp: tx1 tx2 tx1_fields tx2_fields)
qed

section \<open>Repeated reports\<close>

text \<open>Reporting the same transaction again and again; every report is handled with its own clock.\<close>

definition reportAgain ::
  "('t, 'd, 's) env \<Rightarrow> (BrokerRawMeg \<Rightarrow> bytes) \<Rightarrow> params \<Rightarrow> ipTable \<Rightarrow> (address \<Rightarrow> u64 res) \<Rightarrow> Transaction \<Rightarrow>
   (nat \<Rightarrow> time) list \<Rightarrow> 'z brokerCommittee_scheme \<Rightarrow> ('z brokerCommittee_scheme \<times> outs) res" where
  "reportAgain E dg cfg tbl fetch tx1 clks m =
     foldR (\<lambda>(m, os) clk. bindR (createConfirm E dg cfg tbl fetch clk [tx1] m) (\<lambda>(m, os'). Inr (m, os @ os'))) (m, []) clks"

text \<open>C21: A confirmation is never used up: every report of the same first half makes the committee send another second half,
  so n reports of it make the broker pay the recipient n times for one transaction.\<close>

theorem repeated_reports_pay:
  assumes speed: "0 < InjectSpeed cfg" and shards: "0 \<le> ShardNum cfg" "ShardNum cfg < 2 ^ 64"
    and a: "BrokerAddress (broker m) = a # as" and f: "fetch a = Inr sa" "fetch (Recipient tx) = Inr r" "int (unat r) < ShardNum cfg"
    and p: "brokerConfirm1Pool m (TxHash tx1) = Some \<lparr>Tx1Hash = h1, c1_RawMeg = rawOf a tx\<rparr>"
    and raw: "BrokerRawMegs (broker m) (dg (rawOf a tx)) \<noteq> None"
  shows "\<exists>m' os. reportAgain E dg cfg tbl fetch tx1 clks m = Inr (m', os) \<and>
     length (toShard r os) = length clks \<and>
     (\<forall>t \<in> set (toShard r os). Sender t = a \<and> Recipient t = Recipient tx \<and> Value t = Value tx) \<and>
     sum_list (map Value (toShard r os)) = int (length clks) * Value tx"
proof -
  have "\<exists>m' os. reportAgain E dg cfg tbl fetch tx1 clks m = Inr (m', os) \<and>
      toShard r os = map (\<lambda>clk. mkTx2 (hashTx E) (clk 0) (type2Of a tx)) clks \<and>
      BrokerAddress (broker m') = BrokerAddress (broker m) \<and> BrokerRawMegs (broker m') = BrokerRawMegs (broker m) \<and>
      brokerConfirm1Pool m' = brokerConfirm1Pool m"
  proof (induction clks rule: rev_induct)
    case Nil
    then show ?case by (simp add: reportAgain_def toShard_def)
  next
    case (snoc clk clks)
    then obtain m1 os1 where 1: "reportAgain E dg cfg tbl fetch tx1 clks m = Inr (m1, os1)"
      "toShard r os1 = map (\<lambda>clk. mkTx2 (hashTx E) (clk 0) (type2Of a tx)) clks"
      "BrokerAddress (broker m1) = BrokerAddress (broker m)" "BrokerRawMegs (broker m1) = BrokerRawMegs (broker m)"
      "brokerConfirm1Pool m1 = brokerConfirm1Pool m"
      by blast
    from confirm_step [where m = m1 and dg = dg and fetch = fetch and tx = tx, OF speed shards 1(3) [unfolded a] f(1,2)
        p [folded 1(5)] raw [folded 1(4)], of E tbl clk] f(3)
    obtain m2 os2 where "createConfirm E dg cfg tbl fetch clk [tx1] m1 = Inr (m2, os2)"
      "toShard r os2 = [mkTx2 (hashTx E) (clk 0) (type2Of a tx)]"
      "BrokerAddress (broker m2) = BrokerAddress (broker m1)" "BrokerRawMegs (broker m2) = BrokerRawMegs (broker m1)"
      "brokerConfirm1Pool m2 = brokerConfirm1Pool m1"
      by auto
    with 1 show ?case by (simp add: reportAgain_def foldR_snoc toShard_append)
  qed
  then show ?thesis by (fastforce simp: tx2_fields comp_def sum_list_triv)
qed

section \<open>A concrete committee with a broker\<close>

definition sampleBrokers :: brokerCommittee where
  "sampleBrokers = NewBrokerCommitteeMod [''000000000000000b'', ''000000000000000c''] 2 9 2"

definition sampleSplit :: Transaction where
  "sampleSplit = sampleTx ''00000000000000a1'' ''00000000000000a2'' 0"

lemma sampleBrokers_eq:
  "BrokerAddress (broker sampleBrokers) = ''000000000000000b'' # [''000000000000000c'']"
  "RawTx2BrokerTx (broker sampleBrokers) = (\<lambda>_. [])" "brokerConfirm1Pool sampleBrokers = Map.empty"
  "brokerConfirm2Pool sampleBrokers = Map.empty" "BrokerRawMegs (broker sampleBrokers) = Map.empty"
  by (simp_all add: sampleBrokers_def NewBrokerCommitteeMod_def NewBroker_def)

lemma sample_speed: "0 < InjectSpeed sampleCfg" "0 \<le> ShardNum sampleCfg" "ShardNum sampleCfg < 2 ^ 64"
  by (simp_all add: sampleCfg_def)

lemma sample_shards:
  "staticShard sampleCfg ''000000000000000b'' = Inr 1"
  "staticShard sampleCfg (Sender sampleSplit) = Inr 1" "staticShard sampleCfg (Recipient sampleSplit) = Inr 0"
  by (simp_all add: sampleSplit_def sampleTx_def NewTransaction_fields staticShard_def Addr2Shard_alt last8_def ParseUint16_def
      hexDigit_def goRem_def sampleCfg_def)

lemma sample_crossing: "crossing (staticShard sampleCfg) (broker sampleBrokers) sampleSplit"
  unfolding crossing_def sample_shards
  by (simp add: IsBroker_def sampleBrokers_eq sampleSplit_def sampleTx_def NewTransaction_fields)

theorem broker_splits_witness:
  "\<exists>m' os tx1s. dealTxByBroker modelEnv rm_Broker sampleCfg [] (staticShard sampleCfg) (\<lambda>_. 5) [sampleSplit] sampleBrokers = Inr ([], m', os) \<and>
     map Sender tx1s = [Sender sampleSplit] \<and> map Value tx1s = [12] \<and> (\<forall>t \<in> set tx1s. Recipient t = ''000000000000000b'') \<and>
     toShard 1 os = tx1s"
proof -
  have ok: "\<forall>tx \<in> set [sampleSplit]. isOk (staticShard sampleCfg (Sender tx)) \<and> isOk (staticShard sampleCfg (Recipient tx))"
    by (simp add: sample_shards)
  have v: "Value sampleSplit = 12" by (simp add: sampleSplit_def sampleTx_def NewTransaction_fields)
  have n: "int (unat (1 :: u64)) < ShardNum sampleCfg" by (simp add: sampleCfg_def)
  have fl: "filter (crossing (staticShard sampleCfg) (broker sampleBrokers)) [sampleSplit] = [sampleSplit]"
    "filter (\<lambda>tx. \<not> crossing (staticShard sampleCfg) (broker sampleBrokers) tx) [sampleSplit] = []"
    by (simp_all add: sample_crossing)
  from broker_splits [where fetch = "staticShard sampleCfg", OF sample_speed sampleBrokers_eq(1) ok, of modelEnv rm_Broker "[]" "\<lambda>_. 5"]
  obtain m' os tx1s where
    "dealTxByBroker modelEnv rm_Broker sampleCfg [] (staticShard sampleCfg) (\<lambda>_. 5) [sampleSplit] sampleBrokers = Inr ([], m', os)"
    "map Sender tx1s = [Sender sampleSplit]" "map Value tx1s = [12]"
    "map FinalRecipient tx1s = [Recipient sampleSplit]"
    "\<forall>t \<in> set tx1s. Recipient t = ''000000000000000b'' \<and> brokerConfirm1Pool m' (TxHash t) \<noteq> None"
    "\<forall>sid. int (unat sid) < ShardNum sampleCfg \<longrightarrow> toShard sid os = filter (\<lambda>t. staticShard sampleCfg (Sender t) = Inr sid) tx1s"
    unfolding fl list.map v by (elim exE conjE)
  moreover have "filter (\<lambda>t. staticShard sampleCfg (Sender t) = Inr 1) tx1s = tx1s"
    using calculation(2) sample_shards(2) by (auto simp: filter_id_conv)
  ultimately show ?thesis using n by (intro exI [of _ m'] exI [of _ os] exI [of _ tx1s]) simp
qed

theorem broker_round_witness:
  "\<exists>m1 os1 m2 os2 m3 tx1 tx2. dealTxByBroker modelEnv rm_Broker sampleCfg [] (staticShard sampleCfg) (\<lambda>_. 5) [sampleSplit] sampleBrokers = Inr ([], m1, os1) \<and>
     toShard 1 os1 = [tx1] \<and> createConfirm modelEnv rm_Broker sampleCfg [] (staticShard sampleCfg) (\<lambda>_. 6) [tx1] m1 = Inr (m2, os2) \<and>
     toShard 0 os2 = [tx2] \<and> createConfirm modelEnv rm_Broker sampleCfg [] (staticShard sampleCfg) (\<lambda>_. 7) [tx2] m2 = Inr (m3, []) \<and>
     RawTx2BrokerTx (broker m3) (TxHash sampleSplit) = [TxHash tx1, TxHash tx2] \<and> Value tx1 = 12 \<and> Value tx2 = 12"
proof -
  let ?tx1 = "mkTx1 (hashTx modelEnv) ((\<lambda>_. 5) 0) (type1Of ''000000000000000b'' sampleSplit)"
  let ?tx2 = "mkTx2 (hashTx modelEnv) ((\<lambda>_. 6) 0) (type2Of ''000000000000000b'' sampleSplit)"
  have v: "Value sampleSplit = 12" by (simp add: sampleSplit_def sampleTx_def NewTransaction_fields)
  have n: "int (unat (1 :: u64)) < ShardNum sampleCfg" "int (unat (0 :: u64)) < ShardNum sampleCfg" by (simp_all add: sampleCfg_def)
  have h: "TxHash ?tx1 \<noteq> TxHash ?tx2"
    by (simp add: mkTx1_def mkTx2_def type1Of_def type2Of_def rawOf_def NewTransaction_def zeroTx_def sampleSplit_def sampleTx_def
        modelEnv_def)
  have fr: "RawTx2BrokerTx (broker sampleBrokers) (TxHash sampleSplit) = []" "brokerConfirm2Pool sampleBrokers (TxHash ?tx1) = None"
    "brokerConfirm1Pool sampleBrokers (TxHash ?tx2) = None"
    by (simp_all add: sampleBrokers_eq)
  from broker_round [where fetch = "staticShard sampleCfg" and clkA = "\<lambda>_. 5" and clkB = "\<lambda>_. 6",
      OF sample_speed sampleBrokers_eq(1) sample_shards sample_crossing refl refl fr h, of rm_Broker "[]" "\<lambda>_. 7"]
  obtain m1 os1 m2 os2 m3 where
    "dealTxByBroker modelEnv rm_Broker sampleCfg [] (staticShard sampleCfg) (\<lambda>_. 5) [sampleSplit] sampleBrokers = Inr ([], m1, os1)"
    "toShard 1 os1 = [?tx1]" "createConfirm modelEnv rm_Broker sampleCfg [] (staticShard sampleCfg) (\<lambda>_. 6) [?tx1] m1 = Inr (m2, os2)"
    "toShard 0 os2 = [?tx2]" "createConfirm modelEnv rm_Broker sampleCfg [] (staticShard sampleCfg) (\<lambda>_. 7) [?tx2] m2 = Inr (m3, [])"
    "RawTx2BrokerTx (broker m3) (TxHash sampleSplit) = [TxHash ?tx1, TxHash ?tx2]" "Value ?tx1 = 12" "Value ?tx2 = 12"
    using n by (auto simp: v)
  then show ?thesis by blast
qed

theorem repeated_reports_pay_witness:
  "\<exists>m' os. reportAgain modelEnv rm_Broker sampleCfg [] (staticShard sampleCfg) sampleSplit [\<lambda>_. 5, \<lambda>_. 6, \<lambda>_. 7]
       (sampleBrokers\<lparr>brokerConfirm1Pool := [TxHash sampleSplit \<mapsto> \<lparr>Tx1Hash = ''h'', c1_RawMeg = rawOf ''000000000000000b'' sampleSplit\<rparr>],
          broker := (broker sampleBrokers)\<lparr>BrokerRawMegs := [''000000000000000b'' \<mapsto> rawOf ''000000000000000b'' sampleSplit]\<rparr>\<rparr>) = Inr (m', os) \<and>
     sum_list (map Value (toShard 0 os)) = 36"
proof -
  define m where "m = sampleBrokers\<lparr>brokerConfirm1Pool := [TxHash sampleSplit \<mapsto> \<lparr>Tx1Hash = ''h'', c1_RawMeg = rawOf ''000000000000000b'' sampleSplit\<rparr>],
          broker := (broker sampleBrokers)\<lparr>BrokerRawMegs := [''000000000000000b'' \<mapsto> rawOf ''000000000000000b'' sampleSplit]\<rparr>\<rparr>"
  have h: "BrokerAddress (broker m) = ''000000000000000b'' # [''000000000000000c'']"
    "brokerConfirm1Pool m (TxHash sampleSplit) = Some \<lparr>Tx1Hash = ''h'', c1_RawMeg = rawOf ''000000000000000b'' sampleSplit\<rparr>"
    "BrokerRawMegs (broker m) (rm_Broker (rawOf ''000000000000000b'' sampleSplit)) \<noteq> None"
    by (simp_all add: m_def sampleBrokers_eq rawOf_def)
  have n: "int (unat (0 :: u64)) < ShardNum sampleCfg" by (simp add: sampleCfg_def)
  have v: "Value sampleSplit = 12" by (simp add: sampleSplit_def sampleTx_def NewTransaction_fields)
  from repeated_reports_pay [where fetch = "staticShard sampleCfg" and dg = rm_Broker and tx = sampleSplit,
      OF sample_speed h(1) sample_shards(1,3) n h(2,3), of modelEnv "[]" "[\<lambda>_. 5, \<lambda>_. 6, \<lambda>_. 7]"]
  show ?thesis unfolding m_def [symmetric] v by auto
qed

end
