(* ===== verification/CLPAProps.thy ===== *)
theory CLPAProps
  imports CLPA
begin

text \<open>
  Facts on the partition algorithms. A vector of counters is written \<open>tab n f\<close>; the
  counters have a closed form over the edges of the graph (\<open>touchW\<close>: the undirected edges
  with an end in a shard, \<open>crossT\<close>: those between two shards), which the full count
  computes in any iteration order and the incremental update maintains.
\<close>

section \<open>Vectors of counters\<close>

definition tab :: "int \<Rightarrow> (int \<Rightarrow> int) \<Rightarrow> int list" where
  "tab n f = map (\<lambda>j. f (int j)) [0..<nat n]"

lemma length_tab [simp]: "length (tab n f) = nat n"
  by (simp add: tab_def)

lemma tab_cong: "(\<And>j. 0 \<le> j \<Longrightarrow> j < n \<Longrightarrow> f j = h j) \<Longrightarrow> tab n f = tab n h"
  by (auto simp: tab_def)

lemma makeInts_tab: "0 \<le> n \<Longrightarrow> makeInts n = Inr (tab n (\<lambda>_. 0))"
  by (auto simp: makeInts_def tab_def map_replicate_const)

lemma nthI_tab: "0 \<le> k \<Longrightarrow> k < n \<Longrightarrow> nthI (tab n f) k = Inr (f k)"
  by (simp add: nthI_def tab_def nat_less_iff)

lemma incI_tab:
  assumes "0 \<le> k" and "k < n"
  shows "incI (tab n f) k d = Inr (tab n (\<lambda>j. f j + (if j = k then d else 0)))"
proof -
  have "(tab n f)[nat k := f k + d] = tab n (\<lambda>j. f j + (if j = k then d else 0))"
    using assms by (intro nth_equalityI) (auto simp: tab_def nth_list_update)
  then show ?thesis
    using assms by (simp add: incI_def nthI_tab) (simp add: updI_def)
qed

lemma sum_list_tab: "sum_list (tab n f) = (\<Sum>j \<in> {0..<n}. f j)"
proof -
  have "{0..<n} = int ` {0..<nat n}"
    by (cases "0 \<le> n") (auto simp: image_int_atLeastLessThan)
  then have "(\<Sum>j \<in> {0..<n}. f j) = (\<Sum>j \<in> {0..<nat n}. f (int j))"
    by (simp add: sum.reindex inj_on_def)
  then show ?thesis
    by (simp add: tab_def interv_sum_list_conv_sum_set_nat)
qed

lemma map2_tab: "map2 g (tab n f) (tab n h) = tab n (\<lambda>j. g (f j) (h j))"
  by (intro nth_equalityI) (auto simp: tab_def)

lemma goQuot_2: "0 \<le> a \<Longrightarrow> goQuot a 2 = a div 2"
  by (auto simp: goQuot_def sgn_if)

section \<open>The closed form\<close>

definition weight :: "Graph \<Rightarrow> Vertex \<Rightarrow> Vertex \<Rightarrow> int" where
  "weight g u w = int (count_list (adj g u) w)"

definition crossW :: "(Vertex \<Rightarrow> int) \<Rightarrow> Graph \<Rightarrow> int \<Rightarrow> int" where
  "crossW P g k = pairSum (\<lambda>u w. if P u \<noteq> P w \<and> P w = k then weight g u w else 0) (VertexSet g)"

definition innerW :: "(Vertex \<Rightarrow> int) \<Rightarrow> Graph \<Rightarrow> int \<Rightarrow> int" where
  "innerW P g k = pairSum (\<lambda>u w. if P u = P w \<and> P w = k then weight g u w else 0) (VertexSet g)"

definition touchW :: "(Vertex \<Rightarrow> int) \<Rightarrow> Graph \<Rightarrow> int \<Rightarrow> int" where
  "touchW P g k = crossW P g k + innerW P g k div 2"

definition crossT :: "(Vertex \<Rightarrow> int) \<Rightarrow> Graph \<Rightarrow> int" where
  "crossT P g = pairSum (\<lambda>u w. if P u \<noteq> P w then weight g u w else 0) (VertexSet g) div 2"

text \<open>The state with its edge counters recomputed.\<close>

definition counted :: "'f CLPAState \<Rightarrow> 'f CLPAState" where
  "counted cs =
     (let e = tab (cs_ShardNum cs) (touchW (pmOf cs) (NetGraph cs))
      in cs\<lparr>Edges2Shard := e, CrossShardEdgeNum := crossT (pmOf cs) (NetGraph cs), MinEdges2Shard := minScan e\<rparr>)"

definition inShards :: "'f CLPAState \<Rightarrow> bool" where
  "inShards cs \<longleftrightarrow> 0 \<le> cs_ShardNum cs \<and> (\<forall>v \<in> VertexSet (NetGraph cs). 0 \<le> pmOf cs v \<and> pmOf cs v < cs_ShardNum cs)"

lemma scan_fold:
  assumes "0 \<le> a" and "\<forall>b \<in> set bs. 0 \<le> b \<and> b < n"
  shows "foldR (\<lambda>ei u. scanEdge a ei u) (tab n f, tab n h) bs =
    Inr (tab n (\<lambda>j. f j + (\<Sum>b\<leftarrow>bs. if a \<noteq> b \<and> b = j then 1 else 0)),
         tab n (\<lambda>j. h j + (\<Sum>b\<leftarrow>bs. if a = b \<and> b = j then 1 else 0)))"
  using assms(2)
proof (induction bs arbitrary: f h)
  case Nil
  then show ?case by simp
next
  case (Cons b bs)
  have b: "0 \<le> b" "b < n" using Cons.prems by auto
  show ?case
  proof (cases "a = b")
    case True
    then have "scanEdge a (tab n f, tab n h) b = Inr (tab n f, tab n (\<lambda>j. h j + (if j = b then 1 else 0)))"
      using b by (simp add: scanEdge_def incI_tab)
    with Cons True show ?thesis
      by (auto intro!: tab_cong)
  next
    case False
    then have "scanEdge a (tab n f, tab n h) b = Inr (tab n (\<lambda>j. f j + (if j = b then 1 else 0)), tab n h)"
      using b by (simp add: scanEdge_def incI_tab)
    with Cons False show ?thesis
      by (auto intro!: tab_cong)
  qed
qed

lemma foldR_map: "foldR f s (map g xs) = foldR (\<lambda>s x. f s (g x)) s xs"
  by (induction xs arbitrary: s) auto

lemma scan_all:
  assumes "\<forall>v. set (adj (NetGraph cs) v) \<subseteq> VertexSet (NetGraph cs)" and "inShards cs"
    and "set ks \<subseteq> VertexSet (NetGraph cs)"
  defines "n \<equiv> cs_ShardNum cs" and "P \<equiv> pmOf cs" and "A \<equiv> adj (NetGraph cs)"
  shows "foldR (scanVertex cs) (tab n f, tab n h) ks =
    Inr (tab n (\<lambda>j. f j + (\<Sum>v\<leftarrow>ks. \<Sum>u\<leftarrow>A v. if P v \<noteq> P u \<and> P u = j then 1 else 0)),
         tab n (\<lambda>j. h j + (\<Sum>v\<leftarrow>ks. \<Sum>u\<leftarrow>A v. if P v = P u \<and> P u = j then 1 else 0)))"
  using assms(3)
proof (induction ks arbitrary: f h)
  case Nil
  then show ?case by simp
next
  case (Cons v ks)
  have "0 \<le> P v" using Cons.prems assms(2) by (auto simp: inShards_def P_def)
  moreover have "\<forall>b \<in> set (map P (A v)). 0 \<le> b \<and> b < n"
    using assms(1,2) by (auto simp: inShards_def P_def A_def n_def)
  ultimately have "scanVertex cs (tab n f, tab n h) v =
     Inr (tab n (\<lambda>j. f j + (\<Sum>u\<leftarrow>A v. if P v \<noteq> P u \<and> P u = j then 1 else 0)),
          tab n (\<lambda>j. h j + (\<Sum>u\<leftarrow>A v. if P v = P u \<and> P u = j then 1 else 0)))"
    using scan_fold [of "P v" "map P (A v)" n f h]
    by (simp add: scanVertex_def foldR_map comp_def P_def A_def)
  with Cons show ?case by (simp add: algebra_simps)
qed

lemma sum_keys:
  assumes "wfGraph g" and "iter_order ks (edgeKeys g)"
  shows "(\<Sum>v\<leftarrow>ks. \<Sum>u\<leftarrow>adj g v. if Q v u then (1::int) else 0) =
         pairSum (\<lambda>v u. if Q v u then weight g v u else 0) (VertexSet g)"
proof -
  have fin: "finite (VertexSet g)" using wfGraphD(1) [OF assms(1)] .
  have "(\<Sum>u\<leftarrow>adj g v. if Q v u then (1::int) else 0) = (\<Sum>u \<in> VertexSet g. if Q v u then weight g v u else 0)" for v
  proof -
    have "(\<Sum>u\<leftarrow>adj g v. if Q v u then (1::int) else 0) =
        (\<Sum>u \<in> VertexSet g. int (count_list (adj g v) u) * (if Q v u then 1 else 0))"
      by (rule sum_list_adj [OF fin wfGraphD(3) [OF assms(1)]])
    also have "\<dots> = (\<Sum>u \<in> VertexSet g. if Q v u then weight g v u else 0)"
      by (rule sum.cong) (auto simp: weight_def)
    finally show ?thesis .
  qed
  moreover have "(\<Sum>v\<leftarrow>ks. \<Sum>u\<leftarrow>adj g v. if Q v u then (1::int) else 0) =
      (\<Sum>v \<in> edgeKeys g. \<Sum>u\<leftarrow>adj g v. if Q v u then (1::int) else 0)"
    using assms(2) by (auto simp: iter_order_def sum_list_distinct_conv_sum_set)
  moreover have "\<dots> = (\<Sum>v \<in> VertexSet g. \<Sum>u\<leftarrow>adj g v. if Q v u then (1::int) else 0)"
    using wfGraphD(2) [OF assms(1)] fin by (intro sum.mono_neutral_left) (auto simp: adj_nonkey)
  ultimately show ?thesis by (simp add: pairSum_def)
qed

lemma weight_nonneg: "0 \<le> weight g u w"
  by (simp add: weight_def)

lemma innerW_nonneg: "0 \<le> innerW P g k"
  by (auto simp: innerW_def pairSum_def weight_nonneg intro!: sum_nonneg)

lemma crossW_nonneg: "0 \<le> crossW P g k"
  by (auto simp: crossW_def pairSum_def weight_nonneg intro!: sum_nonneg)

lemma crossW_sum:
  assumes "finite (VertexSet g)" and "\<forall>v \<in> VertexSet g. 0 \<le> P v \<and> P v < n"
  shows "(\<Sum>j \<in> {0..<n}. crossW P g j) = pairSum (\<lambda>u w. if P u \<noteq> P w then weight g u w else 0) (VertexSet g)"
proof -
  have "(\<Sum>j \<in> {0..<n}. crossW P g j) =
      (\<Sum>u \<in> VertexSet g. \<Sum>w \<in> VertexSet g. \<Sum>j \<in> {0..<n}. if P u \<noteq> P w \<and> P w = j then weight g u w else 0)"
    unfolding crossW_def pairSum_def
    by (subst sum.swap, rule sum.cong [OF refl], subst sum.swap, rule refl)
  also have "\<dots> = (\<Sum>u \<in> VertexSet g. \<Sum>w \<in> VertexSet g. if P u \<noteq> P w then weight g u w else 0)"
  proof (intro sum.cong refl)
    fix u w
    assume "w \<in> VertexSet g"
    with assms(2) have "P w \<in> {0..<n}" by auto
    then show "(\<Sum>j \<in> {0..<n}. if P u \<noteq> P w \<and> P w = j then weight g u w else 0) =
        (if P u \<noteq> P w then weight g u w else 0)"
      by (cases "P u = P w") (simp_all add: sum.delta')
  qed
  finally show ?thesis by (simp add: pairSum_def)
qed

text \<open>The full count computes the closed form, whatever the iteration order.\<close>

lemma ComputeEdges2Shard_counted:
  assumes "wfGraph (NetGraph cs)" and "inShards cs" and "iter_order ks (edgeKeys (NetGraph cs))"
  shows "ComputeEdges2Shard ks cs = Inr (counted cs)"
proof -
  let ?n = "cs_ShardNum cs" and ?P = "pmOf cs" and ?g = "NetGraph cs"
  have n: "0 \<le> ?n" and P: "\<forall>v \<in> VertexSet ?g. 0 \<le> ?P v \<and> ?P v < ?n"
    using assms(2) by (simp_all add: inShards_def)
  have sub: "set ks \<subseteq> VertexSet ?g"
    using assms(1,3) wfGraphD(2) by (auto simp: iter_order_def)
  have "foldR (scanVertex cs) (tab ?n (\<lambda>_. 0), tab ?n (\<lambda>_. 0)) ks =
      Inr (tab ?n (crossW ?P ?g), tab ?n (innerW ?P ?g))"
    using scan_all [OF _ assms(2) sub, of "\<lambda>_. 0" "\<lambda>_. 0"] wfGraphD(3) [OF assms(1)]
    by (simp add: sum_keys [OF assms(1,3)] crossW_def [abs_def] innerW_def [abs_def])
  moreover have "sum_list (tab ?n (crossW ?P ?g)) = pairSum (\<lambda>u w. if ?P u \<noteq> ?P w then weight ?g u w else 0) (VertexSet ?g)"
    using crossW_sum [OF wfGraphD(1) [OF assms(1)] P] by (simp add: sum_list_tab)
  moreover have "0 \<le> pairSum (\<lambda>u w. if ?P u \<noteq> ?P w then weight ?g u w else 0) (VertexSet ?g)"
    by (auto simp: pairSum_def weight_nonneg intro!: sum_nonneg)
  ultimately show ?thesis
    by (simp add: ComputeEdges2Shard_def makeInts_tab [OF n] map2_tab goQuot_2 innerW_nonneg
        counted_def touchW_def [abs_def] crossT_def Let_def)
qed

section \<open>Moving one vertex\<close>

lemma recompute_fold:
  assumes "0 \<le> new" "new < n" "0 \<le> old" "old < n" "new \<noteq> old"
  shows "foldR (recomputeStep new old) (tab n f, x) bs =
    Inr (tab n (\<lambda>j. f j + (\<Sum>b\<leftarrow>bs. (if j = new \<and> b \<noteq> new then 1 else 0) - (if j = old \<and> b \<noteq> old then 1 else 0))),
         x + (\<Sum>b\<leftarrow>bs. (if b = old then 1 else 0) - (if b = new then 1 else 0)))"
proof (induction bs arbitrary: f x)
  case Nil
  then show ?case by simp
next
  case (Cons b bs)
  have "recomputeStep new old (tab n f, x) b =
      Inr (tab n (\<lambda>j. f j + ((if j = new \<and> b \<noteq> new then 1 else 0) - (if j = old \<and> b \<noteq> old then 1 else 0))),
           x + ((if b = old then 1 else 0) - (if b = new then 1 else 0)))"
    using assms by (auto simp: recomputeStep_def incI_tab intro!: tab_cong)
  with Cons.IH show ?case by (simp add: algebra_simps)
qed

lemma pairSum_row:
  "finite S \<Longrightarrow> v \<in> S \<Longrightarrow>
   pairSum f S = pairSum f (S - {v}) + f v v + (\<Sum>w \<in> S - {v}. f v w) + (\<Sum>u \<in> S - {v}. f u v)"
  using pairSum_insert [of "S - {v}" v f] by (simp add: insert_absorb)

text \<open>Taking the vertex v out of the sums: what its edges contribute.\<close>

lemma ends_cases:
  fixes a b j x :: int
  shows "(if a \<noteq> b \<and> b = j then x else 0) + (if b \<noteq> a \<and> a = j then x else 0) +
    (if a = b \<and> b = j then x else 0) = (if a = j \<or> b = j then x else 0)"
  by (cases "a = b"; cases "b = j"; cases "a = j") simp_all

lemma touchW_row:
  assumes wf: "wfGraph g" and lf: "loopFree g" and v: "v \<in> VertexSet g"
  shows "touchW P g j =
     pairSum (\<lambda>u w. if P u \<noteq> P w \<and> P w = j then weight g u w else 0) (VertexSet g - {v}) +
     pairSum (\<lambda>u w. if P u = P w \<and> P w = j then weight g u w else 0) (VertexSet g - {v}) div 2 +
     (\<Sum>w \<in> VertexSet g - {v}. if P v = j \<or> P w = j then weight g v w else 0)"
proof -
  let ?T = "VertexSet g - {v}"
  note row = pairSum_row [OF wfGraphD(1) [OF wf] v]
  have diag: "weight g v v = 0"
    using lf by (simp add: weight_def loopFree_def count_list_0_iff)
  have sym: "weight g u v = weight g v u" for u
    using wfGraphD(4) [OF wf] by (simp add: weight_def)
  define a where "a = (\<Sum>w \<in> ?T. if P v \<noteq> P w \<and> P w = j then weight g v w else 0)"
  define b where "b = (\<Sum>w \<in> ?T. if P w \<noteq> P v \<and> P v = j then weight g w v else 0)"
  define c where "c = (\<Sum>w \<in> ?T. if P v = P w \<and> P w = j then weight g v w else 0)"
  have "crossW P g j = pairSum (\<lambda>u w. if P u \<noteq> P w \<and> P w = j then weight g u w else 0) ?T + a + b"
    unfolding crossW_def a_def b_def by (subst row) simp
  moreover have "innerW P g j = pairSum (\<lambda>u w. if P u = P w \<and> P w = j then weight g u w else 0) ?T + 2 * c"
  proof -
    have "(\<Sum>u \<in> ?T. if P u = P v \<and> P v = j then weight g u v else 0) = c"
      unfolding c_def by (rule sum.cong) (auto simp: sym)
    then show ?thesis
      unfolding innerW_def by (subst row) (simp add: c_def diag)
  qed
  moreover have b': "b = (\<Sum>w \<in> ?T. if P w \<noteq> P v \<and> P v = j then weight g v w else 0)"
    unfolding b_def sym ..
  moreover have "a + b + c = (\<Sum>w \<in> ?T. if P v = j \<or> P w = j then weight g v w else 0)"
    unfolding a_def b' c_def sum.distrib [symmetric] ends_cases ..
  ultimately show ?thesis by (simp add: touchW_def)
qed

lemma crossT_row:
  assumes wf: "wfGraph g" and v: "v \<in> VertexSet g"
  shows "crossT P g =
     pairSum (\<lambda>u w. if P u \<noteq> P w then weight g u w else 0) (VertexSet g - {v}) div 2 +
     (\<Sum>w \<in> VertexSet g - {v}. if P v \<noteq> P w then weight g v w else 0)"
proof -
  let ?T = "VertexSet g - {v}"
  note row = pairSum_row [OF wfGraphD(1) [OF wf] v]
  have "(\<Sum>u \<in> ?T. if P u \<noteq> P v then weight g u v else 0) = (\<Sum>w \<in> ?T. if P v \<noteq> P w then weight g v w else 0)"
    by (rule sum.cong) (auto simp: weight_def wfGraphD(4) [OF wf])
  then show ?thesis
    unfolding crossT_def by (subst row) simp
qed

lemma adj_sum:
  assumes wf: "wfGraph g" and lf: "loopFree g"
  shows "(\<Sum>u\<leftarrow>adj g v. f u) = (\<Sum>w \<in> VertexSet g - {v}. weight g v w * f w)"
proof -
  have "(\<Sum>u\<leftarrow>adj g v. f u) = (\<Sum>w \<in> VertexSet g. weight g v w * f w)"
    unfolding weight_def by (rule sum_list_adj [OF wfGraphD(1,3) [OF wf]])
  also have "\<dots> = (\<Sum>w \<in> VertexSet g - {v}. weight g v w * f w)"
    using lf wfGraphD(1) [OF wf]
    by (intro sum.mono_neutral_right) (auto simp: weight_def loopFree_def count_list_0_iff)
  finally show ?thesis .
qed

lemma pairSum_cong:
  "(\<And>u w. u \<in> S \<Longrightarrow> w \<in> S \<Longrightarrow> f u w = h u w) \<Longrightarrow> pairSum f S = pairSum h S"
  unfolding pairSum_def by (intro sum.cong) auto

lemma touchW_move:
  assumes wf: "wfGraph g" and lf: "loopFree g" and v: "v \<in> VertexSet g" and ne: "new \<noteq> P v"
  shows "touchW (P(v := new)) g j = touchW P g j +
    (\<Sum>u\<leftarrow>adj g v. (if j = new \<and> P u \<noteq> new then 1 else 0) - (if j = P v \<and> P u \<noteq> P v then 1 else 0))"
proof -
  let ?T = "VertexSet g - {v}" and ?Q = "P(v := new)"
  have X: "pairSum (\<lambda>u w. if ?Q u \<noteq> ?Q w \<and> ?Q w = j then weight g u w else 0) ?T =
      pairSum (\<lambda>u w. if P u \<noteq> P w \<and> P w = j then weight g u w else 0) ?T"
    by (rule pairSum_cong) auto
  have I: "pairSum (\<lambda>u w. if ?Q u = ?Q w \<and> ?Q w = j then weight g u w else 0) ?T =
      pairSum (\<lambda>u w. if P u = P w \<and> P w = j then weight g u w else 0) ?T"
    by (rule pairSum_cong) auto
  have "(\<Sum>w \<in> ?T. if ?Q v = j \<or> ?Q w = j then weight g v w else 0) =
      (\<Sum>w \<in> ?T. if P v = j \<or> P w = j then weight g v w else 0) +
      (\<Sum>w \<in> ?T. weight g v w * ((if j = new \<and> P w \<noteq> new then 1 else 0) - (if j = P v \<and> P w \<noteq> P v then 1 else 0)))"
    unfolding sum.distrib [symmetric] using ne by (intro sum.cong) auto
  then show ?thesis
    by (simp only: touchW_row [OF wf lf v] X I adj_sum [OF wf lf])
qed

lemma crossT_move:
  assumes wf: "wfGraph g" and lf: "loopFree g" and v: "v \<in> VertexSet g" and ne: "new \<noteq> P v"
  shows "crossT (P(v := new)) g = crossT P g +
    (\<Sum>u\<leftarrow>adj g v. (if P u = P v then 1 else 0) - (if P u = new then 1 else 0))"
proof -
  let ?T = "VertexSet g - {v}" and ?Q = "P(v := new)"
  have X: "pairSum (\<lambda>u w. if ?Q u \<noteq> ?Q w then weight g u w else 0) ?T =
      pairSum (\<lambda>u w. if P u \<noteq> P w then weight g u w else 0) ?T"
    by (rule pairSum_cong) auto
  have "(\<Sum>w \<in> ?T. if ?Q v \<noteq> ?Q w then weight g v w else 0) =
      (\<Sum>w \<in> ?T. if P v \<noteq> P w then weight g v w else 0) +
      (\<Sum>w \<in> ?T. weight g v w * ((if P w = P v then 1 else 0) - (if P w = new then 1 else 0)))"
    unfolding sum.distrib [symmetric] using ne by (intro sum.cong) auto
  then show ?thesis
    by (simp only: crossT_row [OF wf v] X adj_sum [OF wf lf])
qed

text \<open>The state after v is moved to \<open>new\<close>, before the counters are brought up to date.\<close>

definition reassign :: "Vertex \<Rightarrow> int \<Rightarrow> 'f CLPAState \<Rightarrow> 'f CLPAState" where
  "reassign v new cs = cs\<lparr>cs_PartitionMap := (cs_PartitionMap cs)(v \<mapsto> new)\<rparr>"

lemma pmOf_reassign: "pmOf (reassign v new cs) = (pmOf cs)(v := new)"
  by (simp add: pmOf_def reassign_def fun_eq_iff)

lemma reassign_fields [simp]:
  "NetGraph (reassign v new cs) = NetGraph cs" "cs_ShardNum (reassign v new cs) = cs_ShardNum cs"
  "VertexsNumInShard (reassign v new cs) = VertexsNumInShard cs" "MaxIterations (reassign v new cs) = MaxIterations cs"
  "Edges2Shard (reassign v new cs) = Edges2Shard cs" "CrossShardEdgeNum (reassign v new cs) = CrossShardEdgeNum cs"
  by (simp_all add: reassign_def)

lemma counted_fields [simp]:
  "NetGraph (counted cs) = NetGraph cs" "cs_ShardNum (counted cs) = cs_ShardNum cs"
  "pmOf (counted cs) = pmOf cs" "VertexsNumInShard (counted cs) = VertexsNumInShard cs"
  "MaxIterations (counted cs) = MaxIterations cs" "cs_PartitionMap (counted cs) = cs_PartitionMap cs"
  by (simp_all add: counted_def Let_def pmOf_def fun_eq_iff)

lemma counted_idem: "counted (counted cs) = counted cs"
  by (simp add: counted_def Let_def pmOf_def [abs_def])

lemma counted_iff:
  "counted cs = cs \<longleftrightarrow>
     Edges2Shard cs = tab (cs_ShardNum cs) (touchW (pmOf cs) (NetGraph cs)) \<and>
     CrossShardEdgeNum cs = crossT (pmOf cs) (NetGraph cs) \<and> MinEdges2Shard cs = minScan (Edges2Shard cs)"
  by (cases cs) (auto simp: counted_def Let_def)

lemma changeShardRecompute_counted:
  assumes wf: "wfGraph (NetGraph cs)" and lf: "loopFree (NetGraph cs)" and ran: "inShards cs"
    and v: "v \<in> VertexSet (NetGraph cs)" and new: "0 \<le> new" "new < cs_ShardNum cs" "new \<noteq> pmOf cs v"
    and cnt: "counted cs = cs"
  shows "changeShardRecompute v (pmOf cs v) (reassign v new cs) = Inr (counted (reassign v new cs))"
proof -
  let ?g = "NetGraph cs" and ?n = "cs_ShardNum cs" and ?P = "pmOf cs" and ?old = "pmOf cs v"
  have old: "0 \<le> ?old" "?old < ?n" using ran v by (auto simp: inShards_def)
  have nv: "u \<in> set (adj ?g v) \<Longrightarrow> u \<noteq> v" for u using lf by (auto simp: loopFree_def)
  have "foldR (\<lambda>ec u. recomputeStep new ?old ec (((pmOf cs)(v := new)) u)) s (adj ?g v) =
        foldR (recomputeStep new ?old) s (map ?P (adj ?g v))" for s
    unfolding foldR_map by (rule foldR_cong_set) (simp add: nv)
  moreover have "Edges2Shard cs = tab ?n (touchW ?P ?g)" "CrossShardEdgeNum cs = crossT ?P ?g"
    by (subst cnt [symmetric], simp add: counted_def Let_def)+
  moreover have "touchW (?P(v := new)) ?g = (\<lambda>j. touchW ?P ?g j +
      (\<Sum>u\<leftarrow>adj ?g v. (if j = new \<and> ?P u \<noteq> new then 1 else 0) - (if j = ?old \<and> ?P u \<noteq> ?old then 1 else 0)))"
    by (rule ext, rule touchW_move) (fact wf lf v new(3))+
  ultimately have "foldR (\<lambda>ec u. recomputeStep new ?old ec (((pmOf cs)(v := new)) u))
       (Edges2Shard cs, CrossShardEdgeNum cs) (adj ?g v) =
     Inr (tab ?n (touchW (?P(v := new)) ?g), crossT (?P(v := new)) ?g)"
    using recompute_fold [OF new(1,2) old new(3)]
    by (simp add: comp_def
        crossT_move [where P = "pmOf cs", OF wf lf v new(3)])
  then show ?thesis
    by (simp add: changeShardRecompute_def pmOf_reassign counted_def Let_def)
qed

section \<open>Runs of the label propagation\<close>

definition countsOK :: "'f CLPAState \<Rightarrow> bool" where
  "countsOK cs \<longleftrightarrow>
     VertexsNumInShard cs = tab (cs_ShardNum cs) (\<lambda>s. int (card {v \<in> VertexSet (NetGraph cs). pmOf cs v = s}))"

text \<open>What a run has done to the state \<open>cs0\<close> it started from.\<close>

definition runInv :: "'f CLPAState \<Rightarrow> 'f clpaRun \<Rightarrow> bool" where
  "runInv cs0 run \<longleftrightarrow>
     (case run of (cs, res, thr) \<Rightarrow>
        NetGraph cs = NetGraph cs0 \<and> cs_ShardNum cs = cs_ShardNum cs0 \<and>
        inShards cs \<and> countsOK cs \<and> counted cs = cs \<and>
        (\<forall>v \<in> VertexSet (NetGraph cs0). res (Addr v) =
           (if res (Addr v) = None then None else Some (word_of_int (pmOf cs v)))) \<and>
        (\<forall>v. res (Addr v) = None \<longrightarrow> pmOf cs v = pmOf cs0 v) \<and>
        (\<forall>v. res (Addr v) \<noteq> None \<longrightarrow> v \<in> VertexSet (NetGraph cs0)) \<and>
        (\<forall>v \<in> VertexSet (NetGraph cs0). \<exists>w \<in> VertexSet (NetGraph cs0). pmOf cs w = pmOf cs0 v) \<and>
        (\<forall>a. 0 \<le> getOr 0 (thr a) \<and> getOr 0 (thr a) \<le> 50))"

lemma card_move:
  assumes "finite S" and "v \<in> S" and "P v \<noteq> new"
  shows "int (card {u \<in> S. (P(v := new)) u = s}) =
    int (card {u \<in> S. P u = s}) + (if s = P v then -1 else 0) + (if s = new then 1 else 0)"
proof -
  have ind: "int (card {u \<in> S. Q u = s}) = (\<Sum>u \<in> S. if Q u = s then 1 else 0)" for Q :: "'a \<Rightarrow> 'b"
    using assms(1) by (simp add: sum.If_cases Collect_conj_eq Int_commute)
  have "(\<Sum>u \<in> S. if (P(v := new)) u = s then (1::int) else 0) =
      (if new = s then 1 else 0) + (\<Sum>u \<in> S - {v}. if P u = s then 1 else 0)"
    using assms(1,2) by (simp add: sum.remove [of S v])
  moreover have "(\<Sum>u \<in> S. if P u = s then (1::int) else 0) =
      (if P v = s then 1 else 0) + (\<Sum>u \<in> S - {v}. if P u = s then 1 else 0)"
    using assms(1,2) by (simp add: sum.remove [of S v])
  ultimately show ?thesis
    using assms(3) unfolding ind by auto
qed

lemma score_total:
  assumes "inShards cs" and "countsOK cs" and "counted cs = cs" and "u \<in> VertexSet (NetGraph cs)"
  shows "\<exists>sc. getShard_score F cs v (pmOf cs u) = Inr sc"
proof -
  have "Edges2Shard cs = tab (cs_ShardNum cs) (touchW (pmOf cs) (NetGraph cs))"
    by (subst assms(3) [symmetric], simp add: counted_def Let_def)
  moreover have "0 \<le> pmOf cs u" "pmOf cs u < cs_ShardNum cs"
    using assms(1,4) by (auto simp: inShards_def)
  ultimately show ?thesis by (simp add: getShard_score_def nthI_tab Let_def)
qed

lemma bestShard_total:
  fixes F :: "'f f64"
  assumes "wfGraph (NetGraph cs)" and "inShards cs" and "countsOK cs" and "counted cs = cs"
    and "v \<in> VertexSet (NetGraph cs)"
  shows "\<exists>s. bestShard F cs v = Inr s \<and> (\<exists>u \<in> VertexSet (NetGraph cs). s = pmOf cs u)"
proof -
  have "\<exists>t. foldR (scoreStep F cs v) ([], f_ofInt F (-9999), pmOf cs v) (adj (NetGraph cs) v) = Inr t \<and>
      (\<exists>u \<in> VertexSet (NetGraph cs). snd (snd t) = pmOf cs u)"
  proof (rule foldR_total [where I = "\<lambda>t. \<exists>u \<in> VertexSet (NetGraph cs). snd (snd t) = pmOf cs u"])
    show "\<exists>u \<in> VertexSet (NetGraph cs). snd (snd ([], f_ofInt F (-9999), pmOf cs v)) = pmOf cs u"
      using assms(5) by auto
  next
    fix s :: "int list \<times> 'f \<times> int" and x
    assume x: "x \<in> set (adj (NetGraph cs) v)"
      and I: "\<exists>u \<in> VertexSet (NetGraph cs). snd (snd s) = pmOf cs u"
    have "x \<in> VertexSet (NetGraph cs)" using x wfGraphD(3) [OF assms(1)] by auto
    then show "\<exists>s'. scoreStep F cs v s x = Inr s' \<and> (\<exists>u \<in> VertexSet (NetGraph cs). snd (snd s') = pmOf cs u)"
      using I score_total [OF assms(2-4), of x F v] by (cases s) (auto simp: scoreStep_def Let_def)
  qed
  then show ?thesis by (auto simp: bestShard_def)
qed

lemma moveVertex_inv:
  assumes wf: "wfGraph (NetGraph cs0)" and lf: "loopFree (NetGraph cs0)"
    and inv: "runInv cs0 (cs, res, thr)" and v: "v \<in> VertexSet (NetGraph cs0)"
    and new: "new \<noteq> pmOf cs v" "u \<in> VertexSet (NetGraph cs0)" "new = pmOf cs u"
    and more: "1 < int (card {w \<in> VertexSet (NetGraph cs0). pmOf cs w = pmOf cs v})"
    and thr: "getOr 0 (thr (Addr v)) < 50"
  shows "\<exists>run'. moveVertex v new (cs, res, thr) = Inr run' \<and> runInv cs0 run'"
proof -
  let ?S = "VertexSet (NetGraph cs0)" and ?n = "cs_ShardNum cs0" and ?old = "pmOf cs v"
  let ?cs = "reassign v new cs"
  have i: "NetGraph cs = NetGraph cs0" "cs_ShardNum cs = ?n" "inShards cs" "countsOK cs" "counted cs = cs"
    using inv by (simp_all add: runInv_def)
  have ran: "0 \<le> new" "new < ?n" "0 \<le> ?old" "?old < ?n" "0 \<le> ?n"
    using i new v by (auto simp: inShards_def)
  define ns where "ns = tab ?n (\<lambda>s. int (card {w \<in> ?S. ((pmOf cs)(v := new)) w = s}))"
  have ns0: "VertexsNumInShard cs = tab ?n (\<lambda>s. int (card {w \<in> ?S. pmOf cs w = s}))"
    using i by (simp add: countsOK_def)
  have "bindR (incI (VertexsNumInShard cs) ?old (-1)) (\<lambda>ns. incI ns new 1) = Inr ns"
    unfolding ns0 ns_def using ran card_move [OF wfGraphD(1) [OF wf] v, of "pmOf cs" new] new(1)
    by (simp add: incI_tab del: fun_upd_apply)
  then have c: "\<exists>m. incI (VertexsNumInShard cs) ?old (-1) = Inr m \<and> incI m new 1 = Inr ns"
    by (simp add: res_simps)
  define cs1 where "cs1 = cs\<lparr>VertexsNumInShard := ns\<rparr>"
  have p1: "pmOf cs1 = pmOf cs" by (simp add: cs1_def pmOf_def fun_eq_iff)
  have c1: "counted cs1 = cs1"
    using i(5) p1 by (simp add: counted_iff) (simp add: cs1_def)
  have "changeShardRecompute v (pmOf cs1 v) (reassign v new cs1) = Inr (counted (reassign v new cs1))"
    using wf lf i ran v new c1 p1
    by (intro changeShardRecompute_counted) (auto simp: cs1_def inShards_def pmOf_def)
  moreover have "reassign v new cs1 = ?cs\<lparr>VertexsNumInShard := ns\<rparr>"
    by (simp add: cs1_def reassign_def)
  ultimately have run: "moveVertex v new (cs, res, thr) =
      Inr (counted (reassign v new cs1), res(Addr v \<mapsto> word_of_int new), thr(Addr v \<mapsto> getOr 0 (thr (Addr v)) + 1))"
    using c p1 by (auto simp: moveVertex_def Let_def reassign_def)
  have P': "pmOf (reassign v new cs1) = (pmOf cs)(v := new)"
    by (simp add: pmOf_reassign p1)
  have cf: "NetGraph cs1 = NetGraph cs0" "cs_ShardNum cs1 = ?n" "VertexsNumInShard cs1 = ns"
    using i by (simp_all add: cs1_def)
  have a: "Addr w = Addr v \<longleftrightarrow> w = v" for w by (cases w; cases v) simp
  have stay: "\<exists>w \<in> ?S. ((pmOf cs)(v := new)) w = pmOf cs0 x" if "x \<in> ?S" for x
  proof -
    from that inv obtain w where w: "w \<in> ?S" "pmOf cs w = pmOf cs0 x" by (auto simp: runInv_def)
    show ?thesis
    proof (cases "w = v")
      case False
      with w show ?thesis by auto
    next
      case True
      have "{w \<in> ?S. pmOf cs w = ?old} \<noteq> {v}" using more by auto
      then obtain y where "y \<in> ?S" "pmOf cs y = ?old" "y \<noteq> v" using v by blast
      with w True show ?thesis by auto
    qed
  qed
  have "runInv cs0 (counted (reassign v new cs1), res(Addr v \<mapsto> word_of_int new), thr(Addr v \<mapsto> getOr 0 (thr (Addr v)) + 1))"
    unfolding runInv_def prod.case
  proof (intro conjI)
    show "NetGraph (counted (reassign v new cs1)) = NetGraph cs0"
      "cs_ShardNum (counted (reassign v new cs1)) = cs_ShardNum cs0"
      by (simp_all add: cf)
    show "inShards (counted (reassign v new cs1))"
      using i ran by (auto simp: inShards_def P' cf)
    show "countsOK (counted (reassign v new cs1))"
      by (simp add: countsOK_def P' cf ns_def)
    show "counted (counted (reassign v new cs1)) = counted (reassign v new cs1)"
      by (rule counted_idem)
    show "\<forall>x. 0 \<le> getOr 0 ((thr(Addr v \<mapsto> getOr 0 (thr (Addr v)) + 1)) x) \<and>
        getOr 0 ((thr(Addr v \<mapsto> getOr 0 (thr (Addr v)) + 1)) x) \<le> 50"
      using inv thr by (auto simp: runInv_def)
    show "\<forall>x \<in> ?S. \<exists>w \<in> ?S. pmOf (counted (reassign v new cs1)) w = pmOf cs0 x"
      using stay P' by simp
  qed (use inv v in \<open>auto simp: runInv_def P' a\<close>)
  with run show ?thesis by blast
qed

lemma clpaVertex_inv:
  assumes wf: "wfGraph (NetGraph cs0)" and lf: "loopFree (NetGraph cs0)"
    and inv: "runInv cs0 run" and v: "v \<in> VertexSet (NetGraph cs0)"
  shows "\<exists>run'. clpaVertex F run v = Inr run' \<and> runInv cs0 run'"
proof -
  obtain cs res thr where r: "run = (cs, res, thr)" by (cases run) auto
  have i: "NetGraph cs = NetGraph cs0" "cs_ShardNum cs = cs_ShardNum cs0" "inShards cs" "countsOK cs" "counted cs = cs"
    using inv r by (simp_all add: runInv_def)
  obtain s u where s: "bestShard F cs v = Inr s" "u \<in> VertexSet (NetGraph cs0)" "s = pmOf cs u"
    using bestShard_total [of cs v F] wf i v by auto
  have "nthI (VertexsNumInShard cs) (pmOf cs v) = Inr (int (card {w \<in> VertexSet (NetGraph cs0). pmOf cs w = pmOf cs v}))"
    using i v by (simp add: countsOK_def inShards_def nthI_tab)
  then show ?thesis
    using r inv s moveVertex_inv [OF wf lf _ v, of cs res thr s u]
    by (auto simp: clpaVertex_def Let_def)
qed

lemma CLPA_run:
  assumes wf: "wfGraph (NetGraph cs)" and lf: "loopFree (NetGraph cs)"
    and ran: "inShards cs" and cnt: "countsOK cs"
    and ord: "\<forall>i. set (ord i) \<subseteq> VertexSet (NetGraph cs)"
  shows "\<exists>run. foldR (\<lambda>run i. foldR (clpaVertex F) run (ord i)) (counted cs, Map.empty, Map.empty) is = Inr run \<and>
     runInv (counted cs) run"
proof (rule foldR_total)
  show "runInv (counted cs) (counted cs, Map.empty, Map.empty)"
    using ran cnt by (auto simp: runInv_def inShards_def countsOK_def counted_idem)
next
  fix run i
  assume "runInv (counted cs) run"
  then show "\<exists>s'. foldR (clpaVertex F) run (ord i) = Inr s' \<and> runInv (counted cs) s'"
    using ord by (intro foldR_total clpaVertex_inv) (auto simp: wf lf)
qed

section \<open>States built from transactions\<close>

definition buildInv :: "int \<Rightarrow> 'f CLPAState \<Rightarrow> bool" where
  "buildInv sn0 cs \<longleftrightarrow>
     0 < sn0 \<and> cs_ShardNum cs = sn0 \<and> wfGraph (NetGraph cs) \<and> loopFree (NetGraph cs) \<and> countsOK cs \<and>
     (\<forall>v s. cs_PartitionMap cs v = Some s \<longrightarrow> 0 \<le> s \<and> s < sn0)"

lemma buildInv_inShards: "buildInv sn0 cs \<Longrightarrow> inShards cs"
  by (auto simp: buildInv_def inShards_def pmOf_def getOr_def split: option.splits)

lemma card_add:
  assumes "finite S" and "v \<notin> S"
  shows "int (card {u \<in> insert v S. P u = s}) = int (card {u \<in> S. P u = s}) + (if s = P v then 1 else 0)"
proof -
  have "{u \<in> insert v S. P u = s} = (if P v = s then insert v {u \<in> S. P u = s} else {u \<in> S. P u = s})"
    by auto
  with assms show ?thesis by simp
qed

lemma AddVertex_inv:
  assumes inv: "buildInv sn0 cs" and v: "v \<notin> VertexSet (NetGraph cs)" and run: "AddVertex sn0 v cs = Inr cs'"
  shows "buildInv sn0 cs' \<and> NetGraph cs' = gAddVertex v (NetGraph cs)"
proof -
  let ?S = "VertexSet (NetGraph cs)"
  obtain s where s: "cs_PartitionMap cs v = Some s \<or> (cs_PartitionMap cs v = None \<and> Addr2Shard sn0 (Addr v) = Inr s)"
    and rest: "bindR (incI (VertexsNumInShard cs) s 1) (\<lambda>ns.
        Inr (cs\<lparr>NetGraph := gAddVertex v (NetGraph cs), cs_PartitionMap := (cs_PartitionMap cs)(v \<mapsto> s),
                VertexsNumInShard := ns\<rparr>)) = Inr cs'"
    using run by (cases "cs_PartitionMap cs v") (auto simp: AddVertex_def Let_def pmOf_def res_simps)
  have ran: "0 \<le> s" "s < sn0"
    using s inv Addr2Shard_range [of sn0 "Addr v" s] by (auto simp: buildInv_def)
  have vs: "VertexsNumInShard cs = tab sn0 (\<lambda>k. int (card {u \<in> ?S. pmOf cs u = k}))"
    using inv by (simp add: buildInv_def countsOK_def)
  have fin: "finite ?S" using inv wfGraphD(1) by (auto simp: buildInv_def)
  define P where "P = (pmOf cs)(v := s)"
  have eq: "{u \<in> ?S. P u = k} = {u \<in> ?S. pmOf cs u = k}" for k using v by (auto simp: P_def)
  have "tab sn0 (\<lambda>k. int (card {u \<in> ?S. pmOf cs u = k}) + (if k = s then 1 else 0)) =
      tab sn0 (\<lambda>k. int (card {u \<in> insert v ?S. P u = k}))"
    using card_add [OF fin v, of P] by (intro tab_cong) (simp add: eq, simp add: P_def)
  with rest vs ran have cs': "cs' = cs\<lparr>NetGraph := gAddVertex v (NetGraph cs), cs_PartitionMap := (cs_PartitionMap cs)(v \<mapsto> s),
      VertexsNumInShard := tab sn0 (\<lambda>k. int (card {u \<in> insert v ?S. P u = k}))\<rparr>"
    by (simp add: incI_tab)
  have "pmOf cs' = P" by (simp add: cs' P_def pmOf_def fun_eq_iff)
  with inv ran show ?thesis
    by (auto simp: buildInv_def countsOK_def cs' wfGraph_gAddVertex loopFree_def)
qed

lemma AddEdge_inv:
  assumes inv: "buildInv sn0 cs" and uv: "u \<noteq> v" and run: "AddEdge sn0 u v cs = Inr cs'"
  shows "buildInv sn0 cs' \<and> NetGraph cs' = gAddEdge u v (NetGraph cs)"
proof -
  from run obtain c1 c2 where
    c1: "(if u \<notin> VertexSet (NetGraph cs) then AddVertex sn0 u cs else Inr cs) = Inr c1" and
    c2: "(if v \<notin> VertexSet (NetGraph c1) then AddVertex sn0 v c1 else Inr c1) = Inr c2" and
    cs': "cs' = c2\<lparr>NetGraph := gAddEdge u v (NetGraph c2)\<rparr>"
    by (auto simp: AddEdge_def res_simps)
  have i1: "buildInv sn0 c1" "NetGraph c1 = (if u \<notin> VertexSet (NetGraph cs) then gAddVertex u (NetGraph cs) else NetGraph cs)"
    using c1 inv AddVertex_inv [of sn0 cs u c1] by (auto split: if_splits)
  have i2: "buildInv sn0 c2" "NetGraph c2 = (if v \<notin> VertexSet (NetGraph c1) then gAddVertex v (NetGraph c1) else NetGraph c1)"
    using c2 i1 AddVertex_inv [of sn0 c1 v c2] by (auto split: if_splits)
  have uS: "u \<in> VertexSet (NetGraph c2)" "v \<in> VertexSet (NetGraph c2)"
    using i1 i2 by auto
  have g: "gAddEdge u v (NetGraph c2) = gAddEdge u v (NetGraph cs)"
    using i1(2) i2(2) by (auto simp: gAddEdge_def Let_def gAddVertex_def insert_absorb insert_commute)
  have "pmOf cs' = pmOf c2" by (simp add: cs' pmOf_def fun_eq_iff)
  moreover have "VertexSet (gAddEdge u v (NetGraph c2)) = VertexSet (NetGraph c2)"
    using uS by (auto simp: gAddEdge_fields)
  moreover have "wfGraph (gAddEdge u v (NetGraph c2))" "loopFree (gAddEdge u v (NetGraph c2))"
    using i2(1) uv by (simp_all add: buildInv_def wfGraph_gAddEdge loopFree_gAddEdge)
  ultimately have "buildInv sn0 cs'"
    using i2(1) by (auto simp: buildInv_def countsOK_def cs')
  then show ?thesis by (simp add: cs' g)
qed

text \<open>A state made from scratch by adding edges between distinct accounts.\<close>

definition addEdges :: "int \<Rightarrow> (address \<times> address) list \<Rightarrow> 'f CLPAState \<Rightarrow> 'f CLPAState res" where
  "addEdges sn0 es cs = foldR (\<lambda>cs e. AddEdge sn0 (Vertex (fst e)) (Vertex (snd e)) cs) cs es"

lemma addEdges_inv:
  assumes "buildInv sn0 cs" and "\<forall>e \<in> set es. fst e \<noteq> snd e" and "addEdges sn0 es cs = Inr cs'"
  shows "buildInv sn0 cs'"
proof -
  have "buildInv sn0 s'"
    if "e \<in> set es" "buildInv sn0 s" "AddEdge sn0 (Vertex (fst e)) (Vertex (snd e)) s = Inr s'" for s e s'
    using that assms(2) AddEdge_inv [of sn0 s "Vertex (fst e)" "Vertex (snd e)" s'] by auto
  then show ?thesis
    by (rule foldR_invariant [where I = "buildInv sn0", OF _ assms(1) assms(3) [unfolded addEdges_def]])
qed

lemma Init_inv:
  assumes "NetGraph cs0 = emptyGraph" and "0 < sn" and "Init_CLPAState wp mIter sn cs0 = Inr cs"
  shows "buildInv sn cs"
proof -
  have "cs = cs0\<lparr>WeightPenalty := wp, MaxIterations := mIter, cs_ShardNum := sn,
      VertexsNumInShard := tab sn (\<lambda>_. 0), cs_PartitionMap := Map.empty\<rparr>"
    using assms(2,3) by (simp add: Init_CLPAState_def makeInts_tab)
  then show ?thesis
    using assms(1,2) wfGraph_empty by (simp add: buildInv_def countsOK_def emptyGraph_def)
qed

section \<open>AERO\<close>

lemma move_counts:
  assumes "wfGraph (NetGraph cs)" and "inShards cs" and "countsOK cs" and "v \<in> VertexSet (NetGraph cs)"
    and "0 \<le> new" "new < cs_ShardNum cs" "new \<noteq> pmOf cs v"
  shows "\<exists>m ns. incI (VertexsNumInShard cs) (pmOf cs v) (-1) = Inr m \<and> incI m new 1 = Inr ns \<and>
     inShards (cs\<lparr>cs_PartitionMap := (cs_PartitionMap cs)(v \<mapsto> new), VertexsNumInShard := ns\<rparr>) \<and>
     countsOK (cs\<lparr>cs_PartitionMap := (cs_PartitionMap cs)(v \<mapsto> new), VertexsNumInShard := ns\<rparr>)"
proof -
  let ?S = "VertexSet (NetGraph cs)" and ?n = "cs_ShardNum cs" and ?old = "pmOf cs v"
  have ran: "0 \<le> ?old" "?old < ?n" using assms(2,4) by (auto simp: inShards_def)
  define ns where "ns = tab ?n (\<lambda>s. int (card {w \<in> ?S. ((pmOf cs)(v := new)) w = s}))"
  have ns0: "VertexsNumInShard cs = tab ?n (\<lambda>s. int (card {w \<in> ?S. pmOf cs w = s}))"
    using assms(3) by (simp add: countsOK_def)
  have "bindR (incI (VertexsNumInShard cs) ?old (-1)) (\<lambda>ns. incI ns new 1) = Inr ns"
    unfolding ns0 ns_def using ran assms(5-7) card_move [OF wfGraphD(1) [OF assms(1)] assms(4), of "pmOf cs" new]
    by (simp add: incI_tab del: fun_upd_apply)
  then obtain m where m: "incI (VertexsNumInShard cs) ?old (-1) = Inr m" "incI m new 1 = Inr ns"
    by (auto simp: res_simps)
  have P: "pmOf (cs\<lparr>cs_PartitionMap := (cs_PartitionMap cs)(v \<mapsto> new), VertexsNumInShard := ns\<rparr>) = (pmOf cs)(v := new)"
    by (simp add: pmOf_def fun_eq_iff)
  have "inShards (cs\<lparr>cs_PartitionMap := (cs_PartitionMap cs)(v \<mapsto> new), VertexsNumInShard := ns\<rparr>)"
    using assms(2,5,6) by (simp add: inShards_def P)
  moreover have "countsOK (cs\<lparr>cs_PartitionMap := (cs_PartitionMap cs)(v \<mapsto> new), VertexsNumInShard := ns\<rparr>)"
    by (simp add: countsOK_def P) (simp add: ns_def)
  ultimately show ?thesis using m by blast
qed

definition prefixMoved :: "Vertex list \<Rightarrow> string \<Rightarrow> int \<Rightarrow> (Vertex \<Rightarrow> int) \<Rightarrow> Vertex \<Rightarrow> int" where
  "prefixMoved ks prefix newShard P = (\<lambda>v. if v \<in> set ks \<and> hasPrefix prefix (Addr v) then newShard else P v)"

lemma UpdatePrefixShard_moves:
  assumes "wfGraph (NetGraph cs)" and "inShards cs" and "countsOK cs" and "set ks \<subseteq> VertexSet (NetGraph cs)"
    and "0 \<le> new" "new < cs_ShardNum cs"
  shows "\<exists>cs'. UpdatePrefixShard ks prefix new cs = Inr cs' \<and> inShards cs' \<and> countsOK cs' \<and>
     NetGraph cs' = NetGraph cs \<and> cs_ShardNum cs' = cs_ShardNum cs \<and>
     pmOf cs' = prefixMoved ks prefix new (pmOf cs)"
  using assms(1-4,6)
proof (induction ks arbitrary: cs)
  case Nil
  then show ?case by (simp add: UpdatePrefixShard_def prefixMoved_def)
next
  case (Cons v ks)
  have v: "v \<in> VertexSet (NetGraph cs)" using Cons.prems(4) by simp
  show ?case
  proof (cases "hasPrefix prefix (Addr v) \<and> pmOf cs v \<noteq> new")
    case False
    then have "UpdatePrefixShard (v # ks) prefix new cs = UpdatePrefixShard ks prefix new cs"
      by (auto simp: UpdatePrefixShard_def Let_def)
    moreover have "prefixMoved (v # ks) prefix new (pmOf cs) = prefixMoved ks prefix new (pmOf cs)"
      using False by (auto simp: prefixMoved_def fun_eq_iff)
    ultimately show ?thesis using Cons by simp
  next
    case True
    obtain m ns where m: "incI (VertexsNumInShard cs) (pmOf cs v) (-1) = Inr m" "incI m new 1 = Inr ns"
      and ok: "inShards (cs\<lparr>cs_PartitionMap := (cs_PartitionMap cs)(v \<mapsto> new), VertexsNumInShard := ns\<rparr>)"
        "countsOK (cs\<lparr>cs_PartitionMap := (cs_PartitionMap cs)(v \<mapsto> new), VertexsNumInShard := ns\<rparr>)"
      using move_counts [OF Cons.prems(1-3) v assms(5) Cons.prems(5)] True by metis
    let ?cs = "cs\<lparr>cs_PartitionMap := (cs_PartitionMap cs)(v \<mapsto> new), VertexsNumInShard := ns\<rparr>"
    have "UpdatePrefixShard (v # ks) prefix new cs = UpdatePrefixShard ks prefix new ?cs"
      using True m by (simp add: UpdatePrefixShard_def Let_def)
    moreover have "pmOf ?cs = (pmOf cs)(v := new)" by (simp add: pmOf_def fun_eq_iff)
    then have "prefixMoved ks prefix new (pmOf ?cs) = prefixMoved (v # ks) prefix new (pmOf cs)"
      using True by (auto simp: prefixMoved_def fun_eq_iff)
    ultimately show ?thesis
      using Cons.IH [of ?cs] Cons.prems ok by simp
  qed
qed

text \<open>The statistics stay within bounds, so the payload is always built.\<close>

definition statOK :: "int \<Rightarrow> PrefixStat \<Rightarrow> bool" where
  "statOK n st \<longleftrightarrow> 0 \<le> CurrentShard st \<and> CurrentShard st < n \<and> length (EdgesToShard st) = nat n"

lemma incI_ok: "0 \<le> k \<Longrightarrow> k < int (length xs) \<Longrightarrow> \<exists>ys. incI xs k d = Inr ys \<and> length ys = length xs"
  by (simp add: incI_def nthI_def updI_def)

lemma statVertex_ok:
  assumes wf: "wfGraph (NetGraph cs)" and ran: "inShards cs" and v: "v \<in> VertexSet (NetGraph cs)"
    and pm: "\<forall>p st. prefixMap p = Some st \<longrightarrow> statOK (cs_ShardNum cs) st"
  shows "\<exists>m. statVertex cs prefixMap v = Inr m \<and> (\<forall>p st. m p = Some st \<longrightarrow> statOK (cs_ShardNum cs) st)"
proof -
  have edges: "\<exists>st'. foldR (statEdge cs v) st (adj (NetGraph cs) v) = Inr st' \<and> statOK (cs_ShardNum cs) st'"
    if "statOK (cs_ShardNum cs) st" for st
  proof (rule foldR_total)
    fix st u
    assume "u \<in> set (adj (NetGraph cs) v)" and st: "statOK (cs_ShardNum cs) st"
    then have "u \<in> VertexSet (NetGraph cs)" using wfGraphD(3) [OF wf] by auto
    then have "0 \<le> pmOf cs u" "pmOf cs u < int (length (EdgesToShard st))"
      using ran st by (auto simp: inShards_def statOK_def)
    from incI_ok [OF this, of 1] st
    show "\<exists>s'. statEdge cs v st u = Inr s' \<and> statOK (cs_ShardNum cs) s'"
      by (auto simp: statEdge_def statOK_def)
  qed (rule that)
  have fresh: "statOK (cs_ShardNum cs) \<lparr>Prefix = p, CurrentShard = pmOf cs v, TXVolume = 0, CSTXVolume = 0,
      EdgesToShard = tab (cs_ShardNum cs) (\<lambda>_. 0)\<rparr>" for p
    using ran v by (auto simp: statOK_def inShards_def)
  have n: "0 \<le> cs_ShardNum cs" using ran by (simp add: inShards_def)
  obtain st where st: "statOK (cs_ShardNum cs) st"
    "(case prefixMap (take prefixLen (Addr v)) of
        Some stat \<Rightarrow> Inr stat
      | None \<Rightarrow> bindR (makeInts (cs_ShardNum cs)) (\<lambda>zs.
          Inr \<lparr>Prefix = take prefixLen (Addr v), CurrentShard = pmOf cs v, TXVolume = 0, CSTXVolume = 0, EdgesToShard = zs\<rparr>)) = Inr st"
    using pm fresh by (cases "prefixMap (take prefixLen (Addr v))") (auto simp: makeInts_tab [OF n])
  obtain st' where "foldR (statEdge cs v) st (adj (NetGraph cs) v) = Inr st'" "statOK (cs_ShardNum cs) st'"
    using edges [OF st(1)] by blast
  with st pm show ?thesis by (auto simp: statVertex_def Let_def)
qed

lemma aeroPayload_ok:
  assumes wf: "wfGraph (NetGraph cs)" and ran: "inShards cs" and es: "set es \<subseteq> VertexSet (NetGraph cs)"
  shows "\<exists>p. aeroPayload F es kp1 kp2 kp3 epoch cs = Inr p"
proof -
  let ?n = "cs_ShardNum cs"
  have n: "0 \<le> ?n" using ran by (simp add: inShards_def)
  have "\<exists>m. foldR (statVertex cs) Map.empty es = Inr m \<and> (\<forall>p st. m p = Some st \<longrightarrow> statOK ?n st)"
    by (rule foldR_total, rule statVertex_ok [OF wf ran]) (use es in auto)
  then obtain m where m: "foldR (statVertex cs) Map.empty es = Inr m" "\<forall>p st. m p = Some st \<longrightarrow> statOK ?n st"
    by blast
  have sts: "\<forall>st \<in> set (statsOf m kp). statOK ?n st" for kp
    using m(2) by (auto simp: statsOf_def List.map_filter_def)
  have "\<exists>ab. foldR (\<lambda>ab stat. bindR (incI (fst ab) (CurrentShard stat) (TXVolume stat)) (\<lambda>a.
                 bindR (incI (snd ab) (CurrentShard stat) (CSTXVolume stat)) (\<lambda>b. Inr (a, b))))
       (tab ?n (\<lambda>_. 0), tab ?n (\<lambda>_. 0)) (statsOf m kp1) = Inr ab \<and> length (fst ab) = nat ?n \<and> length (snd ab) = nat ?n"
  proof (rule foldR_total)
    fix ab :: "int list \<times> int list" and st
    assume "st \<in> set (statsOf m kp1)" and ab: "length (fst ab) = nat ?n \<and> length (snd ab) = nat ?n"
    then have "0 \<le> CurrentShard st" "CurrentShard st < int (nat ?n)" using sts [of kp1] n by (auto simp: statOK_def)
    then show "\<exists>s'. bindR (incI (fst ab) (CurrentShard st) (TXVolume st)) (\<lambda>a.
                 bindR (incI (snd ab) (CurrentShard st) (CSTXVolume st)) (\<lambda>b. Inr (a, b))) = Inr s' \<and>
        length (fst s') = nat ?n \<and> length (snd s') = nat ?n"
      using ab incI_ok [of "CurrentShard st" "fst ab" "TXVolume st"] incI_ok [of "CurrentShard st" "snd ab" "CSTXVolume st"]
      by auto
  qed simp
  with m(1) n show ?thesis by (auto simp: aeroPayload_def shardTotals_def makeInts_tab Let_def)
qed

end
