(* ===== verification/PartitionProps.thy ===== *)
theory PartitionProps
  imports CLPAProps Complex_Main
begin

text \<open>
  The properties of the two partition algorithms, with the small graphs that witness them.
\<close>

section \<open>A concrete state\<close>

text \<open>Three accounts, two shards; the edges a-b twice and b-c once. Scores are rationals.\<close>

definition ratOps :: "rat f64" where
  "ratOps = \<lparr>f_ofInt = of_int, f_mul = (*), f_div = (/), f_sub = (-), f_less = (<)\<rparr>"

definition zeroCLPA :: "rat CLPAState" where
  "zeroCLPA = \<lparr>NetGraph = emptyGraph, cs_PartitionMap = Map.empty, Edges2Shard = [], VertexsNumInShard = [],
     WeightPenalty = 0, MinEdges2Shard = 0, MaxIterations = 0, CrossShardEdgeNum = 0, cs_ShardNum = 0\<rparr>"

definition sampleEdges :: "(address \<times> address) list" where
  "sampleEdges = [(''00'', ''01''), (''00'', ''01''), (''01'', ''10'')]"

definition sampleInit :: "rat CLPAState" where
  "sampleInit = projr (Init_CLPAState (1/2) 3 2 zeroCLPA)"

definition sampleState :: "rat CLPAState" where
  "sampleState = projr (addEdges 2 sampleEdges sampleInit)"

lemma sampleInit_run: "Init_CLPAState (1/2) 3 2 zeroCLPA = Inr sampleInit"
  by (simp add: sampleInit_def Init_CLPAState_def makeInts_def)

lemma Addr2Shard_sample:
  "Addr2Shard 2 ''00'' = Inr 0" "Addr2Shard 2 ''01'' = Inr 1" "Addr2Shard 2 ''10'' = Inr 0"
  by (simp_all add: Addr2Shard_def ParseUint16_def hexDigit_def goRem_def)

lemma sampleState_run: "addEdges 2 sampleEdges sampleInit = Inr sampleState"
  by (simp add: sampleState_def addEdges_def sampleEdges_def AddEdge_def AddVertex_def sampleInit_def
      Init_CLPAState_def makeInts_def zeroCLPA_def emptyGraph_def gAddVertex_def gAddEdge_def Addr2Shard_sample
      incI_def nthI_def updI_def pmOf_def Let_def)

lemma sampleState_build: "buildInv 2 sampleState"
proof -
  have "buildInv 2 sampleInit"
    by (rule Init_inv [OF _ _ sampleInit_run]) (simp_all add: zeroCLPA_def)
  then show ?thesis
    by (rule addEdges_inv [OF _ _ sampleState_run]) (simp add: sampleEdges_def)
qed

lemma sampleState_facts:
  "wfGraph (NetGraph sampleState)" "loopFree (NetGraph sampleState)" "inShards sampleState" "countsOK sampleState"
  using sampleState_build buildInv_inShards [OF sampleState_build] by (simp_all add: buildInv_def)

lemma sampleState_eq:
  "VertexSet (NetGraph sampleState) = {Vertex ''00'', Vertex ''01'', Vertex ''10''}"
  "edgeKeys (NetGraph sampleState) = {Vertex ''00'', Vertex ''01'', Vertex ''10''}"
  "cs_ShardNum sampleState = 2"
  "pmOf sampleState (Vertex ''00'') = 0" "pmOf sampleState (Vertex ''01'') = 1" "pmOf sampleState (Vertex ''10'') = 0"
  by (auto simp add: sampleState_def addEdges_def sampleEdges_def AddEdge_def AddVertex_def sampleInit_def
      Init_CLPAState_def makeInts_def zeroCLPA_def emptyGraph_def gAddVertex_def gAddEdge_def Addr2Shard_sample
      incI_def nthI_def updI_def pmOf_def Let_def edgeKeys_def)

lemma sampleState_order: "iter_order [Vertex ''00'', Vertex ''01'', Vertex ''10''] (edgeKeys (NetGraph sampleState))"
  by (simp add: iter_order_def sampleState_eq)

section \<open>Counting edges\<close>

text \<open>C29: The full recount of the edge counters does not depend on the order in which the map of adjacency
  lists is visited, never indexes out of range, and computes for every shard the number of undirected edges
  with an end in it, and the number of undirected edges between two shards.\<close>

theorem edge_counts:
  assumes "wfGraph (NetGraph cs)" and "inShards cs" and "iter_order ks (edgeKeys (NetGraph cs))"
  shows "\<exists>cs'. ComputeEdges2Shard ks cs = Inr cs' \<and>
     (\<forall>ks'. iter_order ks' (edgeKeys (NetGraph cs)) \<longrightarrow> ComputeEdges2Shard ks' cs = Inr cs') \<and>
     Edges2Shard cs' = tab (cs_ShardNum cs) (touchW (pmOf cs) (NetGraph cs)) \<and>
     CrossShardEdgeNum cs' = crossT (pmOf cs) (NetGraph cs)"
  using ComputeEdges2Shard_counted [OF assms(1,2)] assms(3) by (auto simp: counted_def Let_def)

theorem edge_counts_witness:
  "\<exists>cs'. ComputeEdges2Shard [Vertex ''00'', Vertex ''01'', Vertex ''10''] sampleState = Inr cs' \<and>
     Edges2Shard cs' = tab 2 (touchW (pmOf sampleState) (NetGraph sampleState))"
  using edge_counts [OF sampleState_facts(1,3) sampleState_order] sampleState_eq(3) by auto

text \<open>C11: The incremental update after moving one vertex gives exactly the counters a full recount of the
  moved state would give, for a graph without self-loops.\<close>

theorem recompute_equals_recount:
  assumes "wfGraph (NetGraph cs)" and "loopFree (NetGraph cs)" and "inShards cs"
    and "ComputeEdges2Shard ks cs0 = Inr cs" and "iter_order ks (edgeKeys (NetGraph cs0))"
    and "v \<in> VertexSet (NetGraph cs)" and "0 \<le> new" "new < cs_ShardNum cs" "new \<noteq> pmOf cs v"
  shows "changeShardRecompute v (pmOf cs v) (reassign v new cs) = ComputeEdges2Shard ks (reassign v new cs)"
proof -
  have g: "NetGraph cs = NetGraph cs0" "pmOf cs = pmOf cs0" "cs_ShardNum cs = cs_ShardNum cs0"
    using assms(4) by (auto simp: ComputeEdges2Shard_def res_simps Let_def pmOf_def)
  then have "inShards cs0" using assms(3) by (simp add: inShards_def)
  then have c: "counted cs = cs"
    using ComputeEdges2Shard_counted [OF _ _ assms(5)] assms(1,4) g(1) by (auto simp: counted_idem)
  have "inShards (reassign v new cs)"
    using assms(3,7,8) by (auto simp: inShards_def pmOf_reassign)
  then have "ComputeEdges2Shard ks (reassign v new cs) = Inr (counted (reassign v new cs))"
    using assms(1,5) g(1) by (intro ComputeEdges2Shard_counted) auto
  with changeShardRecompute_counted [OF assms(1-3,6-9) c] show ?thesis by simp
qed

theorem recompute_equals_recount_witness:
  "\<exists>cs. ComputeEdges2Shard [Vertex ''00'', Vertex ''01'', Vertex ''10''] sampleState = Inr cs \<and>
     changeShardRecompute (Vertex ''10'') 0 (reassign (Vertex ''10'') 1 cs) =
     ComputeEdges2Shard [Vertex ''00'', Vertex ''01'', Vertex ''10''] (reassign (Vertex ''10'') 1 cs)"
proof -
  have c: "ComputeEdges2Shard [Vertex ''00'', Vertex ''01'', Vertex ''10''] sampleState = Inr (counted sampleState)"
    by (rule ComputeEdges2Shard_counted [OF sampleState_facts(1,3) sampleState_order])
  have i: "inShards (counted sampleState)" using sampleState_facts(3) by (simp add: inShards_def)
  from recompute_equals_recount [OF _ _ i c sampleState_order, of "Vertex ''10''" 1] sampleState_facts c
  show ?thesis by (simp add: sampleState_eq)
qed

section \<open>Label propagation\<close>



section \<open>AERO\<close>

text \<open>The shard the last migration that fits an address sends it to.\<close>

definition lastMigration :: "(string \<times> int) list \<Rightarrow> address \<Rightarrow> int option" where
  "lastMigration migs a = map_option snd (find (\<lambda>m. hasPrefix (fst m) a) (rev migs))"

lemma lastMigration_Nil [simp]: "lastMigration [] a = None"
  by (simp add: lastMigration_def)

lemma lastMigration_snoc [simp]:
  "lastMigration (migs @ [m]) a = (if hasPrefix (fst m) a then Some (snd m) else lastMigration migs a)"
  by (simp add: lastMigration_def)

text \<open>The migrations applied in turn: where the accounts end up, and what is reported.\<close>

lemma migrations_apply:
  assumes wf: "wfGraph (NetGraph cs)" "inShards cs" "countsOK cs" and ks: "set ks = VertexSet (NetGraph cs)"
    and migs: "\<forall>m \<in> set migs. length (fst m) = prefixLen \<and> 0 \<le> snd m \<and> snd m < cs_ShardNum cs"
  shows "\<exists>c. foldR (applyMigration ks) (cs, Map.empty) migs =
       Inr (c, \<lambda>a. if Vertex a \<in> set ks then map_option word_of_int (lastMigration migs a) else None) \<and>
     inShards c \<and> countsOK c \<and> NetGraph c = NetGraph cs \<and> cs_ShardNum c = cs_ShardNum cs \<and>
     (\<forall>v \<in> set ks. pmOf c v = (case lastMigration migs (Addr v) of None \<Rightarrow> pmOf cs v | Some s \<Rightarrow> s))"
  using migs
proof (induction migs rule: rev_induct)
  case Nil
  then show ?case using wf by (simp add: fun_eq_iff)
next
  case (snoc m migs)
  then have mm: "length (fst m) = 2" "0 \<le> snd m" "snd m < cs_ShardNum cs" by (simp_all add: prefixLen_def)
  from snoc obtain c where c: "foldR (applyMigration ks) (cs, Map.empty) migs =
       Inr (c, \<lambda>a. if Vertex a \<in> set ks then map_option word_of_int (lastMigration migs a) else None)"
    "inShards c" "countsOK c" "NetGraph c = NetGraph cs" "cs_ShardNum c = cs_ShardNum cs"
    "\<forall>v \<in> set ks. pmOf c v = (case lastMigration migs (Addr v) of None \<Rightarrow> pmOf cs v | Some s \<Rightarrow> s)"
    by auto
  obtain c' where c': "UpdatePrefixShard ks (fst m) (snd m) c = Inr c'" "inShards c'" "countsOK c'"
    "NetGraph c' = NetGraph cs" "cs_ShardNum c' = cs_ShardNum cs" "pmOf c' = prefixMoved ks (fst m) (snd m) (pmOf c)"
    using UpdatePrefixShard_moves [of c ks "snd m" "fst m"] c wf(1) mm ks by auto
  have same: "(length (Addr v) \<ge> prefixLen \<and> take prefixLen (Addr v) = fst m) = hasPrefix (fst m) (Addr v)" for v
    using mm by (simp add: hasPrefix_def prefixLen_def)
  have "foldl (\<lambda>res v. if hasPrefix (fst m) (Addr v) then res(Addr v \<mapsto> word_of_int (snd m)) else res) r vs =
      (\<lambda>a. if Vertex a \<in> set vs \<and> hasPrefix (fst m) a then Some (word_of_int (snd m)) else r a)"
    for r :: "address \<rightharpoonup> u64" and vs
    by (induction vs arbitrary: r) (auto simp: fun_eq_iff)
  then have "applyMigration ks (c, \<lambda>a. if Vertex a \<in> set ks then map_option word_of_int (lastMigration migs a) else None) m =
      Inr (c', \<lambda>a. if Vertex a \<in> set ks then map_option word_of_int (lastMigration (migs @ [m]) a) else None)"
    using c'(1) by (simp add: applyMigration_def same fun_eq_iff)
  then have "foldR (applyMigration ks) (cs, Map.empty) (migs @ [m]) =
      Inr (c', \<lambda>a. if Vertex a \<in> set ks then map_option word_of_int (lastMigration (migs @ [m]) a) else None)"
    using c(1) by (simp add: foldR_snoc del: lastMigration_snoc)
  moreover have "\<forall>v \<in> set ks. pmOf c' v = (case lastMigration (migs @ [m]) (Addr v) of None \<Rightarrow> pmOf cs v | Some s \<Rightarrow> s)"
    using c'(6) c(6) by (simp add: prefixMoved_def)
  ultimately show ?case using c'(2-5) by blast
qed

text \<open>C30: When every migration the agent asks for names a two-character prefix and an existing shard, and the
  address AERO makes up is not an account of the graph, AERO returns and has applied the migrations in their
  order: an account is in the shard of the last migration whose prefix its address has, and where it was if there
  is none. The returned map holds exactly the accounts some migration names, each with its new shard; only if
  there are none does it hold the made-up address alone. The counts of accounts per shard and of edges across
  shards are those of the new placement.\<close>

theorem AERO_Partition_correct:
  assumes b: "buildInv sn cs" and es: "iter_order es (edgeKeys (NetGraph cs))" "iter_order es1 (edgeKeys (NetGraph cs))"
    and ks: "iter_order ks (VertexSet (NetGraph cs))"
    and agent: "agent (projr (aeroPayload F es kp1 kp2 kp3 epoch (counted cs))) = Some migs"
    and migs: "\<forall>m \<in> set migs. length (fst m) = prefixLen \<and> 0 \<le> snd m \<and> snd m < sn"
    and fake: "Vertex fakeAddr \<notin> VertexSet (NetGraph cs)"
  shows "\<exists>res cs'. AERO_Partition F agent ks es kp1 kp2 kp3 es1 epoch cs = Inr (Some res, cs') \<and>
     res \<noteq> Map.empty \<and> NetGraph cs' = NetGraph cs \<and>
     (\<forall>v \<in> VertexSet (NetGraph cs).
        pmOf cs' v = (case lastMigration migs (Addr v) of None \<Rightarrow> pmOf cs v | Some s \<Rightarrow> s) \<and>
        0 \<le> pmOf cs' v \<and> pmOf cs' v < sn \<and> res (Addr v) = map_option word_of_int (lastMigration migs (Addr v))) \<and>
     (\<forall>a. Vertex a \<notin> VertexSet (NetGraph cs) \<longrightarrow>
        res a = (if a = fakeAddr \<and> (\<forall>v \<in> VertexSet (NetGraph cs). lastMigration migs (Addr v) = None) then Some 0 else None)) \<and>
     VertexsNumInShard cs' = tab sn (\<lambda>s. int (card {v \<in> VertexSet (NetGraph cs). pmOf cs' v = s})) \<and>
     CrossShardEdgeNum cs' = crossT (pmOf cs') (NetGraph cs)"
proof -
  let ?V = "VertexSet (NetGraph cs)"
  define r where "r = (\<lambda>a. if Vertex a \<in> ?V then map_option word_of_int (lastMigration migs a) else (None :: u64 option))"
  have f: "wfGraph (NetGraph cs)" "inShards cs" "countsOK cs" "cs_ShardNum cs = sn"
    using buildInv_inShards [OF b] b by (simp_all add: buildInv_def)
  have fc: "inShards (counted cs)" "countsOK (counted cs)" using f by (simp_all add: inShards_def countsOK_def)
  have pc: "pmOf (counted cs) = pmOf cs" by (simp add: counted_def Let_def pmOf_def fun_eq_iff)
  have ksV: "set ks = ?V" using ks by blast
  have "set es \<subseteq> ?V" using es(1) wfGraphD(2) [OF f(1)] by blast
  then obtain p where p: "aeroPayload F es kp1 kp2 kp3 epoch (counted cs) = Inr p"
    using aeroPayload_ok [of "counted cs" es F kp1 kp2 kp3 epoch] f(1) fc by auto
  obtain c where c: "foldR (applyMigration ks) (counted cs, Map.empty) migs = Inr (c, r)"
    "inShards c" "countsOK c" "NetGraph c = NetGraph cs" "cs_ShardNum c = sn"
    "\<forall>v \<in> ?V. pmOf c v = (case lastMigration migs (Addr v) of None \<Rightarrow> pmOf cs v | Some s \<Rightarrow> s)"
    using migrations_apply [of "counted cs" ks migs, unfolded pc] f fc ksV migs unfolding r_def by auto
  have "ComputeEdges2Shard es1 c = Inr (counted c)"
    using ComputeEdges2Shard_counted [of c es1] c(2,4) f(1) es(2) by simp
  then have run: "AERO_Partition F agent ks es kp1 kp2 kp3 es1 epoch cs =
      Inr (Some (if r = Map.empty then r(fakeAddr \<mapsto> 0) else r), counted c)"
    using p agent c(1) by (simp add: AERO_Partition_def ComputeEdges2Shard_counted [OF f(1,2) es(1)] Let_def)
  have re: "r = Map.empty \<longleftrightarrow> (\<forall>v \<in> ?V. lastMigration migs (Addr v) = None)"
    by (auto simp: r_def fun_eq_iff)
  have fk: "Addr v \<noteq> fakeAddr" if "v \<in> ?V" for v using fake that by (metis Vertex.collapse)
  have "CrossShardEdgeNum (counted c) = crossT (pmOf c) (NetGraph cs)" using c(4) by (simp add: counted_def Let_def)
  then show ?thesis
    using run c(2-6) re fk fake
    by (intro exI [of _ "if r = Map.empty then r(fakeAddr \<mapsto> 0) else r"] exI [of _ "counted c"])
      (auto simp: countsOK_def inShards_def r_def)
qed

lemma sampleState_vset_order: "iter_order [Vertex ''00'', Vertex ''01'', Vertex ''10''] (VertexSet (NetGraph sampleState))"
  by (simp add: iter_order_def sampleState_eq)

theorem AERO_Partition_correct_witness:
  "\<exists>res cs'. AERO_Partition ratOps (\<lambda>_. Some [(''10'', 0), (''10'', 1)]) [Vertex ''00'', Vertex ''01'', Vertex ''10'']
       [Vertex ''00'', Vertex ''01'', Vertex ''10''] [''00''] [''00''] [''00'']
       [Vertex ''00'', Vertex ''01'', Vertex ''10''] 1 sampleState = Inr (Some res, cs') \<and>
     pmOf cs' (Vertex ''10'') = 1 \<and> res ''10'' = Some 1 \<and> pmOf cs' (Vertex ''00'') = 0 \<and> res ''00'' = None"
proof -
  have m: "\<forall>m \<in> set [(''10'', 0), (''10'', 1::int)]. length (fst m) = prefixLen \<and> 0 \<le> snd m \<and> snd m < 2"
    by (simp add: prefixLen_def)
  have fk: "Vertex fakeAddr \<notin> VertexSet (NetGraph sampleState)"
    by (simp add: sampleState_eq fakeAddr_def)
  have l: "lastMigration [(''10'', 0), (''10'', 1::int)] ''10'' = Some 1" "lastMigration [(''10'', 0), (''10'', 1::int)] ''00'' = None"
    by (simp_all add: lastMigration_def hasPrefix_def)
  obtain res cs' where r: "AERO_Partition ratOps (\<lambda>_. Some [(''10'', 0), (''10'', 1)]) [Vertex ''00'', Vertex ''01'', Vertex ''10'']
       [Vertex ''00'', Vertex ''01'', Vertex ''10''] [''00''] [''00''] [''00'']
       [Vertex ''00'', Vertex ''01'', Vertex ''10''] 1 sampleState = Inr (Some res, cs')"
    and v: "\<forall>v \<in> VertexSet (NetGraph sampleState).
      pmOf cs' v = (case lastMigration [(''10'', 0), (''10'', 1)] (Addr v) of None \<Rightarrow> pmOf sampleState v | Some s \<Rightarrow> s) \<and>
      0 \<le> pmOf cs' v \<and> pmOf cs' v < 2 \<and>
      res (Addr v) = map_option word_of_int (lastMigration [(''10'', 0), (''10'', 1)] (Addr v))"
    using AERO_Partition_correct [OF sampleState_build sampleState_order sampleState_order sampleState_vset_order,
      of "\<lambda>_. Some [(''10'', 0), (''10'', 1)]", OF refl m fk, of ratOps "[''00'']" "[''00'']" "[''00'']" 1]
    by (elim exE conjE) (rule that)
  have "pmOf cs' (Vertex ''10'') = 1" "res ''10'' = Some 1" "pmOf cs' (Vertex ''00'') = 0" "res ''00'' = None"
    using v [rule_format, of "Vertex ''10''"] v [rule_format, of "Vertex ''00''"] by (simp_all add: sampleState_eq l)
  with r show ?thesis by (intro exI conjI)
qed

text \<open>A migration whose prefix is not two characters long moves every account with that prefix in the
  committee's own state but reports none of them: the map sent to the shards is unchanged.\<close>

theorem AERO_unreported_moves:
  assumes "wfGraph (NetGraph cs)" and "inShards cs" and "countsOK cs" and "set ks = VertexSet (NetGraph cs)"
    and "0 \<le> new" "new < cs_ShardNum cs" and "length prefix \<noteq> 2"
  shows "\<exists>cs'. applyMigration ks (cs, res) (prefix, new) = Inr (cs', res) \<and>
     (\<forall>v \<in> VertexSet (NetGraph cs). hasPrefix prefix (Addr v) \<longrightarrow> pmOf cs' v = new)"
proof -
  obtain c where c: "UpdatePrefixShard ks prefix new cs = Inr c" "pmOf c = prefixMoved ks prefix new (pmOf cs)"
    using UpdatePrefixShard_moves [OF assms(1-3) _ assms(5,6), of ks prefix] assms(4) by auto
  have "foldl (\<lambda>res v. if length (Addr v) \<ge> prefixLen \<and> take prefixLen (Addr v) = prefix
      then res(Addr v \<mapsto> word_of_int (snd (prefix, new))) else res) r vs = r" for r :: "address \<rightharpoonup> u64" and vs
    using assms(7) by (induction vs arbitrary: r) (auto simp: prefixLen_def)
  with c assms(4) show ?thesis
    by (simp add: applyMigration_def prefixMoved_def)
qed

theorem AERO_unreported_moves_witness:
  "\<exists>cs'. applyMigration [Vertex ''00'', Vertex ''01'', Vertex ''10''] (sampleState, Map.empty) (''1'', 1) =
       Inr (cs', Map.empty) \<and> pmOf cs' (Vertex ''10'') = 1"
  using AERO_unreported_moves [OF sampleState_facts(1,3,4), of "[Vertex ''00'', Vertex ''01'', Vertex ''10'']" 1 "''1''" Map.empty]
  by (auto simp: sampleState_eq hasPrefix_def)

end
