(* ===== verification/Network.thy ===== *)
theory Network
  imports CoreTypes
begin

text \<open>
  The network layer (networks/p2pNetwork.go, networks/upload\_limit.go,
  networks/download\_limit.go) and the loops that cut a connection's bytes into messages
  (\<open>handleClientRequest\<close> of consensus\_shard/pbft\_all/pbft.go and supervisor/supervisor.go).

  \<^item> A connection is an abstract value; what \<open>net.Dial\<close> returns, whether a pooled
    connection is alive, the random delay and the bytes that arrive are arguments.
  \<^item> The limiter is golang.org/x/time/rate: \<open>waitN\<close> tells whether \<open>WaitN\<close> returns
    without an error. Without a deadline it fails exactly when more is asked for than the
    burst, which is \<open>limiter_law\<close>.
  \<^item> A loop that may run forever is a partial function: not returning is \<open>None\<close>.
\<close>

section \<open>Parameters\<close>

record netParams =
  Delay :: int
  JitterRange :: int
  Bandwidth :: int

definition InitNetworkTools :: "netParams \<Rightarrow> netParams" where
  "InitNetworkTools np =
     (let np = (if Delay np < 0 then np\<lparr>Delay := 0\<rparr> else np);
          np = (if JitterRange np < 0 then np\<lparr>JitterRange := 0\<rparr> else np)
      in if Bandwidth np < 0 then np\<lparr>Bandwidth := 0x7fffffff\<rparr> else np)"

text \<open>The delay of a message in milliseconds; \<open>rnd\<close> is \<open>Intn\<close>, a number below its argument.\<close>

definition sendDelay :: "(int \<Rightarrow> int) \<Rightarrow> netParams \<Rightarrow> int" where
  "sendDelay rnd np =
     (if JitterRange np \<noteq> 0 then rnd (JitterRange np) - JitterRange np div 2 + Delay np else Delay np)"

section \<open>Limited reading and writing\<close>

text \<open>Waiting for the tokens of \<open>n\<close> bytes: \<open>Some False\<close> when the limiter fails.\<close>

partial_function (option) waitToWrite :: "int \<Rightarrow> (int \<Rightarrow> bool) \<Rightarrow> int \<Rightarrow> bool option" where
  "waitToWrite burst waitN n =
     (if n > 0 then
        let writeByteNum = (if burst > n then n else burst)
        in if \<not> waitN writeByteNum then Some False else waitToWrite burst waitN (n - writeByteNum)
      else Some True)"

text \<open>Reading asks for all \<open>n\<close> in every turn.\<close>

partial_function (option) waitToRead :: "int \<Rightarrow> (int \<Rightarrow> bool) \<Rightarrow> int \<Rightarrow> bool option" where
  "waitToRead burst waitN n =
     (if n > 0 then
        let writeByteNum = (if burst > n then n else burst)
        in if \<not> waitN n then Some False else waitToRead burst waitN (n - writeByteNum)
      else Some True)"

definition limiter_law :: "int \<Rightarrow> (int \<Rightarrow> bool) \<Rightarrow> bool" where
  "limiter_law burst waitN \<longleftrightarrow> (\<forall>n. waitN n \<longleftrightarrow> n \<le> burst)"

text \<open>
  \<open>writeToConn\<close>: the bytes handed to the connection's own \<open>Write\<close>. What the connection does with
  them is I/O; an error it returns is only logged, like one of the limiter.
\<close>

definition writeToConn :: "int \<Rightarrow> (int \<Rightarrow> bool) \<Rightarrow> bytes \<Rightarrow> bytes option" where
  "writeToConn burst waitN connMsg =
     map_option (\<lambda>ok. if ok then connMsg else []) (waitToWrite burst waitN (int (length connMsg)))"

section \<open>Sending\<close>

definition newline :: char where
  "newline = CHR 0x0A"

text \<open>
  The part of \<open>TcpDial\<close> under its lock: the pool, and the connection the message is
  written to, if there is one. \<open>dial\<close> is what \<open>net.Dial\<close> returns, \<open>alive c\<close> whether
  \<open>SetKeepAlive\<close> succeeds; every pooled connection is a TCP connection.
\<close>

definition TcpDial ::
  "('c \<Rightarrow> bool) \<Rightarrow> 'c option \<Rightarrow> bytes \<Rightarrow> string \<Rightarrow> (string \<rightharpoonup> 'c) \<Rightarrow> (string \<rightharpoonup> 'c) \<times> ('c \<times> bytes) option" where
  "TcpDial alive dial context addr pool =
     (let msg = context @ [newline] in
      case pool addr of
        Some c \<Rightarrow>
          if \<not> alive c then
            (let pool = pool(addr := None) in
             case dial of None \<Rightarrow> (pool, None) | Some conn \<Rightarrow> (pool(addr \<mapsto> conn), Some (conn, msg)))
          else (pool, Some (c, msg))
      | None \<Rightarrow>
          (case dial of None \<Rightarrow> (pool, None) | Some conn \<Rightarrow> (pool(addr \<mapsto> conn), Some (conn, msg))))"

definition CloseAllConnInPool :: "(string \<rightharpoonup> 'c) \<Rightarrow> (string \<rightharpoonup> 'c) \<times> 'c set" where
  "CloseAllConnInPool pool = (Map.empty, ran pool)"

section \<open>Receiving\<close>

text \<open>\<open>ReadBytes('\n')\<close>: the bytes up to the delimiter and the rest, \<open>None\<close> when there is none.\<close>

fun readBytes :: "bytes \<Rightarrow> (bytes \<times> bytes) option" where
  "readBytes [] = None"
| "readBytes (c # cs) =
     (if c = newline then Some ([c], cs) else map_option (\<lambda>(m, r). (c # m, r)) (readBytes cs))"

lemma readBytes_shorter: "readBytes s = Some (m, r) \<Longrightarrow> length r < length s"
  by (induction s arbitrary: m r) (fastforce split: if_splits)+

text \<open>
  The messages a node handles from a connection that delivers \<open>s\<close> and is then closed;
  \<open>stop i\<close> is the stop signal after the \<open>i\<close>-th read.
\<close>

function nodeFrames :: "(nat \<Rightarrow> bool) \<Rightarrow> nat \<Rightarrow> bytes \<Rightarrow> bytes list" where
  "nodeFrames stop i s =
     (case readBytes s of
        None \<Rightarrow> []
      | Some (clientRequest, s) \<Rightarrow> if stop i then [] else clientRequest # nodeFrames stop (Suc i) s)"
  by pat_completeness auto

termination
  by (relation "measure (\<lambda>(stop, i, s). length s)") (auto simp: readBytes_shorter)

declare nodeFrames.simps [simp del]

text \<open>The loop of the supervisor has no stop signal.\<close>

function supervisorFrames :: "bytes \<Rightarrow> bytes list" where
  "supervisorFrames s =
     (case readBytes s of None \<Rightarrow> [] | Some (clientRequest, s) \<Rightarrow> clientRequest # supervisorFrames s)"
  by pat_completeness auto

termination
  by (relation "measure length") (auto simp: readBytes_shorter)

declare supervisorFrames.simps [simp del]

text \<open>
  \<open>readMessage\<close> takes the end of the buffer for the end of a message: it never fails.
  So the loop over the buffer in \<open>ReadFromConn\<close> has no exit.
\<close>

definition readMessage :: "bytes \<Rightarrow> bytes \<times> bytes" where
  "readMessage buffer = (case readBytes buffer of Some (message, rest) \<Rightarrow> (message, rest) | None \<Rightarrow> (buffer, []))"

partial_function (option) drainBuffer :: "bytes \<Rightarrow> bytes list \<Rightarrow> bytes list option" where
  "drainBuffer messageBuffer logs =
     (case readMessage messageBuffer of (message, rest) \<Rightarrow> drainBuffer rest (logs @ [message]))"

text \<open>\<open>reads\<close> are the chunks the connection delivers before it is closed.\<close>

fun ReadFromConn :: "bytes list \<Rightarrow> bytes \<Rightarrow> bytes list option" where
  "ReadFromConn [] messageBuffer = Some []"
| "ReadFromConn (chunk # reads) messageBuffer =
     (case drainBuffer (messageBuffer @ chunk) [] of
        None \<Rightarrow> None
      | Some logs \<Rightarrow> map_option (\<lambda>ls. logs @ ls) (ReadFromConn reads []))"

section \<open>How far the limits let through\<close>

lemma waitToWrite_zero:
  assumes "waitToWrite burst waitN n = Some ok"
  shows "burst = 0 \<and> limiter_law burst waitN \<longrightarrow> n \<le> 0"
  using assms
  by (rule waitToWrite.raw_induct [where P = "\<lambda>burst waitN n ok. burst = 0 \<and> limiter_law burst waitN \<longrightarrow> n \<le> 0", rotated])
    (fastforce simp: limiter_law_def Let_def split: if_splits)

lemma waitToWrite_ok:
  assumes "0 < burst" "limiter_law burst waitN"
  shows "waitToWrite burst waitN n = Some True"
proof (induction "nat n" arbitrary: n rule: less_induct)
  case less
  show ?case
  proof (cases "0 < n")
    case True
    define w where "w = (if burst > n then n else burst)"
    have "0 < w" "w \<le> burst" using True assms(1) by (auto simp: w_def)
    then have "waitN w" "waitToWrite burst waitN (n - w) = Some True"
      using assms(2) less [of "n - w"] True by (auto simp: limiter_law_def)
    then show ?thesis using True by (subst waitToWrite.simps) (simp add: w_def [symmetric] Let_def)
  next
    case False
    then show ?thesis by (subst waitToWrite.simps) simp
  qed
qed

text \<open>C39: Waiting for the tokens of a message that is not empty returns - and then every byte is handed to the
  connection - exactly when the bandwidth is not zero: with a bandwidth of 0, which the initialisation lets pass, the loop that waits for the tokens of a message
  never ends. A negative bandwidth means no limit.\<close>

theorem write_returns_iff:
  assumes law: "limiter_law (Bandwidth (InitNetworkTools np)) waitN"
  shows "(writeToConn (Bandwidth (InitNetworkTools np)) waitN msg \<noteq> None \<longleftrightarrow> msg = [] \<or> Bandwidth np \<noteq> 0) \<and>
     (Bandwidth np \<noteq> 0 \<longrightarrow> writeToConn (Bandwidth (InitNetworkTools np)) waitN msg = Some msg)"
proof -
  define b where "b = Bandwidth (InitNetworkTools np)"
  have b: "0 \<le> b" "b = 0 \<longleftrightarrow> Bandwidth np = 0" by (auto simp: b_def InitNetworkTools_def Let_def)
  show ?thesis
  proof (cases "Bandwidth np = 0")
    case True
    then have b0: "b = 0" using b by simp
    show ?thesis
    proof (cases "msg = []")
      case True
      have "waitToWrite b waitN 0 = Some True" by (subst waitToWrite.simps) simp
      then show ?thesis using True \<open>Bandwidth np = 0\<close> by (simp add: writeToConn_def b_def [symmetric])
    next
      case False
      then have "waitToWrite b waitN (int (length msg)) = None"
        using waitToWrite_zero [of b waitN "int (length msg)"] b0 law [folded b_def] by (cases "waitToWrite b waitN (int (length msg))") auto
      then show ?thesis using False \<open>Bandwidth np = 0\<close> by (simp add: writeToConn_def b_def [symmetric])
    qed
  next
    case False
    then have "0 < b" using b by auto
    from waitToWrite_ok [OF this law [folded b_def]] False show ?thesis
      unfolding writeToConn_def b_def [symmetric] by simp
  qed
qed

theorem write_returns_iff_witness:
  "writeToConn (Bandwidth (InitNetworkTools \<lparr>Delay = 0, JitterRange = 0, Bandwidth = 0\<rparr>)) (\<lambda>n. n \<le> 0) ''ab'' = None \<and>
     writeToConn (Bandwidth (InitNetworkTools \<lparr>Delay = 0, JitterRange = 0, Bandwidth = -1\<rparr>)) (\<lambda>n. n \<le> 0x7fffffff) ''ab'' = Some ''ab''"
proof -
  have l: "limiter_law (Bandwidth (InitNetworkTools \<lparr>Delay = 0, JitterRange = 0, Bandwidth = 0\<rparr>)) (\<lambda>n. n \<le> 0)"
    "limiter_law (Bandwidth (InitNetworkTools \<lparr>Delay = 0, JitterRange = 0, Bandwidth = -1\<rparr>)) (\<lambda>n. n \<le> 0x7fffffff)"
    by (simp_all add: limiter_law_def InitNetworkTools_def)
  from write_returns_iff [OF l(1), of "''ab''"] write_returns_iff [OF l(2), of "''ab''"] show ?thesis by simp
qed

text \<open>A read always returns, but it only reads when the whole buffer fits in the burst.\<close>

lemma waitToRead_returns:
  assumes law: "limiter_law burst waitN" and "0 \<le> burst"
  shows "waitToRead burst waitN n = Some (n \<le> burst)"
proof (cases "n \<le> 0")
  case True
  then show ?thesis using assms(2) by (subst waitToRead.simps) simp
next
  case False
  show ?thesis
  proof (cases "n \<le> burst")
    case True
    then have w: "n - (if burst > n then n else burst) = 0" by auto
    have "waitToRead burst waitN 0 = Some True" by (subst waitToRead.simps) simp
    then show ?thesis using True False law w by (subst waitToRead.simps) (simp add: limiter_law_def Let_def)
  next
    case nfit: False
    then show ?thesis using False law by (subst waitToRead.simps) (simp add: limiter_law_def Let_def)
  qed
qed

text \<open>The delay stays within the jitter around the configured delay.\<close>

lemma sendDelay_range:
  assumes "\<And>r. 0 < r \<Longrightarrow> 0 \<le> rnd r \<and> rnd r < r"
  shows "\<bar>sendDelay rnd (InitNetworkTools np) - Delay (InitNetworkTools np)\<bar> \<le> JitterRange (InitNetworkTools np) div 2"
proof -
  define j where "j = JitterRange (InitNetworkTools np)"
  have "0 \<le> j" by (auto simp: j_def InitNetworkTools_def Let_def)
  then show ?thesis
    using assms [of j] unfolding sendDelay_def j_def [symmetric] by (cases "j = 0") auto
qed

section \<open>Cutting a stream into messages\<close>

lemma readBytes_frame: "newline \<notin> set m \<Longrightarrow> readBytes (m @ newline # r) = Some (m @ [newline], r)"
  by (induction m) auto

lemma readBytes_none: "readBytes s = None \<longleftrightarrow> newline \<notin> set s"
  by (induction s) auto

definition stream :: "bytes list \<Rightarrow> bytes" where
  "stream ms = concat (map (\<lambda>m. m @ [newline]) ms)"

lemma supervisorFrames_stream:
  assumes "\<forall>m \<in> set ms. newline \<notin> set m" "newline \<notin> set partial"
  shows "supervisorFrames (stream ms @ partial) = map (\<lambda>m. m @ [newline]) ms"
  using assms(1)
proof (induction ms)
  case Nil
  then show ?case using assms(2) by (subst supervisorFrames.simps) (simp add: stream_def readBytes_none [THEN iffD2])
next
  case (Cons m ms)
  have "stream (m # ms) @ partial = m @ newline # (stream ms @ partial)" by (simp add: stream_def)
  then show ?case using Cons readBytes_frame [of m "stream ms @ partial"] by (subst supervisorFrames.simps) simp
qed

lemma nodeFrames_prefix:
  assumes "\<forall>m \<in> set ms. newline \<notin> set m" "newline \<notin> set partial" "\<forall>j < k. \<not> stop (i + j)" "k < length ms \<longrightarrow> stop (i + k)"
  shows "nodeFrames stop i (stream ms @ partial) = map (\<lambda>m. m @ [newline]) (take k ms)"
  using assms(1,3-)
proof (induction ms arbitrary: i k)
  case Nil
  then show ?case using assms(2) by (subst nodeFrames.simps) (simp add: stream_def readBytes_none [THEN iffD2])
next
  case (Cons m ms)
  have e: "readBytes (stream (m # ms) @ partial) = Some (m @ [newline], stream ms @ partial)"
    using Cons.prems(1) readBytes_frame [of m "stream ms @ partial"] by (simp add: stream_def)
  show ?case
  proof (cases k)
    case 0
    then show ?thesis using Cons.prems e by (subst nodeFrames.simps) simp
  next
    case (Suc k')
    have "\<not> stop i" using Cons.prems(2) Suc by (metis add.right_neutral zero_less_Suc)
    moreover have "nodeFrames stop (Suc i) (stream ms @ partial) = map (\<lambda>m. m @ [newline]) (take k' ms)"
      using Cons.prems Suc by (intro Cons.IH) auto
    ultimately show ?thesis using e Suc by (subst nodeFrames.simps) simp
  qed
qed

text \<open>C38: Messages that are sent over one connection arrive complete, in order and with their types: if the types fit the
  prefix and no content contains a newline, the stream of the written messages, followed by any unfinished
  message, is cut by the supervisor and by a node that is not stopped into exactly these messages, and splitting
  each one gives back its type and its content with the delimiter.\<close>

theorem stream_roundtrip:
  assumes ms: "\<forall>(t, c) \<in> set tcs. length t \<le> prefixMSGtypeLen \<and> CHR 0x00 \<notin> set t \<and> newline \<notin> set t \<and> newline \<notin> set c"
    and merged: "map (\<lambda>(t, c). MergeMessage t c) tcs = map Inr ms" and partial: "newline \<notin> set partial"
  shows "map SplitMessage (supervisorFrames (stream ms @ partial)) = map (\<lambda>(t, c). Inr (t, c @ [newline])) tcs \<and>
     nodeFrames (\<lambda>_. False) i (stream ms @ partial) = supervisorFrames (stream ms @ partial)"
proof -
  have len: "length ms = length tcs" using map_eq_imp_length_eq [OF merged] by simp
  have m: "ms ! j = fst (tcs ! j) @ replicate (prefixMSGtypeLen - length (fst (tcs ! j))) (CHR 0x00) @ snd (tcs ! j)"
    if "j < length tcs" for j
  proof -
    obtain t c where tc: "tcs ! j = (t, c)" by (cases "tcs ! j")
    then have "length t \<le> prefixMSGtypeLen" using ms that nth_mem [OF that] by auto
    moreover have "MergeMessage t c = Inr (ms ! j)"
      using arg_cong [OF merged, of "\<lambda>xs. xs ! j"] that len tc by simp
    ultimately show ?thesis using MergeMessage_fits [of t c] tc by simp
  qed
  have f: "length (fst (tcs ! j)) \<le> prefixMSGtypeLen" "CHR 0x00 \<notin> set (fst (tcs ! j))" "newline \<notin> set (fst (tcs ! j))"
      "newline \<notin> set (snd (tcs ! j))" if "j < length tcs" for j
    using ms nth_mem [OF that] by (auto simp: split_beta)
  have "newline \<notin> set (ms ! j)" if "j < length ms" for j
    using f [of j] m [of j] that len by (auto simp: newline_def)
  then have "\<forall>x \<in> set ms. newline \<notin> set x" by (metis in_set_conv_nth)
  note fr = supervisorFrames_stream [OF this partial] nodeFrames_prefix [OF this partial, of "length ms" "\<lambda>_. False" i]
  have "SplitMessage (ms ! j @ [newline]) = Inr (fst (tcs ! j), snd (tcs ! j) @ [newline])" if "j < length tcs" for j
    using f [OF that] m [OF that] by (auto simp: SplitMessage_def filter_id_conv)
  then have "map SplitMessage (map (\<lambda>m. m @ [newline]) ms) = map (\<lambda>(t, c). Inr (t, c @ [newline])) tcs"
    by (intro nth_equalityI) (simp_all add: len split_beta)
  then show ?thesis using fr by simp
qed

theorem stream_roundtrip_witness:
  "map SplitMessage (supervisorFrames (stream [''stop'' @ replicate 26 (CHR 0x00) @ ''x'', ''relay'' @ replicate 25 (CHR 0x00)] @ ''sto'')) =
     [Inr (''stop'', ''x'' @ [newline]), Inr (''relay'', [newline])]"
proof -
  have h: "\<forall>(t, c) \<in> set [(''stop'', ''x''), (''relay'', [])].
      length t \<le> prefixMSGtypeLen \<and> CHR 0x00 \<notin> set t \<and> newline \<notin> set t \<and> newline \<notin> set c"
    "map (\<lambda>(t, c). MergeMessage t c) [(''stop'', ''x''), (''relay'', [])] =
      map Inr [''stop'' @ replicate 26 (CHR 0x00) @ ''x'', ''relay'' @ replicate 25 (CHR 0x00)]"
    "newline \<notin> set ''sto''"
    using MergeMessage_fits [of "''stop''" "''x''"] MergeMessage_fits [of "''relay''" "[]"]
    by (simp_all add: prefixMSGtypeLen_def newline_def)
  from stream_roundtrip [OF h] show ?thesis by (simp)
qed

text \<open>The reading loop of \<open>ReadFromConn\<close> does not return once any chunk has arrived.\<close>

lemma drainBuffer_value:
  assumes "drainBuffer buf logs = Some r"
  shows False
  using assms
  by (rule drainBuffer.raw_induct [where P = "\<lambda>_ _ _. False", rotated]) (auto split: prod.splits)

lemma drainBuffer_never: "drainBuffer buf logs = None"
  using drainBuffer_value by (cases "drainBuffer buf logs") auto

lemma ReadFromConn_hangs: "ReadFromConn (chunk # reads) buf = None"
  by (simp add: drainBuffer_never)

section \<open>Stopping a node\<close>

text \<open>The part of a node its listening routine and its connections look at.\<close>

record 'c nodeIO =
  stopSignal :: bool
  connectionPool :: "string \<rightharpoonup> 'c"
  listening :: bool
  chainOpen :: bool

definition WaitToStop :: "'c nodeIO \<Rightarrow> 'c nodeIO" where
  "WaitToStop io =
     io\<lparr>stopSignal := True, connectionPool := fst (CloseAllConnInPool (connectionPool io)), listening := False,
        chainOpen := False\<rparr>"

text \<open>Accepting a connection that delivers \<open>s\<close>; the signal is read after every message.\<close>

definition TcpListen :: "'c nodeIO \<Rightarrow> bytes \<Rightarrow> bytes list" where
  "TcpListen io s = (if listening io then nodeFrames (\<lambda>_. stopSignal io) 0 s else [])"

lemma WaitToStop_silent:
  "TcpListen (WaitToStop io) s = []" "nodeFrames (\<lambda>_. stopSignal (WaitToStop io)) i s = []"
  by (simp_all add: TcpListen_def WaitToStop_def nodeFrames.simps split: option.splits)

lemma TcpListen_running:
  assumes "listening io" "\<not> stopSignal io" "\<forall>m \<in> set ms. newline \<notin> set m" "newline \<notin> set partial"
  shows "TcpListen io (stream ms @ partial) = map (\<lambda>m. m @ [newline]) ms"
  using nodeFrames_prefix [OF assms(3,4), of "length ms" "\<lambda>_. stopSignal io" 0] assms(1,2) by (simp add: TcpListen_def)

end
