(* ===== verification/Deployment.thy ===== *)
theory Deployment
  imports Supervisor Network OutsideModules
begin

text \<open>
  Configuration and start of the program: params/global\_config.go, params/static\_config.go,
  main.go and the package build (build.go, tool.go, io\_file\_helper.go).

  \<^item> The JSON files are read by the standard library: the configuration is the decoded
    struct, the table of addresses a list in the order in which its maps are visited.
  \<^item> The files that are written are a map from paths to contents; creating, removing and
    appending do not fail. The error an operation returns is \<open>Some\<close> its text.
  \<^item> \<open>int\<close> values are integers; \<open>uint64(n)\<close> is \<open>word_of_int n\<close>, \<open>int(w)\<close> is \<open>sint w\<close>.
\<close>

section \<open>Global parameters\<close>

record globalConfig =
  gc_ConsensusMethod :: int
  gc_PbftViewChangeTimeOut :: int
  gc_ExpDataRootDir :: string
  gc_BlockInterval :: int
  gc_BlocksizeInBytes :: int
  gc_MaxBlockSizeGlobal :: int
  gc_UseBlocksizeInBytes :: int
  gc_InjectSpeed :: int
  gc_TotalDataSize :: int
  gc_TxBatchSize :: int
  gc_BrokerNum :: int
  gc_RelayWithMerkleProof :: int
  gc_DatasetFile :: string
  gc_ReconfigTimeGap :: int
  gc_Delay :: int
  gc_JitterRange :: int
  gc_Bandwidth :: int

text \<open>The variables of the package, those the rest of the model reads in the records it reads them from.\<close>

record globals =
  NodesInShard :: int
  ConsensusMethod :: int
  PbftViewChangeTimeOut :: int
  Block_Interval :: int
  MaxBlockSize_global :: int
  ExpDataRootDir :: string
  DataWrite_path :: string
  LogWrite_path :: string
  DatabaseWrite_path :: string
  DatasetFile :: string
  SupervisorAddr :: string
  g_params :: params
  g_data :: dataParams
  g_net :: netParams

definition ReadConfigFile :: "globalConfig \<Rightarrow> globals \<Rightarrow> globals" where
  "ReadConfigFile config g =
     g\<lparr>ConsensusMethod := gc_ConsensusMethod config,
       PbftViewChangeTimeOut := gc_PbftViewChangeTimeOut config,
       ExpDataRootDir := gc_ExpDataRootDir config,
       DataWrite_path := gc_ExpDataRootDir config @ ''/result/'',
       LogWrite_path := gc_ExpDataRootDir config @ ''/log'',
       DatabaseWrite_path := gc_ExpDataRootDir config @ ''/database/'',
       Block_Interval := gc_BlockInterval config,
       MaxBlockSize_global := gc_MaxBlockSizeGlobal config,
       DatasetFile := gc_DatasetFile config,
       g_params := (g_params g)\<lparr>BlocksizeInBytes := gc_BlocksizeInBytes config,
         UseBlocksizeInBytes := gc_UseBlocksizeInBytes config, InjectSpeed := gc_InjectSpeed config,
         RelayWithMerkleProof := gc_RelayWithMerkleProof config\<rparr>,
       g_data := (g_data g)\<lparr>TotalDataSize := gc_TotalDataSize config, TxBatchSize := gc_TxBatchSize config,
         BrokerNum := gc_BrokerNum config, ReconfigTimeGap := gc_ReconfigTimeGap config\<rparr>,
       g_net := \<lparr>Delay = gc_Delay config, JitterRange = gc_JitterRange config, Bandwidth = gc_Bandwidth config\<rparr>\<rparr>"

definition CommitteeMethod :: "string list" where
  "CommitteeMethod = [''CLPA_Broker'', ''CLPA'', ''Broker'', ''Relay'']"

definition MeasureBrokerMod :: "string list" where
  "MeasureBrokerMod = [''TPS_Broker'', ''TCL_Broker'', ''CrossTxRate_Broker'', ''TxNumberCount_Broker'']"

definition MeasureRelayMod :: "string list" where
  "MeasureRelayMod = [''TPS_Relay'', ''TCL_Relay'', ''CrossTxRate_Relay'', ''TxNumberCount_Relay'']"

section \<open>The table of addresses\<close>

text \<open>\<open>strconv.ParseInt(str, 10, 64)\<close>, converted to \<open>uint64\<close>.\<close>

definition string2uint64 :: "string \<Rightarrow> u64 res" where
  "string2uint64 str =
     (case SetString10 str of
        Some i \<Rightarrow> if - (2 ^ 63) \<le> i \<and> i < 2 ^ 63 then Inr (word_of_int i) else Inl LogPanic
      | None \<Rightarrow> Inl LogPanic)"

definition readIpTable :: "(string \<times> (string \<times> string) list) list \<Rightarrow> ipTable res" where
  "readIpTable result =
     foldR (\<lambda>ipMap (shardIDStr, nodes).
       bindR (string2uint64 shardIDStr) (\<lambda>sid.
       bindR (foldR (\<lambda>m (nodeIDStr, ip). bindR (string2uint64 nodeIDStr) (\<lambda>nid. Inr (AList.update nid ip m))) [] nodes) (\<lambda>m.
         Inr (AList.update sid m ipMap)))) [] result"

section \<open>Starting a node or the supervisor\<close>

definition shardLen :: "ipTable \<Rightarrow> u64 \<Rightarrow> int" where
  "shardLen tbl sid = int (length (getOr [] (map_of tbl sid)))"

text \<open>The configuration of the chain and the parameters the call sets; \<open>len(ipMap)\<close> counts the keys.\<close>

definition initConfig :: "ipTable \<Rightarrow> globals \<Rightarrow> u64 \<Rightarrow> u64 \<Rightarrow> u64 \<Rightarrow> u64 \<Rightarrow> (ChainConfig \<times> globals) res" where
  "initConfig tbl g nid nnm sid snm =
     (if int (length tbl) - 1 < sint snm then Inl LogPanic
      else if \<exists>shardID \<in> set [0..<length tbl - 1]. shardLen tbl (word_of_nat shardID) < sint nnm then Inl LogPanic
      else
        let g = g\<lparr>SupervisorAddr := ipOf tbl SupervisorShard 0, NodesInShard := sint nnm,
                  g_params := (g_params g)\<lparr>ShardNum := sint snm\<rparr>, g_net := InitNetworkTools (g_net g)\<rparr>
        in Inr (\<lparr>cc_NodeID = nid, cc_ShardID = sid, Nodes_perShard = word_of_int (NodesInShard g), ShardNums = snm,
                 BlockSize = word_of_int (MaxBlockSize_global g)\<rparr>, g))"

text \<open>
  Go does not fix whether \<open>params.SupervisorAddr\<close> is read before or after the call of
  \<open>initConfig\<close> that writes it: \<open>early\<close> is that choice.
\<close>

definition BuildSupervisor :: "'f f64 \<Rightarrow> bool \<Rightarrow> ipTable \<Rightarrow> globals \<Rightarrow> u64 \<Rightarrow> u64 \<Rightarrow> ('f Supervisor \<times> globals) res" where
  "BuildSupervisor F early tbl g nnm snm =
     (let methodID = ConsensusMethod g;
          measureMod = (if methodID = 0 \<or> methodID = 2 then MeasureBrokerMod else MeasureRelayMod) @ [''Tx_Details'']
      in bindR (initConfig tbl g 123 nnm 123 snm) (\<lambda>(pcc, g').
         bindR (nthI CommitteeMethod methodID) (\<lambda>method.
         bindR (NewSupervisor F (g_params g') (g_data g') tbl (SupervisorAddr (if early then g else g')) pcc method measureMod) (\<lambda>d.
           Inr (d, g')))))"

text \<open>A new node comes with the pair of modules its method selects.\<close>

definition BuildNewPbftNode ::
  "('t, 'd, 's) env \<Rightarrow> ipTable \<Rightarrow> globals \<Rightarrow> 'd \<Rightarrow> 's \<Rightarrow> time \<Rightarrow> u64 \<Rightarrow> u64 \<Rightarrow> u64 \<Rightarrow> u64 \<Rightarrow>
   (('d, 's) pnode \<times> moduleKind \<times> globals) res" where
  "BuildNewPbftNode E tbl g db store now nid nnm sid snm =
     bindR (initConfig tbl g nid nnm sid snm) (\<lambda>(pcc, g).
     bindR (nthI CommitteeMethod (ConsensusMethod g)) (\<lambda>method.
     bindR (NewPbftNode E sid nid pcc tbl db store now) (\<lambda>p. Inr (p, selectModule method, g))))"

section \<open>Main\<close>

record flags =
  isGen :: bool
  isGenerateForExeFile :: bool
  isSupervisor :: bool
  shardNum :: int
  nodeNum :: int
  shardID :: int
  nodeID :: int

datatype launch = GenerateScripts bool int int | StartSupervisor u64 u64 | StartNode u64 u64 u64 u64

definition mainRun :: "flags \<Rightarrow> launch res" where
  "mainRun f =
     (if isGen f then Inr (GenerateScripts (isGenerateForExeFile f) (nodeNum f) (shardNum f))
      else if isSupervisor f then Inr (StartSupervisor (word_of_int (nodeNum f)) (word_of_int (shardNum f)))
      else if shardID f \<ge> shardNum f \<or> shardID f < 0 then Inl LogPanic
      else if nodeID f \<ge> nodeNum f \<or> nodeID f < 0 then Inl LogPanic
      else Inr (StartNode (word_of_int (nodeID f)) (word_of_int (nodeNum f)) (word_of_int (shardID f)) (word_of_int (shardNum f))))"

section \<open>Generating the start scripts\<close>

record fsys =
  fileUpToDataSet :: "string set"
  files :: "string \<rightharpoonup> string"

definition attachLineToFile :: "string \<Rightarrow> string \<Rightarrow> fsys \<Rightarrow> fsys" where
  "attachLineToFile filePath line fs =
     (let fs = (if filePath \<notin> fileUpToDataSet fs
                then fs\<lparr>files := (files fs)(filePath := None), fileUpToDataSet := insert filePath (fileUpToDataSet fs)\<rparr> else fs)
      in fs\<lparr>files := (files fs)(filePath \<mapsto> getOr [] (files fs filePath) @ line @ [newline])\<rparr>)"

text \<open>\<open>%d\<close> of a number.\<close>

fun showNat :: "nat \<Rightarrow> string" where
  "showNat n = (if n < 10 then [char_of (48 + n)] else showNat (n div 10) @ [char_of (48 + n mod 10)])"

declare showNat.simps [simp del]

definition showInt :: "int \<Rightarrow> string" where
  "showInt i = (if i < 0 then CHR ''-'' # showNat (nat (- i)) else showNat (nat i))"

text \<open>Up to the first colon; dots become underscores.\<close>

definition hostPart :: "string \<Rightarrow> string" where
  "hostPart ip = map (\<lambda>c. if c = CHR ''.'' then CHR ''_'' else c) (takeWhile (\<lambda>c. c \<noteq> CHR '':'') ip)"

text \<open>What the two generators differ in: the name of a file and the command.\<close>

record scriptFormat =
  filePrefix :: string
  fileSuffix :: string
  command :: string

definition goRunFormat :: "string \<Rightarrow> scriptFormat" where
  "goRunFormat os =
     (if os = ''windows'' then \<lparr>filePrefix = ''complie_run_IpAddr='', fileSuffix = ''.bat'', command = ''start cmd /k go run main.go''\<rparr>
      else \<lparr>filePrefix = ''complie_run_IpAddr='', fileSuffix = ''.sh'', command = ''go run main.go''\<rparr>)"

definition exeFormat :: "string \<Rightarrow> scriptFormat" where
  "exeFormat os =
     (if os = ''windows''
      then \<lparr>filePrefix = os @ ''_exe_run_IpAddr='', fileSuffix = ''.bat'', command = ''start cmd /k blockEmulator_Windows_Precompile.exe''\<rparr>
      else \<lparr>filePrefix = os @ ''_exe_run_IpAddr='', fileSuffix = ''.sh'', command = ''./blockEmulator_'' @ os @ ''_Precompile''\<rparr>)"

definition scriptFile :: "scriptFormat \<Rightarrow> string \<Rightarrow> string" where
  "scriptFile fm nodeIp = filePrefix fm @ hostPart nodeIp @ fileSuffix fm"

definition nodeCommand :: "scriptFormat \<Rightarrow> int \<Rightarrow> int \<Rightarrow> int \<Rightarrow> int \<Rightarrow> string" where
  "nodeCommand fm j nodenum i shardnum =
     command fm @ '' -n '' @ showInt j @ '' -N '' @ showInt nodenum @ '' -s '' @ showInt i @ '' -S '' @ showInt shardnum @ '' & '' @ [newline]"

definition supervisorCommand :: "scriptFormat \<Rightarrow> int \<Rightarrow> int \<Rightarrow> string" where
  "supervisorCommand fm nodenum shardnum =
     command fm @ '' -c -N '' @ showInt nodenum @ '' -S '' @ showInt shardnum @ '' & '' @ [newline]"

text \<open>A loop that stops at the first error; the files written so far stay.\<close>

fun loopErr :: "('s \<Rightarrow> 'a \<Rightarrow> 's \<times> string option) \<Rightarrow> 's \<Rightarrow> 'a list \<Rightarrow> 's \<times> string option" where
  "loopErr f s [] = (s, None)"
| "loopErr f s (x # xs) = (case f s x of (s, None) \<Rightarrow> loopErr f s xs | (s, Some e) \<Rightarrow> (s, Some e))"

definition genNode :: "scriptFormat \<Rightarrow> ipTable \<Rightarrow> int \<Rightarrow> int \<Rightarrow> int \<Rightarrow> fsys \<Rightarrow> int \<Rightarrow> fsys \<times> string option" where
  "genNode fm ipMap nodenum shardnum i fs j =
     (case map_of (getOr [] (map_of ipMap (word_of_int i))) (word_of_int j) of
        Some nodeIp \<Rightarrow> (attachLineToFile (scriptFile fm nodeIp) (nodeCommand fm j nodenum i shardnum) fs, None)
      | None \<Rightarrow> (fs, Some (''the node (shardID = '' @ showInt i @ '', nodeID = '' @ showInt j @ '') is not existed in the IP Table file'')))"

definition genShard :: "scriptFormat \<Rightarrow> ipTable \<Rightarrow> int \<Rightarrow> int \<Rightarrow> fsys \<Rightarrow> int \<Rightarrow> fsys \<times> string option" where
  "genShard fm ipMap nodenum shardnum fs i =
     (if map_of ipMap (word_of_int i) = None
      then (fs, Some (''the shard (shardID = '' @ showInt i @ '') is not existed in the IP Table file''))
      else loopErr (genNode fm ipMap nodenum shardnum i) fs [0..nodenum - 1])"

definition generateScripts :: "scriptFormat \<Rightarrow> ipTable \<Rightarrow> int \<Rightarrow> int \<Rightarrow> fsys \<Rightarrow> fsys \<times> string option" where
  "generateScripts fm ipMap nodenum shardnum fs =
     (case loopErr (genShard fm ipMap nodenum shardnum) fs [0..shardnum - 1] of
        (fs, Some e) \<Rightarrow> (fs, Some e)
      | (fs, None) \<Rightarrow>
          (case map_of (getOr [] (map_of ipMap 2147483647)) 0 of
             Some nodeIp \<Rightarrow> (attachLineToFile (scriptFile fm nodeIp) (supervisorCommand fm nodenum shardnum) fs, None)
           | None \<Rightarrow> (fs, Some ''the supervisor (shardID = 2147483647, nodeID = 0) is not existed in the IP Table file'')))"

definition GenerateBatchByIpTable :: "string \<Rightarrow> ipTable \<Rightarrow> int \<Rightarrow> int \<Rightarrow> fsys \<Rightarrow> fsys \<times> string option" where
  "GenerateBatchByIpTable os = generateScripts (goRunFormat os)"

definition GenerateExeBatchByIpTable :: "string \<Rightarrow> ipTable \<Rightarrow> int \<Rightarrow> int \<Rightarrow> fsys \<Rightarrow> fsys \<times> string option" where
  "GenerateExeBatchByIpTable os = generateScripts (exeFormat os)"

end
