(* ===== verification/DeploymentProps.thy ===== *)
theory DeploymentProps
  imports Deployment
begin

text \<open>
  Properties of the start of the program: what the generated scripts contain, and that the
  supervisor is built with the committee and the measurements of the configured method.
\<close>

section \<open>Writing lines\<close>

definition writeLines :: "fsys \<Rightarrow> (string \<times> string) list \<Rightarrow> fsys" where
  "writeLines fs ls = foldl (\<lambda>fs (p, l). attachLineToFile p l fs) fs ls"

text \<open>The lines of a file in order, each ended by a newline.\<close>

definition linesOf :: "string \<Rightarrow> (string \<times> string) list \<Rightarrow> string" where
  "linesOf f ls = concat (map (\<lambda>(p, l). l @ [newline]) (filter (\<lambda>(p, l). p = f) ls))"

lemma writeLines_append: "writeLines fs (xs @ ys) = writeLines (writeLines fs xs) ys"
  by (simp add: writeLines_def)

lemma writeLines_files:
  "fileUpToDataSet (writeLines fs ls) = fileUpToDataSet fs \<union> fst ` set ls \<and>
   files (writeLines fs ls) f =
     (if f \<in> fst ` set ls then Some ((if f \<in> fileUpToDataSet fs then getOr [] (files fs f) else []) @ linesOf f ls) else files fs f)"
proof (induction ls rule: rev_induct)
  case Nil
  then show ?case by (simp add: writeLines_def linesOf_def)
next
  case (snoc x ls)
  obtain p l where x: "x = (p, l)" by (cases x)
  have w: "writeLines fs (ls @ [x]) = attachLineToFile p l (writeLines fs ls)" by (simp add: writeLines_def x)
  show ?case
  proof (cases "p = f")
    case True
    have "linesOf f ls = []" if "f \<notin> fst ` set ls"
      using that by (force simp: linesOf_def filter_empty_conv)
    then show ?thesis using True snoc unfolding w by (auto simp: attachLineToFile_def Let_def x linesOf_def [of _ "_ @ _"])
        (auto simp: linesOf_def)
  next
    case False
    then show ?thesis using snoc unfolding w by (auto simp: attachLineToFile_def Let_def x linesOf_def)
  qed
qed

lemma loopErr_ok:
  assumes "\<And>fs x. x \<in> set xs \<Longrightarrow> step fs x = (writeLines fs (ls x), None)"
  shows "loopErr step fs xs = (writeLines fs (concat (map ls xs)), None)"
  using assms
proof (induction xs arbitrary: fs)
  case Nil
  then show ?case by (simp add: writeLines_def)
next
  case (Cons x xs)
  then show ?case by (simp add: writeLines_append)
qed

lemma loopErr_fails:
  assumes "x \<in> set xs" "\<And>fs. snd (step fs x) \<noteq> None"
  shows "snd (loopErr step fs xs) \<noteq> None"
  using assms(1)
proof (induction xs arbitrary: fs)
  case Nil
  then show ?case by simp
next
  case (Cons y xs)
  then show ?case using assms(2) [of fs] by (auto split: prod.splits option.splits)
qed

section \<open>What the scripts contain\<close>

text \<open>Every node of every shard and the supervisor have an address.\<close>

definition hasShard :: "ipTable \<Rightarrow> int \<Rightarrow> int \<Rightarrow> bool" where
  "hasShard tbl N i \<longleftrightarrow> map_of tbl (word_of_int i) \<noteq> None \<and>
     (\<forall>j \<in> {0..N - 1}. map_of (getOr [] (map_of tbl (word_of_int i))) (word_of_int j) \<noteq> None)"

definition completeTable :: "ipTable \<Rightarrow> int \<Rightarrow> int \<Rightarrow> bool" where
  "completeTable tbl N S \<longleftrightarrow> (\<forall>i \<in> {0..S - 1}. hasShard tbl N i) \<and>
     map_of (getOr [] (map_of tbl SupervisorShard)) 0 \<noteq> None"

text \<open>The commands with the files they belong to, in the order of the loops.\<close>

definition shardLines :: "scriptFormat \<Rightarrow> ipTable \<Rightarrow> int \<Rightarrow> int \<Rightarrow> int \<Rightarrow> (string \<times> string) list" where
  "shardLines fm tbl N S i =
     map (\<lambda>j. (scriptFile fm (ipOf tbl (word_of_int i) (word_of_int j)), nodeCommand fm j N i S)) [0..N - 1]"

definition scriptLines :: "scriptFormat \<Rightarrow> ipTable \<Rightarrow> int \<Rightarrow> int \<Rightarrow> (string \<times> string) list" where
  "scriptLines fm tbl N S =
     concat (map (shardLines fm tbl N S) [0..S - 1]) @
       [(scriptFile fm (ipOf tbl SupervisorShard 0), supervisorCommand fm N S)]"

lemma genShard_ok:
  assumes "hasShard tbl N i"
  shows "genShard fm tbl N S fs i = (writeLines fs (shardLines fm tbl N S i), None)"
proof -
  have "genNode fm tbl N S i fs j =
      (writeLines fs [(scriptFile fm (ipOf tbl (word_of_int i) (word_of_int j)), nodeCommand fm j N i S)], None)"
    if "j \<in> set [0..N - 1]" for fs j
  proof -
    obtain ip where "map_of (getOr [] (map_of tbl (word_of_int i))) (word_of_int j) = Some ip"
      using assms \<open>j \<in> set [0..N - 1]\<close> unfolding hasShard_def by (metis not_Some_eq set_upto)
    then show ?thesis by (simp add: genNode_def ipOf_def writeLines_def)
  qed
  from loopErr_ok [of "[0..N - 1]" "genNode fm tbl N S i" _ fs, OF this] show ?thesis
    using assms by (simp add: genShard_def hasShard_def shardLines_def)
qed

lemma genShard_fails: "\<not> hasShard tbl N i \<Longrightarrow> snd (genShard fm tbl N S fs i) \<noteq> None"
proof (cases "map_of tbl (word_of_int i)")
  case None
  then show ?thesis by (simp add: genShard_def)
next
  case (Some nodes)
  assume "\<not> hasShard tbl N i"
  then obtain j where j: "j \<in> set [0..N - 1]" "map_of nodes (word_of_int j) = None"
    using Some by (auto simp: hasShard_def)
  have "snd (genNode fm tbl N S i fs j) \<noteq> None" for fs using j(2) Some by (simp add: genNode_def)
  from loopErr_fails [OF j(1), of "genNode fm tbl N S i", OF this] show ?thesis
    using Some by (simp add: genShard_def)
qed

text \<open>C40: The generators succeed exactly when the table names every node of every shard and the supervisor; then every file
  of the run holds exactly the start commands of the nodes on its host, in the order of shards and nodes, the
  supervisor last - one command per node - and what the file held before is gone; no other file is touched.\<close>

theorem scripts_start_everything:
  assumes new: "fileUpToDataSet fs = {}" and fm: "fm = goRunFormat os \<and> gen = GenerateBatchByIpTable os \<or>
      fm = exeFormat os \<and> gen = GenerateExeBatchByIpTable os"
  shows "(snd (gen tbl N S fs) = None \<longleftrightarrow> completeTable tbl N S) \<and>
     (completeTable tbl N S \<longrightarrow>
        (\<forall>f. files (fst (gen tbl N S fs)) f =
           (if f \<in> fst ` set (scriptLines fm tbl N S) then Some (linesOf f (scriptLines fm tbl N S)) else files fs f)))"
proof -
  have gen: "gen = generateScripts fm" using fm by (auto simp: GenerateBatchByIpTable_def GenerateExeBatchByIpTable_def)
  have sup: "(2147483647 :: u64) = SupervisorShard" by (simp add: SupervisorShard_def)
  have ok: "gen tbl N S fs = (writeLines fs (scriptLines fm tbl N S), None)" if c: "completeTable tbl N S"
  proof -
    have sh: "genShard fm tbl N S fs i = (writeLines fs (shardLines fm tbl N S i), None)" if "i \<in> set [0..S - 1]" for fs i
      using c that by (intro genShard_ok) (auto simp: completeTable_def)
    have l: "loopErr (genShard fm tbl N S) fs [0..S - 1] =
        (writeLines fs (concat (map (shardLines fm tbl N S) [0..S - 1])), None)"
      by (rule loopErr_ok) (rule sh)
    obtain ip where "map_of (getOr [] (map_of tbl SupervisorShard)) 0 = Some ip" using c by (auto simp: completeTable_def)
    then show ?thesis
      unfolding gen generateScripts_def sup scriptLines_def writeLines_append by (simp add: l ipOf_def) (simp add: writeLines_def)
  qed
  have bad: "snd (gen tbl N S fs) \<noteq> None" if c: "\<not> completeTable tbl N S"
  proof (cases "\<forall>i \<in> {0..S - 1}. hasShard tbl N i")
    case True
    then have "map_of (getOr [] (map_of tbl SupervisorShard)) 0 = None" using c by (simp add: completeTable_def)
    then show ?thesis unfolding gen generateScripts_def sup by (auto split: prod.splits option.splits)
  next
    case False
    then obtain i where i: "i \<in> set [0..S - 1]" "\<not> hasShard tbl N i" by auto
    from loopErr_fails [OF i(1), of "genShard fm tbl N S" fs] genShard_fails [OF i(2)]
    have "snd (loopErr (genShard fm tbl N S) fs [0..S - 1]) \<noteq> None" by blast
    then show ?thesis unfolding gen generateScripts_def by (auto split: prod.splits option.splits)
  qed
  show ?thesis
  proof (cases "completeTable tbl N S")
    case True
    then show ?thesis using ok writeLines_files [of fs "scriptLines fm tbl N S"] new by simp
  next
    case False
    then show ?thesis using bad by simp
  qed
qed

theorem scripts_start_everything_witness:
  "let tbl = [(0, [(0, ''127.0.0.1:3''), (1, ''10.0.0.2:4'')]), (2147483647, [(0, ''127.0.0.1:9'')])];
       fs = \<lparr>fileUpToDataSet = {}, files = Map.empty\<rparr>
   in snd (GenerateBatchByIpTable ''linux'' tbl 2 1 fs) = None \<and>
      snd (GenerateBatchByIpTable ''linux'' tbl 2 2 fs) \<noteq> None \<and>
      files (fst (GenerateBatchByIpTable ''linux'' tbl 2 1 fs)) ''complie_run_IpAddr=10_0_0_2.sh'' =
        Some (''go run main.go -n 1 -N 2 -s 0 -S 1 & '' @ [newline, newline])"
proof -
  define tbl :: ipTable where "tbl = [(0, [(0, ''127.0.0.1:3''), (1, ''10.0.0.2:4'')]), (2147483647, [(0, ''127.0.0.1:9'')])]"
  define fs where "fs = \<lparr>fileUpToDataSet = {}, files = Map.empty\<rparr>"
  have u: "[0..1] = [0, 1::int]" by (simp add: upto.simps)
  have n: "showInt 0 = ''0''" "showInt 1 = ''1''" "showInt 2 = ''2''" by (simp_all add: showInt_def showNat.simps char_of_def bit_Suc_0_iff)
  have "{0..1} = {0, 1::int}" by auto
  then have c: "completeTable tbl 2 1" by (simp add: completeTable_def hasShard_def tbl_def SupervisorShard_def)
  have c': "\<not> completeTable tbl 2 2" by (auto simp: completeTable_def hasShard_def tbl_def intro!: bexI [of _ 1])
  have l: "scriptLines (goRunFormat ''linux'') tbl 2 1 =
     [(''complie_run_IpAddr=127_0_0_1.sh'', nodeCommand (goRunFormat ''linux'') 0 2 0 1),
      (''complie_run_IpAddr=10_0_0_2.sh'', nodeCommand (goRunFormat ''linux'') 1 2 0 1),
      (''complie_run_IpAddr=127_0_0_1.sh'', supervisorCommand (goRunFormat ''linux'') 2 1)]"
    by (simp add: scriptLines_def shardLines_def u scriptFile_def goRunFormat_def tbl_def ipOf_def SupervisorShard_def hostPart_def)
  have f: "linesOf ''complie_run_IpAddr=10_0_0_2.sh'' (scriptLines (goRunFormat ''linux'') tbl 2 1) =
      ''go run main.go -n 1 -N 2 -s 0 -S 1 & '' @ [newline, newline]"
    unfolding l linesOf_def by (simp add: nodeCommand_def goRunFormat_def n)
  have new: "fileUpToDataSet fs = {}" by (simp add: fs_def)
  have fm: "goRunFormat ''linux'' = goRunFormat ''linux'' \<and> GenerateBatchByIpTable ''linux'' = GenerateBatchByIpTable ''linux'' \<or>
      goRunFormat ''linux'' = exeFormat ''linux'' \<and> GenerateBatchByIpTable ''linux'' = GenerateExeBatchByIpTable ''linux''" by blast
  have "''complie_run_IpAddr=10_0_0_2.sh'' \<in> fst ` set (scriptLines (goRunFormat ''linux'') tbl 2 1)" unfolding l by simp
  with scripts_start_everything [OF new fm, of tbl 2 1] scripts_start_everything [OF new fm, of tbl 2 2] c c' f show ?thesis
    unfolding Let_def fs_def [symmetric] tbl_def [symmetric] by simp
qed

end
