(* ===== verification/SystemProps.thy ===== *)
theory SystemProps
  imports DeploymentProps TransferProps SupervisorProps
begin

text \<open>
  Properties of the program as it is started: the supervisor with the committee and the
  measurements of the configured method, the nodes with the modules they select, and the
  reports the nodes send to the supervisor.
\<close>

section \<open>What nodes report\<close>

text \<open>The block reports among the messages name no broker transactions.\<close>

definition plainReports :: "outs \<Rightarrow> bool" where
  "plainReports os \<longleftrightarrow> (\<forall>ip b. (ip, WBlockInfo b) \<in> set os \<longrightarrow> Broker1Txs b = [] \<and> Broker2Txs b = [])"

lemma plainReports_simps [simp]:
  "plainReports []"
  "plainReports (os @ os') \<longleftrightarrow> plainReports os \<and> plainReports os'"
  "plainReports ((ip, w) # os) \<longleftrightarrow>
     (\<forall>b. w = WBlockInfo b \<longrightarrow> Broker1Txs b = [] \<and> Broker2Txs b = []) \<and> plainReports os"
  by (auto simp: plainReports_def)

lemma plainReports_toAll:
  assumes "\<And>b. w \<noteq> WBlockInfo b"
  shows "plainReports (toAll w p)" "plainReports (broadcastShard p w)"
  using assms by (auto simp: plainReports_def toAll_def broadcastShard_def Broadcast_def)

text \<open>What a module may send when it commits and proposes.\<close>

locale plain_module =
  fixes ihm :: "('d, 's) ihm"
  assumes commit_plain: "HandleinCommit ihm sch c p = Inr (p', os) \<Longrightarrow> plainReports os"
    and propose_plain: "HandleinPropose ihm sch phase p = Inr (r, p', os) \<Longrightarrow> plainReports os"
begin

lemma commit_step_plain:
  assumes "handleCommit ihm sch c ptr v p = Some (Inr (p', os))"
  shows "plainReports os"
proof -
  have e: "endRound now (q, o1) = Inr (p', os) \<Longrightarrow> plainReports o1 \<Longrightarrow> plainReports os" for now q o1
    by (auto simp: endRound_def Let_def split: if_splits)
  have a: "plainReports (snd (askForOld c q))" for q :: "('d, 's) pnode" by (simp add: askForOld_def Let_def)
  show ?thesis
  proof (cases "os = []")
    case False
    define q where "q = set2DMap False (c_Digest c) ptr p"
    consider "endRound (s_now sch) (askForOld c q) = Inr (p', os)"
      | q1 o1 where "HandleinCommit ihm sch c q = Inr (q1, o1)"
          "endRound (s_now sch) (q1\<lparr>isReply := insert (c_Digest c) (isReply q1), sequenceID := sequenceID q1 + 1\<rparr>, o1) = Inr (p', os)"
      using assms False unfolding handleCommit_def Let_def q_def [symmetric]
      by (auto simp: res_simps split: if_splits)
    then show ?thesis using e a commit_plain by cases (metis prod.collapse, blast)
  qed simp
qed

lemma prePrepare_plain:
  assumes "handlePrePrepare E ihm m v p = Some (Inr (p', os))"
  shows "plainReports os"
  using assms by (auto simp: handlePrePrepare_def Let_def res_simps prepareMsg_def plainReports_toAll split: if_splits)

lemma prepare_plain:
  assumes "handlePrepare ihm m ptr v p = Some (Inr (p', os))"
  shows "plainReports os"
  using assms by (auto simp: handlePrepare_def Let_def plainReports_toAll split: if_splits)

lemma propose_step_plain:
  assumes "proposeRound E ihm sch phase p = Some (Inr (n, p', os))"
  shows "plainReports os"
proof -
  define q where "q = (if phase = 1 then p\<lparr>sequenceLocked := True\<rparr> else p)"
  have f: "plainReports (snd (proposeFinish E r q1))" for r and q1 :: "('d, 's) pnode"
    by (simp add: proposeFinish_def Let_def plainReports_toAll)
  show ?thesis
  proof (cases "HandleinPropose ihm sch (phase - 1) q")
    case (Inl e)
    then show ?thesis
      using assms unfolding proposeRound_def Let_def q_def [symmetric] by (auto split: if_splits)
  next
    case (Inr y)
    obtain r q1 o1 where y: "y = (r, q1, o1)" by (cases y)
    have "os = [] \<or> os = o1 \<or> (\<exists>req. os = o1 @ snd (proposeFinish E req q1))"
      using assms Inr unfolding proposeRound_def Let_def q_def [symmetric] y
      by (cases r) (auto split: if_splits prod.splits, (metis snd_conv)+)
    then show ?thesis using f propose_plain [of sch "phase - 1" q r q1 o1] Inr y by auto
  qed
qed

lemma sendOld_plain:
  assumes "handleSendOldSeq E ihm som p = Inr (p', os)"
  shows "plainReports os"
  using assms by (auto simp: handleSendOldSeq_def Let_def res_simps prepareMsg_def plainReports_toAll
      split: if_splits option.splits)

lemma receive_plain:
  assumes "handleMessage E ihm now ptr m p = Inr (t, p', os)"
  shows "plainReports os"
proof (cases m)
  case (WRequestOld x)
  then show ?thesis using assms by (auto simp: handleMessage_def handleRequestOldSeq_def Let_def split: if_splits)
next
  case (WViewChange x)
  then show ?thesis using assms
    by (auto simp: handleMessage_def handleViewChangeMsg_def Let_def res_simps plainReports_toAll split: if_splits)
next
  case (WSendOld x)
  then show ?thesis using assms sendOld_plain by (auto simp: handleMessage_def res_simps)
qed (use assms in \<open>auto simp: handleMessage_def\<close>)

end

section \<open>The relay modules report no broker transactions\<close>

lemma plainReports_map: "(\<And>x b. w x \<noteq> WBlockInfo b) \<Longrightarrow> plainReports (map (\<lambda>x. (ip x, w x)) xs)"
  by (induction xs) auto

lemma RelayMsgSend_plain: "RelayMsgSend cfg p = Inr (p', os) \<Longrightarrow> plainReports os"
  by (auto simp: RelayMsgSend_def plainReports_map split: if_splits)

lemma RelayWithProofSend_plain:
  assumes "RelayWithProofSend E cfg b p = Inr (p', os)"
  shows "plainReports os"
proof -
  define f where "f = (\<lambda>os sid. bindR (TxProofBatchGenerateOnBlock E (map TxHash (relayTxsTo p sid)) b) (\<lambda>txProofs.
      Inr (os @ [(ipOf (ip_nodeTable p) sid 0, WRelayWithProof \<lparr>rwp_Txs = relayTxsTo p sid, TxProofs = txProofs,
        rwp_SenderShardID = n_ShardID p, rwp_SenderSeq = sequenceID p\<rparr>)])))"
  have "foldR f [] (otherShards p) = Inr os"
    using assms by (auto simp: RelayWithProofSend_def f_def [symmetric] res_simps split: if_splits)
  then show ?thesis
    by (rule foldR_invariant [of _ plainReports f "[]", rotated 2]) (auto simp: f_def res_simps)
qed

lemma relayReport_sends:
  assumes "relayReport E cfg strict epoch sch r b p = Inr (p', os)"
  shows "\<exists>ip bim. (ip, WBlockInfo bim) \<in> set os \<and> BlockBodyLength bim = length (Body b)" and "plainReports os"
proof -
  define q where "q = onPool (\<lambda>pool. pool\<lparr>RelayPool := Some Map.empty\<rparr>) p"
  obtain pool q' o1 bim c where s: "(if RelayWithMerkleProof cfg = 1 then RelayWithProofSend E cfg b (onPool (\<lambda>_. pool) q)
      else RelayMsgSend cfg (onPool (\<lambda>_. pool) q)) = Inr (q', o1)"
    and os: "os = o1 @ [(ipOf (ip_nodeTable q') SupervisorShard 0, WBlockInfo bim), ('''', WCsvLine c)]"
    and b: "Broker1Txs bim = []" "Broker2Txs bim = []" "BlockBodyLength bim = length (Body b)"
    using assms unfolding relayReport_def Let_def q_def [symmetric] by (auto simp: res_simps csvLine_def)
  have "plainReports o1" using s RelayMsgSend_plain RelayWithProofSend_plain by (metis (full_types))
  then show "plainReports os" using os b by simp
  show "\<exists>ip bim. (ip, WBlockInfo bim) \<in> set os \<and> BlockBodyLength bim = length (Body b)"
    using os b by auto
qed

lemma relayCommit_plain: "relayCommit E cfg strict epoch sch r p = Inr (p', os) \<Longrightarrow> plainReports os"
  by (auto simp: relayCommit_def res_simps dest: relayReport_sends(2) split: if_splits)

lemma proposeBlock_plain: "proposeBlock E cfg sch p = Inr (r, p', os) \<Longrightarrow> plainReports os"
  by (auto simp: proposeBlock_def res_simps)

lemma sendOne_plain: "plainReports (snd po) \<Longrightarrow> plainReports (snd (foldl (sendOne m fetched) po is))"
  by (induction "is" arbitrary: po) (auto simp: sendOne_def Let_def split: prod.splits)

lemma sendAccounts_plain:
  assumes "sendAccounts_and_Txs E cfg p = Inr (p', os)"
  shows "plainReports os"
proof -
  obtain m fs where "foldl (sendOne m fs) (p, []) (otherShards p) = (p', os)"
    using assms by (auto simp: sendAccounts_and_Txs_def res_simps)
  then show ?thesis using sendOne_plain [of "(p, [])" m fs "otherShards p"] by simp
qed

lemma proposeCLPA_plain: "proposeCLPA E cfg sch p = Inr (r, p', os) \<Longrightarrow> plainReports os"
  by (auto simp: proposeCLPA_def proposePartition_def transferRequest_def Let_def res_simps
      dest: proposeBlock_plain sendAccounts_plain split: if_splits)

interpretation clpa: plain_module "moduleOf KCLPA E cfg" for E :: "('t, 'd, 's) env" and cfg
  by unfold_locales
    (auto simp: moduleOf_def clpaMod_def onRequest_def res_simps dest: relayCommit_plain proposeCLPA_plain split: if_splits)

interpretation relay: plain_module "moduleOf KRelay E cfg" for E :: "('t, 'd, 's) env" and cfg
  by unfold_locales
    (auto simp: moduleOf_def relayMod_def onRequest_def res_simps dest: relayCommit_plain proposeBlock_plain)

lemma nodeStep_plain:
  assumes "nodeStep KCLPA E cfg p os p'"
  shows "plainReports os"
  using assms
proof cases
  case (receive now ptr m t)
  then show ?thesis by (rule clpa.receive_plain)
next
  case (task sch v t)
  then show ?thesis
    by (cases t) (auto simp: runTask_def res_simps dest: clpa.prePrepare_plain clpa.prepare_plain clpa.commit_step_plain)
next
  case (propose sch phase n)
  then show ?thesis by (rule clpa.propose_step_plain)
next
  case sync
  then show ?thesis by (simp add: syncOuts_def SendPartitionReady_def partitionReadyMsg_def plainReports_toAll)
next
  case (tick timeout now now2 now3 b m m')
  then show ?thesis
    by (auto simp: monitorTick_def viewChangePropose_def Let_def res_simps plainReports_toAll split: if_splits)
qed

section \<open>The committee and the nodes of a configuration\<close>

lemma supervisor_committee:
  assumes "BuildSupervisor F early tbl g nnm snm = Inr (d, gs)"
  shows "case comMod d of C_CLPA_Broker _ \<Rightarrow> ConsensusMethod g = 0 | C_CLPA _ \<Rightarrow> ConsensusMethod g = 1
    | C_Broker _ \<Rightarrow> ConsensusMethod g = 2 | C_Relay _ \<Rightarrow> ConsensusMethod g = 3"
proof -
  define names where "names = (if ConsensusMethod g = 0 \<or> ConsensusMethod g = 2 then MeasureBrokerMod else MeasureRelayMod) @ [''Tx_Details'']"
  obtain x where x: "initConfig tbl g 123 nnm 123 snm = Inr x"
    using assms by (cases "initConfig tbl g 123 nnm 123 snm") (simp_all add: BuildSupervisor_def Let_def)
  obtain pcc g' where x': "x = (pcc, g')" by (cases x)
  obtain mth where m: "nthI CommitteeMethod (ConsensusMethod g) = Inr mth"
    using assms x x' by (cases "nthI CommitteeMethod (ConsensusMethod g)") (simp_all add: BuildSupervisor_def Let_def)
  have d: "NewSupervisor F (g_params g') (g_data g') tbl (SupervisorAddr (if early then g else g')) pcc mth names = Inr d"
    using assms x x' m unfolding BuildSupervisor_def Let_def names_def [symmetric] by (auto simp: res_simps)
  have "0 \<le> ConsensusMethod g" "ConsensusMethod g < 4" "CommitteeMethod ! nat (ConsensusMethod g) = mth"
    using m by (auto simp: res_simps CommitteeMethod_def)
  then have "ConsensusMethod g = 0 \<and> mth = ''CLPA_Broker'' \<or> ConsensusMethod g = 1 \<and> mth = ''CLPA'' \<or>
      ConsensusMethod g = 2 \<and> mth = ''Broker'' \<or> ConsensusMethod g = 3 \<and> mth = ''Relay''"
  proof -
    assume r: "0 \<le> ConsensusMethod g" "ConsensusMethod g < 4" and n: "CommitteeMethod ! nat (ConsensusMethod g) = mth"
    have "ConsensusMethod g = 0 \<or> ConsensusMethod g = 1 \<or> ConsensusMethod g = 2 \<or> ConsensusMethod g = 3" using r by arith
    then show ?thesis using n by (elim disjE) (simp_all add: CommitteeMethod_def)
  qed
  then show ?thesis
    using d by (elim disjE conjE) (auto simp: NewSupervisor_def newCommittee_def mapR_def res_simps)
qed

lemma node_module:
  assumes "BuildNewPbftNode E tbl g db store now nid nnm sid snm = Inr (p, kind, g')"
  shows "kind = KCLPA"
  using assms by (auto simp: BuildNewPbftNode_def res_simps selectModule_def Let_def)

lemma plain_report_unanswered:
  assumes "Broker1Txs b = []" "Broker2Txs b = []"
  shows "committee_HandleBlockInfo E dg cfg tbl clk b (C_Broker m) = Inr (C_Broker m, [])"
    and "committee_HandleBlockInfo E dg cfg tbl clk b (C_CLPA_Broker mb) = Inr (cm, os) \<Longrightarrow> os = []"
  using assms
  by (auto simp: committee_HandleBlockInfo_def broker_HandleBlockInfo_def cb_HandleBlockInfo_def cb_createConfirm_def
      createConfirm_def List.map_filter_def mapR_def Let_def res_simps split: if_splits)

text \<open>C35: The supervisor runs the committee of the configured method, a node always the CLPA modules. So with a broker
  method the two do not fit: no report a started node ever sends names a broker transaction, the broker
  committees answer none of them, and the second half of a transfer through a broker is never sent.\<close>

theorem started_brokers_never_confirmed:
  assumes sup: "BuildSupervisor F early tbl g nnm snm = Inr (d, gs)"
    and node: "BuildNewPbftNode E tbl g db store now nid nnm sid snm = Inr (p0, kind, gn)"
    and step: "nodeStep kind E cfg p os p'" and report: "(ip, WBlockInfo b) \<in> set os"
  shows "(case comMod d of C_CLPA_Broker _ \<Rightarrow> ConsensusMethod g = 0 | C_CLPA _ \<Rightarrow> ConsensusMethod g = 1
      | C_Broker _ \<Rightarrow> ConsensusMethod g = 2 | C_Relay _ \<Rightarrow> ConsensusMethod g = 3) \<and> kind = KCLPA \<and>
    (\<forall>m. committee_HandleBlockInfo E dg cfg tbl clk b (C_Broker m) = Inr (C_Broker m, [])) \<and>
    (\<forall>m cm os'. committee_HandleBlockInfo E dg cfg tbl clk b (C_CLPA_Broker m) = Inr (cm, os') \<longrightarrow> os' = [])"
proof -
  have k: "kind = KCLPA" using node_module [OF node] .
  then have "Broker1Txs b = []" "Broker2Txs b = []"
    using nodeStep_plain [OF step [unfolded k]] report unfolding plainReports_def by blast+
  then show ?thesis using supervisor_committee [OF sup] k plain_report_unanswered by blast
qed

text \<open>A leader about to commit a block of two transactions, and a table of two shards.\<close>

definition sampleCommitting :: mnode where
  "sampleCommitting = sampleLeader\<lparr>pbftStage := 3, malicious_nums := 0, sequenceLocked := True,
     requestPool := [''r'' \<mapsto> \<lparr>reqType = BlockRequest, Content = encB modelEnv sampleMixed, ReqTime = 0\<rparr>]\<rparr>"

lemma sampleCommitting_step:
  "\<exists>p' os ip b. nodeStep KCLPA modelEnv sampleCfg sampleCommitting os p' \<and> (ip, WBlockInfo b) \<in> set os \<and> BlockBodyLength b = 2"
proof -
  define q where "q = set2DMap False (c_Digest sampleCommit) 5 sampleCommitting"
  have c: "c_Digest sampleCommit = ''r''" "c_SeqID sampleCommit = 1" "s_now PbftProps.sampleSched = 9"
    by (simp_all add: sampleCommit_def PbftProps.sampleSched_def)
  define r where "r = \<lparr>reqType = BlockRequest, Content = encB modelEnv sampleMixed, ReqTime = 0\<rparr>"
  have q: "CurChain q = sampleChain" "isLeader q" "sequenceLocked q" "n_ShardID q = 0" "isReply q = {}" "cdm q = NewCLPADataSupport"
    "requestPool q ''r'' = Some r" "quorum q = 1" "cntCommitConfirm q ''r'' = {5}" "ip_nodeTable q = ip_nodeTable sampleLeader"
    by (simp_all add: q_def c r_def set2DMap_def sampleCommitting_def sampleLeader_def sampleNode_def isLeader_def quorum_def)
  have "\<not> accepts sampleMixed sampleChain" by (simp add: accepts_def sampleMixed_def sampleChain_def genesis_fields)
  from AddBlock_rejects [OF this, of modelEnv sampleCfg] have add: "addRequestBlock modelEnv sampleCfg r q = Inr (sampleMixed, q)"
    using q(1) [symmetric] by (simp add: addRequestBlock_def r_def modelEnv_ops)
  have "isOk (relayReport modelEnv sampleCfg False (sint (AccountTransferRound (cdm q))) PbftProps.sampleSched r sampleMixed q)"
    using q by (simp add: relayReport_def sampleMixed_def sampleCross_def sampleTxs_def NewTransaction_fields relayTx_def
        sampleChain_def Get_PartitionMap_def onPool_def AddRelayTx_def sampleCfg_def RelayMsgSend_def Let_def)
  then obtain p1 os where h: "relayReport modelEnv sampleCfg False (sint (AccountTransferRound (cdm q))) PbftProps.sampleSched r sampleMixed q = Inr (p1, os)"
    by (auto simp: isOk_iff)
  have "isLeader p1" "sequenceLocked p1" using relayReport_moved [OF h] q(2,3) by (simp_all add: moved_fields isLeader_def)
  then have "\<exists>p'. endRound 9 (p1\<lparr>isReply := insert ''r'' (isReply p1), sequenceID := sequenceID p1 + 1\<rparr>, os) = Inr (p', os)"
    by (simp add: endRound_def isLeader_def)
  moreover have "HandleinCommit (moduleOf KCLPA modelEnv sampleCfg) PbftProps.sampleSched sampleCommit q = Inr (p1, os)"
    using q(2,7) add h by (simp add: moduleOf_def clpaMod_def onRequest_def relayCommit_def sampleCommit_def r_def)
  moreover have "\<not> mustWait 3 1 0 sampleCommitting" "\<not> outOfDate 1 0 sampleCommitting"
    by (simp_all add: mustWait_def outOfDate_def sampleCommitting_def sampleLeader_def sampleNode_def)
  ultimately have "\<exists>p'. runTask KCLPA modelEnv sampleCfg PbftProps.sampleSched 0 (TCommit sampleCommit 5) sampleCommitting = Some (Inr (p', os))"
    unfolding runTask_def task.case handleCommit_def Let_def q_def [symmetric] using q c by simp
  then obtain p' where "nodeStep KCLPA modelEnv sampleCfg sampleCommitting os p'" using nodeStep.task by blast
  moreover obtain ip b where "(ip, WBlockInfo b) \<in> set os" "BlockBodyLength b = length (Body sampleMixed)"
    using relayReport_sends [OF h] by blast
  moreover have "length (Body sampleMixed) = 2" by (simp add: sampleMixed_def)
  ultimately show ?thesis by metis
qed

definition sampleTable :: ipTable where
  "sampleTable = [(0, [(0, ''a''), (1, ''b''), (2, ''c''), (3, ''d'')]), (1, [(0, ''e''), (1, ''f''), (2, ''g''), (3, ''h'')]),
     (SupervisorShard, [(0, ''s'')])]"

definition sampleGlobals :: globals where
  "sampleGlobals = \<lparr>NodesInShard = 4, ConsensusMethod = 2, PbftViewChangeTimeOut = 10000, Block_Interval = 5000,
     MaxBlockSize_global = 2, ExpDataRootDir = '''', DataWrite_path = '''', LogWrite_path = '''', DatabaseWrite_path = '''',
     DatasetFile = '''', SupervisorAddr = '''', g_params = sampleCfg, g_data = SupervisorProps.sampleData,
     g_net = \<lparr>Delay = 0, JitterRange = 0, Bandwidth = 0\<rparr>\<rparr>"

lemma sampleGlobals_init: "\<exists>g'. initConfig sampleTable sampleGlobals nid 4 sid 2 =
    Inr (\<lparr>cc_NodeID = nid, cc_ShardID = sid, Nodes_perShard = 4, ShardNums = 2, BlockSize = 2\<rparr>, g') \<and> ConsensusMethod g' = 2"
  by (simp add: initConfig_def sampleTable_def sampleGlobals_def shardLen_def upt_conv_Cons SupervisorShard_def Let_def)

theorem started_brokers_never_confirmed_witness:
  "\<exists>(d :: rat Supervisor) m p0 gs gn p' os ip b.
     BuildSupervisor ratScores False sampleTable sampleGlobals 4 2 = Inr (d, gs) \<and> comMod d = C_Broker m \<and>
     BuildNewPbftNode modelEnv sampleTable sampleGlobals sampleDb Map.empty 0 0 4 0 2 = Inr (p0, KCLPA, gn) \<and>
     nodeStep KCLPA modelEnv sampleCfg sampleCommitting os p' \<and> (ip, WBlockInfo b) \<in> set os \<and> BlockBodyLength b = 2 \<and>
     committee_HandleBlockInfo modelEnv rm_Broker sampleCfg sampleTable (\<lambda>_. 0) b (C_Broker m :: rat committeeMod) = Inr (C_Broker m, [])"
proof -
  obtain s where "NewBlockChain modelEnv sampleCC sampleDb Map.empty = Inr (sampleFresh s)"
    using sample_newchain by blast
  then obtain p0 where p0: "NewPbftNode modelEnv 0 0 sampleCC sampleTable sampleDb Map.empty 0 = Inr p0"
    by (auto simp: NewPbftNode_def)
  obtain gn where "initConfig sampleTable sampleGlobals 0 4 0 2 = Inr (sampleCC, gn)" "ConsensusMethod gn = 2"
    using sampleGlobals_init [of 0 0] by (auto simp: sampleCC_def)
  then have n: "BuildNewPbftNode modelEnv sampleTable sampleGlobals sampleDb Map.empty 0 0 4 0 2 = Inr (p0, KCLPA, gn)"
    using p0 by (simp add: BuildNewPbftNode_def nthI_def CommitteeMethod_def selectModule_def)
  obtain pcc gs where "initConfig sampleTable sampleGlobals 123 4 123 2 = Inr (pcc, gs)"
    using sampleGlobals_init [of 123 123] by blast
  then obtain d where s: "BuildSupervisor ratScores False sampleTable sampleGlobals 4 2 = Inr (d, gs)"
    by (simp add: BuildSupervisor_def Let_def nthI_def CommitteeMethod_def NewSupervisor_def newCommittee_def sampleGlobals_def)
  obtain p' os ip b where st: "nodeStep KCLPA modelEnv sampleCfg sampleCommitting os p'" "(ip, WBlockInfo b) \<in> set os" "BlockBodyLength b = 2"
    using sampleCommitting_step by blast
  note t = started_brokers_never_confirmed [OF s n st(1,2), where dg = rm_Broker and clk = "\<lambda>_. 0"]
  then obtain m where "comMod d = C_Broker m" by (cases "comMod d") (auto simp: sampleGlobals_def)
  then show ?thesis using s n st t by (intro exI conjI) (assumption | blast)+
qed

end
