(* ===== verification/Queries.thy ===== *)
theory Queries
  imports ChainProps
begin

text \<open>
  Queries on the database of a node (query/query\_block.go, query/query\_accountstate.go).
  The paths of the databases are gone: a query takes the store and the state database it
  opens. \<open>forEach s b\<close> lists the pairs of the bucket \<open>b\<close> in the order of bolt's
  \<open>ForEach\<close>; that it lists exactly the pairs of the bucket of blocks, each key once,
  is \<open>scans\<close>.
\<close>

definition scans :: "('t, 'd, 's) env \<Rightarrow> ('s \<Rightarrow> bytes \<Rightarrow> (bytes \<times> bytes) list) \<Rightarrow> 's \<Rightarrow> bool" where
  "scans E forEach s \<longleftrightarrow>
     distinct (map fst (forEach s blockBucket)) \<and> map_of (forEach s blockBucket) = bucketGet E s blockBucket"

section \<open>Blocks\<close>

definition QueryBlocks :: "('t, 'd, 's) env \<Rightarrow> ('s \<Rightarrow> bytes \<Rightarrow> (bytes \<times> bytes) list) \<Rightarrow> 's \<Rightarrow> Block list res" where
  "QueryBlocks E forEach s =
     foldR (\<lambda>blocks (k, v). bindR (ofOption LogPanic (decB E v)) (\<lambda>res. Inr (blocks @ [res]))) [] (forEach s blockBucket)"

text \<open>The block found last; \<open>None\<close> is \<open>new(core.Block)\<close>, without header and body.\<close>

definition QueryBlock ::
  "('t, 'd, 's) env \<Rightarrow> ('s \<Rightarrow> bytes \<Rightarrow> (bytes \<times> bytes) list) \<Rightarrow> u64 \<Rightarrow> 's \<Rightarrow> Block option res" where
  "QueryBlock E forEach num s =
     foldR (\<lambda>block (k, v). bindR (ofOption LogPanic (decB E v)) (\<lambda>res.
       Inr (if Number (Header res) = num then Some res else block))) None (forEach s blockBucket)"

definition QueryBlockTxs ::
  "('t, 'd, 's) env \<Rightarrow> ('s \<Rightarrow> bytes \<Rightarrow> (bytes \<times> bytes) list) \<Rightarrow> u64 \<Rightarrow> 's \<Rightarrow> Transaction list res" where
  "QueryBlockTxs E forEach num s =
     bindR (QueryBlock E forEach num s) (\<lambda>block. Inr (case block of None \<Rightarrow> [] | Some b \<Rightarrow> Body b))"

text \<open>Errors are dropped: without a newest hash a nil hash is looked up. \<open>None\<close> is the nil block.\<close>

definition QueryNewestBlock :: "('t, 'd, 's) env \<Rightarrow> 's \<Rightarrow> Block option res" where
  "QueryNewestBlock E s =
     (let hash = (case GetNewestBlockHash E s of Inl _ \<Rightarrow> [] | Inr h \<Rightarrow> h)
      in bindR (GetBlock E hash s) (\<lambda>r. Inr (case r of Inl _ \<Rightarrow> None | Inr b \<Rightarrow> Some b)))"

section \<open>Accounts\<close>

definition openNewest :: "('t, 'd, 's) env \<Rightarrow> 'd \<Rightarrow> 's \<Rightarrow> 't res" where
  "openNewest E db s =
     bindR (QueryNewestBlock E s) (\<lambda>curb.
     bindR (ofOption NilDeref curb) (\<lambda>curb.
       ofOption LogPanic (trieNew E (toHash E (StateRoot (Header curb))) db)))"

definition readAccount :: "('t, 'd, 's) env \<Rightarrow> 't \<Rightarrow> address \<Rightarrow> AccountState option res" where
  "readAccount E st address =
     (case trieGet E st address of
        None \<Rightarrow> Inr None
      | Some asenc \<Rightarrow> bindR (ofOption LogPanic (decAS E asenc)) (\<lambda>a. Inr (Some a)))"

definition QueryAccountState :: "('t, 'd, 's) env \<Rightarrow> 'd \<Rightarrow> 's \<Rightarrow> address \<Rightarrow> AccountState option res" where
  "QueryAccountState E db s address = bindR (openNewest E db s) (\<lambda>st. readAccount E st address)"

definition QueryAccountStateList :: "('t, 'd, 's) env \<Rightarrow> 'd \<Rightarrow> 's \<Rightarrow> address list \<Rightarrow> AccountState option list res" where
  "QueryAccountStateList E db s addresses =
     bindR (openNewest E db s) (\<lambda>st.
       foldR (\<lambda>ret address. bindR (readAccount E st address) (\<lambda>a. Inr (ret @ [a]))) [] addresses)"

section \<open>The blocks of a chain\<close>

lemma walkBack_at:
  assumes "walkBack at h n = Some bs" "linked bs" "bs \<noteq> [] \<longrightarrow> h = Hash (hd bs)" "b \<in> set bs"
  shows "at (Hash b) = Some b"
  using assms
proof (induction n arbitrary: h bs)
  case 0
  then show ?case by simp
next
  case (Suc n)
  then obtain c cs where c: "at h = Some c" "walkBack at (ParentBlockHash (Header c)) n = Some cs" "bs = c # cs"
    by (auto split: option.splits)
  have "linked cs" "cs \<noteq> [] \<longrightarrow> ParentBlockHash (Header c) = Hash (hd cs)"
    using Suc.prems(2) c(3) by (cases cs; simp)+
  with Suc.IH [OF c(2)] Suc.prems(3,4) c show ?case by auto
qed

lemma linked_number:
  "linked bs \<Longrightarrow> i < length bs \<Longrightarrow> Number (Header (rev bs ! i)) = Number (Header (last bs)) + of_nat i"
proof (induction bs arbitrary: i)
  case Nil
  then show ?case by simp
next
  case (Cons b bs)
  have l: "linked bs" using Cons.prems(1) by (cases bs) auto
  show ?case
  proof (cases "i < length bs")
    case True
    then have "bs \<noteq> []" by auto
    with Cons.IH [OF l True] True show ?thesis by (simp add: nth_append)
  next
    case False
    then have i: "i = length bs" using Cons.prems(2) by simp
    show ?thesis
    proof (cases bs)
      case Nil
      then show ?thesis using i by simp
    next
      case (Cons c cs)
      then have "Number (Header (rev bs ! (length bs - 1))) = Number (Header (last bs)) + of_nat (length bs - 1)"
        using Cons.IH [OF l, of "length bs - 1"] by simp
      moreover have "rev bs ! (length bs - 1) = c" using Cons by (simp add: nth_append)
      moreover have "Number (Header b) = Number (Header c) + 1" using Cons.prems(1) Cons by simp
      ultimately show ?thesis using i Cons by (simp add: nth_append)
    qed
  qed
qed

lemma newest_chain:
  assumes "history E bc bs"
  shows "QueryNewestBlock E (Storage bc) = Inr (Some (CurrentBlock bc))"
proof -
  obtain n where n: "length bs = Suc n" using assms by (cases bs) (auto simp: history_def)
  have "walkBack (blockAt E (Storage bc)) (Hash (CurrentBlock bc)) (Suc n) = Some bs" "hd bs = CurrentBlock bc"
    using assms n by (simp_all add: history_def)
  then have "blockAt E (Storage bc) (Hash (CurrentBlock bc)) = Some (CurrentBlock bc)" by (auto split: option.splits)
  then have "GetBlock E (Hash (CurrentBlock bc)) (Storage bc) = Inr (Inr (CurrentBlock bc))"
    by (auto simp: blockAt_def split: sum.splits)
  moreover have "GetNewestBlockHash E (Storage bc) = Inr (Hash (CurrentBlock bc))"
    using assms by (auto simp: history_def newestOf_def split: sum.splits)
  ultimately show ?thesis by (simp add: QueryNewestBlock_def)
qed

text \<open>What the bucket of blocks decodes to.\<close>

lemma chain_stored:
  assumes reach: "chainReach E cfg bc bs" and laws: "bolt_laws E" and sc: "scans E forEach (Storage bc)"
    and only: "onlyHistory E (Storage bc) bs"
  shows "\<forall>(k, v) \<in> set (forEach (Storage bc) blockBucket). \<exists>b \<in> set bs. k = Hash b \<and> decB E v = Some b"
    and "\<forall>b \<in> set bs. \<exists>v. (Hash b, v) \<in> set (forEach (Storage bc) blockBucket)"
    and "inj_on Hash (set bs)"
proof -
  note inv = chainReach_inv [OF reach laws]
  have at: "blockAt E (Storage bc) (Hash b) = Some b" if "b \<in> set bs" for b
    using inv walkBack_at [of "blockAt E (Storage bc)" _ _ bs b] that by (auto simp: history_def)
  have dec: "\<exists>v. bucketGet E (Storage bc) blockBucket (Hash b) = Some v \<and> decB E v = Some b" if "b \<in> set bs" for b
    using at [OF that] by (auto simp: blockAt_def GetBlock_def split: option.splits sum.splits)
      (auto simp: res_simps)
  have m: "map_of (forEach (Storage bc) blockBucket) = bucketGet E (Storage bc) blockBucket"
    "distinct (map fst (forEach (Storage bc) blockBucket))" using sc by (simp_all add: scans_def)
  show "\<forall>(k, v) \<in> set (forEach (Storage bc) blockBucket). \<exists>b \<in> set bs. k = Hash b \<and> decB E v = Some b"
  proof safe
    fix k v
    assume "(k, v) \<in> set (forEach (Storage bc) blockBucket)"
    then have v: "bucketGet E (Storage bc) blockBucket k = Some v" using m by (metis map_of_eq_Some_iff)
    then obtain b where "b \<in> set bs" "k = Hash b" using only by (auto simp: onlyHistory_def)
    then show "\<exists>b \<in> set bs. k = Hash b \<and> decB E v = Some b" using dec [of b] v by auto
  qed
  show "\<forall>b \<in> set bs. \<exists>v. (Hash b, v) \<in> set (forEach (Storage bc) blockBucket)"
    using dec m by (metis map_of_SomeD)
  show "inj_on Hash (set bs)" by (rule inj_onI) (metis at option.inject)
qed

lemma QueryBlocks_value:
  assumes "\<forall>(k, v) \<in> set kvs. decB E v = Some (blk k)"
  shows "foldR (\<lambda>blocks (k, v). bindR (ofOption LogPanic (decB E v)) (\<lambda>res. Inr (blocks @ [res]))) acc kvs =
    Inr (acc @ map (\<lambda>(k, v). blk k) kvs)"
  using assms by (induction kvs arbitrary: acc) auto

lemma QueryBlock_value:
  assumes "\<forall>(k, v) \<in> set kvs. decB E v = Some (blk k)"
  shows "foldR (\<lambda>block (k, v). bindR (ofOption LogPanic (decB E v)) (\<lambda>res.
      Inr (if Number (Header res) = num then Some res else block))) acc kvs =
    Inr (foldl (\<lambda>block (k, v). if Number (Header (blk k)) = num then Some (blk k) else block) acc kvs)"
  using assms by (induction kvs arbitrary: acc) auto

lemma foldl_last_match:
  assumes "\<forall>x \<in> set xs. p x \<longrightarrow> f x = y"
  shows "foldl (\<lambda>acc x. if p x then Some (f x) else acc) z xs = (if \<exists>x \<in> set xs. p x then Some y else z)"
  using assms by (induction xs arbitrary: z) auto

text \<open>The heights of a reachable chain number its blocks.\<close>

lemma chain_numbered:
  assumes reach: "chainReach E cfg bc bs" and laws: "bolt_laws E" and len: "length bs \<le> 2 ^ 64"
  shows "i < length bs \<Longrightarrow> unat (Number (Header (rev bs ! i))) = i"
    and "distinct bs"
    and "b \<in> set bs \<Longrightarrow> Number (Header b) = num \<longleftrightarrow> unat num < length bs \<and> b = rev bs ! unat num"
proof -
  have num: "unat (Number (Header (rev bs ! i))) = i" if "i < length bs" for i
    using linked_number [of bs i] chainReach_inv [OF reach laws] that len
    by (simp add: genesis_def Let_def unsigned_of_nat take_bit_nat_eq_self)
  then show "i < length bs \<Longrightarrow> unat (Number (Header (rev bs ! i))) = i" .
  have "distinct (rev bs)" unfolding distinct_conv_nth using num by (metis length_rev)
  then show "distinct bs" by simp
  assume "b \<in> set bs"
  then have "b \<in> set (rev bs)" by simp
  then obtain i where "i < length (rev bs)" "rev bs ! i = b" unfolding in_set_conv_nth by blast
  then have i: "i < length bs" "b = rev bs ! i" "unat (Number (Header b)) = i" using num by auto
  show "Number (Header b) = num \<longleftrightarrow> unat num < length bs \<and> b = rev bs ! unat num"
    using i num [of "unat num"] by (metis word_unat_eq_iff)
qed

lemma chain_distinct_keys:
  assumes kv: "\<forall>x \<in> set kvs. blk (fst x) \<in> set bs" and hashes: "fst ` set kvs = Hash ` set bs" and d: "distinct (map fst kvs)" "distinct bs"
    and blk: "\<forall>b \<in> set bs. blk (Hash b) = b"
  shows "mset (map (\<lambda>(k, v). blk k) kvs) = mset bs"
proof -
  have e: "map (\<lambda>(k, v). blk k) kvs = map blk (map fst kvs)" by auto
  have "inj_on blk (set (map fst kvs))" using blk by (auto simp: hashes intro!: inj_onI)
  then have "distinct (map blk (map fst kvs))" using d(1) distinct_map by blast
  moreover have "set (map blk (map fst kvs)) = set bs"
  proof -
    have "set (map blk (map fst kvs)) = blk ` Hash ` set bs" unfolding set_map hashes ..
    then show ?thesis using blk by (simp add: image_image)
  qed
  ultimately show ?thesis unfolding e using d(2) set_eq_iff_mset_eq_distinct by blast
qed

text \<open>C36: On the store of any chain grown from a newly created one, up to 2 ^ 64 blocks, a query lists every block
  of the history exactly once, finds under each height the block of that height with its transactions and nothing
  under any other height, and the newest block is the chain's current block.\<close>

theorem query_finds_blocks:
  assumes new: "newStore E store" and grown: "chainFrom E cfg store bc bs" and laws: "bolt_laws E"
    and sc: "scans E forEach (Storage bc)" and len: "length bs \<le> 2 ^ 64"
  shows "QueryNewestBlock E (Storage bc) = Inr (Some (CurrentBlock bc)) \<and>
     (\<exists>l. QueryBlocks E forEach (Storage bc) = Inr l \<and> mset l = mset bs) \<and>
     QueryBlock E forEach num (Storage bc) = Inr (if unat num < length bs then Some (rev bs ! unat num) else None) \<and>
     QueryBlockTxs E forEach num (Storage bc) = Inr (if unat num < length bs then Body (rev bs ! unat num) else [])"
proof -
  note reach = chainReachI [OF grown] and only = chainFrom_onlyHistory [OF grown laws new]
  define kvs where "kvs = forEach (Storage bc) blockBucket"
  define blk where "blk k = the_inv_into (set bs) Hash k" for k
  note st = chain_stored [OF reach laws sc only, folded kvs_def] and cn = chain_numbered [OF reach laws len]
  have blk: "blk (Hash b) = b" if "b \<in> set bs" for b using that st(3) by (simp add: blk_def the_inv_into_f_f)
  have kv: "blk k \<in> set bs \<and> k = Hash (blk k) \<and> decB E v = Some (blk k)" if "(k, v) \<in> set kvs" for k v
    using st(1) that blk by fastforce
  then have dec: "\<forall>(k, v) \<in> set kvs. decB E v = Some (blk k)" and inbs: "\<forall>x \<in> set kvs. blk (fst x) \<in> set bs" by auto
  have hashes: "fst ` set kvs = Hash ` set bs"
    using kv st(2) by (intro equalityI) (fastforce, force)
  have "QueryBlocks E forEach (Storage bc) = Inr (map (\<lambda>(k, v). blk k) kvs)"
    using QueryBlocks_value [OF dec, of "[]"] by (simp add: QueryBlocks_def kvs_def)
  moreover have "mset (map (\<lambda>(k, v). blk k) kvs) = mset bs"
    using chain_distinct_keys [OF inbs hashes] sc blk cn(2) by (simp add: scans_def kvs_def)
  moreover have "QueryBlock E forEach num (Storage bc) = Inr (if unat num < length bs then Some (rev bs ! unat num) else None)"
  proof -
    have e: "(\<lambda>block (k, v). if Number (Header (blk k)) = num then Some (blk k) else block) =
        (\<lambda>block x. if Number (Header (blk (fst x))) = num then Some (blk (fst x)) else block)"
      by (simp add: fun_eq_iff case_prod_beta)
    have l: "\<forall>x \<in> set kvs. Number (Header (blk (fst x))) = num \<longrightarrow> blk (fst x) = rev bs ! unat num"
      using cn(3) inbs by blast
    have "rev bs ! unat num \<in> set bs" if "unat num < length bs" using that nth_mem [of "unat num" "rev bs"] by simp
    then have ex: "(\<exists>x \<in> set kvs. Number (Header (blk (fst x))) = num) \<longleftrightarrow> unat num < length bs"
      using cn(3) inbs blk hashes by (metis (no_types, lifting) image_iff)
    show ?thesis
      unfolding QueryBlock_def kvs_def [symmetric] QueryBlock_value [OF dec] e foldl_last_match [OF l] ex by simp
  qed
  ultimately show ?thesis using newest_chain chainReach_inv [OF reach laws] by (auto simp: QueryBlockTxs_def)
qed

section \<open>The accounts of a chain\<close>

lemma openNewest_chain:
  assumes "chainReach E cfg bc bs" "bolt_laws E"
  shows "openNewest E db (Storage bc) = ofOption LogPanic (trieNew E (toHash E (StateRoot (Header (CurrentBlock bc)))) db)"
  using newest_chain [of E bc bs] chainReach_inv [OF assms] by (simp add: openNewest_def)

lemma readAccount_wf: "wfTrie E st \<Longrightarrow> \<exists>a. readAccount E st k = Inr a \<and>
    balOf E st k = (case a of None \<Rightarrow> Init_Balance | Some a \<Rightarrow> Balance a)"
  by (cases "trieGet E st k") (fastforce simp: readAccount_def balOf_def wfTrie_def)+

lemma foldR_map_value:
  assumes "\<forall>x \<in> set xs. f x = Inr (g x)"
  shows "foldR (\<lambda>ret x. bindR (f x) (\<lambda>a. Inr (ret @ [a]))) acc xs = Inr (acc @ map g xs)"
  using assms by (induction xs arbitrary: acc) auto

text \<open>C37: Queried on the state database of a reachable chain, an account has the balance the chain's execution sees: the
  balance stored at the newest block's state root, or no state at all where the execution still counts the
  initial balance; and a list of accounts is answered account by account.\<close>

theorem query_reads_ledger:
  assumes reach: "chainReach E cfg bc bs" and laws: "bolt_laws E" and wf: "wfDb E db"
    and L: "stateAt E db (toHash E (StateRoot (Header (CurrentBlock bc)))) = Some L"
  shows "(\<exists>r. QueryAccountState E db (Storage bc) a = Inr r \<and>
      L a = (case r of None \<Rightarrow> Init_Balance | Some s \<Rightarrow> Balance s)) \<and>
    (\<exists>rs. QueryAccountStateList E db (Storage bc) addrs = Inr rs \<and>
      map (\<lambda>a. QueryAccountState E db (Storage bc) a) addrs = map Inr rs)"
proof -
  obtain st where st: "trieNew E (toHash E (StateRoot (Header (CurrentBlock bc)))) db = Some st" "L = balOf E st"
    using L by (auto simp: stateAt_def)
  have w: "wfTrie E st" using wf st(1) by (auto simp: wfDb_def)
  have q: "QueryAccountState E db (Storage bc) a = readAccount E st a" for a
    by (simp add: QueryAccountState_def openNewest_chain [OF reach laws] st(1))
  define g where "g a = (case readAccount E st a of Inr r \<Rightarrow> r | Inl _ \<Rightarrow> None)" for a
  have g: "readAccount E st a = Inr (g a)" for a using readAccount_wf [OF w, of a] by (auto simp: g_def)
  have "QueryAccountStateList E db (Storage bc) addrs = Inr (map g addrs)"
    using foldR_map_value [of addrs "readAccount E st" g "[]"] g
    by (simp add: QueryAccountStateList_def openNewest_chain [OF reach laws] st(1))
  moreover have "\<exists>r. readAccount E st a = Inr r \<and> L a = (case r of None \<Rightarrow> Init_Balance | Some s \<Rightarrow> Balance s)"
    using readAccount_wf [OF w, of a] st(2) by auto
  ultimately show ?thesis using q g by auto
qed

section \<open>Witnesses\<close>

definition sampleForEach :: "(bytes \<times> bytes \<Rightarrow> bytes option) \<Rightarrow> bytes \<Rightarrow> (bytes \<times> bytes) list" where
  "sampleForEach s bk = concat (map (\<lambda>k. case s (bk, k) of None \<Rightarrow> [] | Some v \<Rightarrow> [(k, v)]) [unary 0, unary 1])"

theorem query_finds_blocks_witness:
  "\<exists>(bc :: mchain) b. chainFrom modelEnv sampleCfg Map.empty bc [b, genesis modelEnv] \<and>
     QueryNewestBlock modelEnv (Storage bc) = Inr (Some b) \<and>
     QueryBlock modelEnv sampleForEach 0 (Storage bc) = Inr (Some (genesis modelEnv)) \<and>
     QueryBlock modelEnv sampleForEach 1 (Storage bc) = Inr (Some b) \<and>
     QueryBlock modelEnv sampleForEach 2 (Storage bc) = Inr None"
proof -
  obtain bc b where r: "chainFrom modelEnv sampleCfg Map.empty bc [b, genesis modelEnv]" "Hash b = unary 1"
    and st: "\<forall>h. bucketGet modelEnv (Storage bc) blockBucket h =
      (if h = unary 1 then Some (encB modelEnv b) else if h = unary 0 then Some (encB modelEnv (genesis modelEnv)) else None)"
    using sample_from by blast
  have ne: "unary 0 \<noteq> unary 1" by (simp add: unary_def)
  have fe: "sampleForEach (Storage bc) blockBucket = [(unary 0, encB modelEnv (genesis modelEnv)), (unary 1, encB modelEnv b)]"
    using st ne by (simp add: sampleForEach_def modelEnv_ops)
  have sc: "scans modelEnv sampleForEach (Storage bc)" using st ne by (auto simp: scans_def fe)
  have new: "newStore modelEnv Map.empty" by (simp add: newStore_def modelEnv_ops)
  have len: "length [b, genesis modelEnv] \<le> 2 ^ 64" by simp
  note q = query_finds_blocks [OF new r(1) modelEnv_bolt sc len]
  have "CurrentBlock bc = b" using chainFrom_inv [OF r(1) modelEnv_bolt] by (simp add: history_def)
  with q [of 0] q [of 1] q [of 2] r(1) show ?thesis by (intro exI [of _ bc] exI [of _ b]) simp
qed

theorem query_reads_ledger_witness:
  "\<exists>(bc :: mchain) b. chainReach modelEnv sampleCfg bc [b, genesis modelEnv] \<and>
     QueryAccountState modelEnv [mHash [] \<mapsto> [(''a'', encAS modelEnv (newAccount 3))]] (Storage bc) ''a'' = Inr (Some (newAccount 3)) \<and>
     (\<exists>rs. QueryAccountStateList modelEnv [mHash [] \<mapsto> [(''a'', encAS modelEnv (newAccount 3))]] (Storage bc) [''a'', ''b''] = Inr rs)"
proof -
  obtain bc b where r: "chainReach modelEnv sampleCfg bc [b, genesis modelEnv]"
    "StateRoot (Header (CurrentBlock bc)) = mHash []"
    using sample_reach by blast
  define db where "db = [mHash [] \<mapsto> [(''a'', encAS modelEnv (newAccount 3))]]"
  have wf: "wfDb modelEnv db" by (simp add: db_def wfDb_def wfTrie_def modelEnv_ops)
  have L: "stateAt modelEnv db (toHash modelEnv (StateRoot (Header (CurrentBlock bc)))) =
      Some (balOf modelEnv [(''a'', encAS modelEnv (newAccount 3))])"
    by (simp add: stateAt_def db_def r(2) modelEnv_ops)
  note q = query_reads_ledger [OF r(1) modelEnv_bolt wf L, of "''a''" "[''a'', ''b'']"]
  have "QueryAccountState modelEnv db (Storage bc) ''a'' = Inr (Some (newAccount 3))"
    by (simp add: QueryAccountState_def openNewest_chain [OF r(1) modelEnv_bolt] r(2) db_def readAccount_def modelEnv_ops)
  with q r(1) show ?thesis unfolding db_def by blast
qed

end
