(* ===== verification/Vrf.thy ===== *)
theory Vrf
  imports Prelude
begin

text \<open>
  The verifiable random functions (shard/vrf/vrf.go, shard/vrf/vrf\_account.go), which the
  rest of the program does not call yet.

  \<^item> The signatures of go-ethereum and the VRF of go-ecvrf are the fields of one record;
    what the proofs rely on is \<open>signature_laws\<close>. \<open>'k\<close> is a private key,
    \<open>'p\<close> a public key.
  \<^item> An operation that returns a value with an error is a pair, its second part telling
    whether there was an error; the code logs the error and goes on with the value.
  \<^item> A slice that may be nil is a \<open>bytes option\<close>: \<open>reflect.DeepEqual\<close> tells nil
    from empty.
\<close>

record ('k, 'p) crypto =
  PublicKey :: "'k \<Rightarrow> 'p"
  PubkeyToAddress :: "'p \<Rightarrow> bytes"
  Sign :: "bytes \<Rightarrow> 'k \<Rightarrow> bytes option"
  Ecrecover :: "bytes \<Rightarrow> bytes \<Rightarrow> bytes option"
  UnmarshalPubkey :: "bytes \<Rightarrow> 'p option"
  BytesToAddress :: "bytes \<Rightarrow> bytes"
  ecvrfProve :: "'k \<Rightarrow> bytes \<Rightarrow> bytes option \<times> bytes option \<times> bool"
  ecvrfVerify :: "'p \<Rightarrow> bytes \<Rightarrow> bytes option \<Rightarrow> bytes option \<times> bool"

record VRFResult =
  vrf_Proof :: "bytes option"
  RandomValue :: "bytes option"

section \<open>The elliptic-curve VRF\<close>

definition GenerateVRF :: "('k, 'p) crypto \<Rightarrow> 'k \<Rightarrow> bytes \<Rightarrow> VRFResult" where
  "GenerateVRF C privateKey input =
     (case ecvrfProve C privateKey input of (out, prf, err) \<Rightarrow> \<lparr>vrf_Proof = prf, RandomValue = out\<rparr>)"

definition VerifyVRF :: "('k, 'p) crypto \<Rightarrow> 'p \<Rightarrow> bytes \<Rightarrow> VRFResult \<Rightarrow> bool" where
  "VerifyVRF C publicKey input vrfResult =
     (case ecvrfVerify C publicKey input (vrf_Proof vrfResult) of (out, err) \<Rightarrow> out = RandomValue vrfResult)"

section \<open>Accounts\<close>

record ('k, 'p) VrfAccount =
  privateKey :: 'k
  pubKey :: 'p
  accountAddr :: bytes
  keyDir :: string

text \<open>\<open>_privateKey\<close> is the key that is generated, \<open>joined\<close> the joined path.\<close>

definition NewVrfAccount :: "('k, 'p) crypto \<Rightarrow> 'k \<Rightarrow> string \<Rightarrow> ('k, 'p) VrfAccount" where
  "NewVrfAccount C private joined =
     \<lparr>privateKey = private, pubKey = PublicKey C private, accountAddr = PubkeyToAddress C (PublicKey C private),
      keyDir = joined\<rparr>"

definition SignHash :: "('k, 'p) crypto \<Rightarrow> bytes \<Rightarrow> ('k, 'p) VrfAccount \<Rightarrow> bytes" where
  "SignHash C hash vrfAccount = (case Sign C hash (privateKey vrfAccount) of None \<Rightarrow> [] | Some sig \<Rightarrow> sig)"

text \<open>A failed recovery leaves nil bytes and a failed decoding a nil key, which is then dereferenced.\<close>

definition VerifySignature :: "('k, 'p) crypto \<Rightarrow> bytes \<Rightarrow> bytes \<Rightarrow> bytes \<Rightarrow> bool res" where
  "VerifySignature C msgHash sig expected_addr =
     (let pubKeyBytes = (case Ecrecover C msgHash sig of None \<Rightarrow> [] | Some b \<Rightarrow> b)
      in bindR (ofOption NilDeref (UnmarshalPubkey C pubKeyBytes)) (\<lambda>pubkey.
           Inr (PubkeyToAddress C pubkey = expected_addr)))"

definition GenerateVRFOutput :: "('k, 'p) crypto \<Rightarrow> bytes \<Rightarrow> ('k, 'p) VrfAccount \<Rightarrow> VRFResult" where
  "GenerateVRFOutput C randSeed vrfAccount =
     \<lparr>vrf_Proof = Some (accountAddr vrfAccount), RandomValue = Some (SignHash C randSeed vrfAccount)\<rparr>"

definition sliceOf :: "bytes option \<Rightarrow> bytes" where
  "sliceOf b = (case b of None \<Rightarrow> [] | Some b \<Rightarrow> b)"

definition VerifyVRFOutput :: "('k, 'p) crypto \<Rightarrow> VRFResult \<Rightarrow> bytes \<Rightarrow> ('k, 'p) VrfAccount \<Rightarrow> bool res" where
  "VerifyVRFOutput C vrfResult randSeed vrfAccount =
     VerifySignature C randSeed (sliceOf (RandomValue vrfResult)) (BytesToAddress C (sliceOf (vrf_Proof vrfResult)))"

definition GetAccountAddress :: "('k, 'p) VrfAccount \<Rightarrow> bytes" where
  "GetAccountAddress vrfAccount = accountAddr vrfAccount"

section \<open>What a verified output shows\<close>

text \<open>
  Signing takes a hash of 32 bytes, and the signer's key is recovered from the signature.
  An empty signature is no signature and empty bytes are no key. Addresses are fixed points
  of \<open>BytesToAddress\<close>.
\<close>

definition signature_laws :: "('k, 'p) crypto \<Rightarrow> bool" where
  "signature_laws C \<longleftrightarrow>
     (\<forall>h k. Sign C h k = None \<longleftrightarrow> length h \<noteq> 32) \<and>
     (\<forall>h k s. Sign C h k = Some s \<longrightarrow>
        (\<exists>b. Ecrecover C h s = Some b \<and> UnmarshalPubkey C b = Some (PublicKey C k))) \<and>
     (\<forall>h. Ecrecover C h [] = None) \<and> UnmarshalPubkey C [] = None \<and>
     (\<forall>p. BytesToAddress C (PubkeyToAddress C p) = PubkeyToAddress C p)"

definition accountOk :: "('k, 'p) crypto \<Rightarrow> ('k, 'p) VrfAccount \<Rightarrow> bool" where
  "accountOk C a \<longleftrightarrow> pubKey a = PublicKey C (privateKey a) \<and> accountAddr a = PubkeyToAddress C (pubKey a)"

lemma NewVrfAccount_ok: "accountOk C (NewVrfAccount C k d)"
  by (simp add: accountOk_def NewVrfAccount_def)

lemma VerifySignature_signed:
  assumes "signature_laws C" "accountOk C a" "length h = 32"
  shows "VerifySignature C h (SignHash C h a) addr = Inr (accountAddr a = addr)"
proof -
  obtain s where s: "Sign C h (privateKey a) = Some s"
    using assms(1,3) unfolding signature_laws_def by (metis not_Some_eq)
  then obtain b where "Ecrecover C h s = Some b" "UnmarshalPubkey C b = Some (PublicKey C (privateKey a))"
    using assms(1) unfolding signature_laws_def by blast
  then show ?thesis using assms(2) s by (simp add: VerifySignature_def SignHash_def accountOk_def)
qed

lemma VerifySignature_unsigned:
  assumes "signature_laws C" "length h \<noteq> 32"
  shows "VerifySignature C h (SignHash C h a) addr = Inl NilDeref"
proof -
  have "Sign C h (privateKey a) = None" "Ecrecover C h [] = None" "UnmarshalPubkey C [] = None"
    using assms unfolding signature_laws_def by blast+
  then show ?thesis by (simp add: VerifySignature_def SignHash_def)
qed

text \<open>A result without a value passes whenever the verification itself returns none.\<close>

lemma VerifyVRF_failed:
  "fst (ecvrfVerify C pk input prf) = None \<Longrightarrow> VerifyVRF C pk input \<lparr>vrf_Proof = prf, RandomValue = None\<rparr>"
  by (simp add: VerifyVRF_def case_prod_beta)

text \<open>The output an account makes for a seed is verified - by every account, whoever made it: the verifier compares the
  signer only with the address the output itself carries, so a verified output shows that the output's proof is
  the signer's address and nothing about the account that is asked. For a seed that is not a hash of 32 bytes
  verifying the output dereferences a nil key.\<close>

theorem vrf_output_verifies_itself:
  assumes laws: "signature_laws C" and mine: "accountOk C a"
  shows "VerifyVRFOutput C (GenerateVRFOutput C seed a) seed verifier = (if length seed = 32 then Inr True else Inl NilDeref) \<and>
     (length seed = 32 \<longrightarrow>
        VerifyVRFOutput C \<lparr>vrf_Proof = Some addr, RandomValue = Some (SignHash C seed a)\<rparr> seed verifier =
          Inr (BytesToAddress C addr = accountAddr a))"
proof -
  have "BytesToAddress C (accountAddr a) = accountAddr a"
    using laws mine by (simp add: signature_laws_def accountOk_def)
  then show ?thesis
    using VerifySignature_signed [OF laws mine] VerifySignature_unsigned [OF laws]
    by (auto simp: VerifyVRFOutput_def GenerateVRFOutput_def sliceOf_def)
qed

definition sampleCrypto :: "(string, string) crypto" where
  "sampleCrypto = \<lparr>PublicKey = (\<lambda>k. CHR ''p'' # k), PubkeyToAddress = (\<lambda>p. p),
     Sign = (\<lambda>h k. if length h = 32 then Some (CHR ''p'' # k) else None),
     Ecrecover = (\<lambda>h s. if s = [] then None else Some s), UnmarshalPubkey = (\<lambda>b. if b = [] then None else Some b),
     BytesToAddress = (\<lambda>b. b), ecvrfProve = (\<lambda>k i. (None, None, True)), ecvrfVerify = (\<lambda>p i r. (None, True))\<rparr>"

theorem vrf_output_verifies_itself_witness:
  "let a = NewVrfAccount sampleCrypto ''alice'' ''d''; b = NewVrfAccount sampleCrypto ''bob'' ''d''; seed = replicate 32 (CHR ''s'')
   in VerifyVRFOutput sampleCrypto (GenerateVRFOutput sampleCrypto seed a) seed b = Inr True \<and>
      VerifyVRFOutput sampleCrypto (GenerateVRFOutput sampleCrypto ''short'' a) ''short'' b = Inl NilDeref"
proof -
  have laws: "signature_laws sampleCrypto" by (auto simp: signature_laws_def sampleCrypto_def)
  note v = vrf_output_verifies_itself [OF laws NewVrfAccount_ok]
  from v [of "replicate 32 (CHR ''s'')"] v [of "''short''"] show ?thesis by (simp add: Let_def)
qed

end
