(* ===== verification/Spec2Isabelle.thy ===== *)
theory Spec2Isabelle
  imports SupervisorProps BrokerProps PartitionProps MerkleProps SystemProps Queries Vrf
begin

text \<open>
  A verification development for the sharded-blockchain emulator BlockEmulator (Go, under
  src/). The program runs one supervisor and, for every shard, a group of nodes. The
  supervisor reads transactions from a data set and injects them into the shards, collects
  the reports of committed blocks, measures, and decides repartitions of the accounts. The
  nodes of a shard agree on blocks by PBFT, execute them on a Merkle-Patricia trie and relay
  cross-shard transactions to the leaders of the other shards. What a message or a step
  does is a function of the state that returns the new state and the messages sent, or a
  panic; the runs of a node, of a committee and of the supervisor are inductive step
  relations over these functions.

  \<^bold>\<open>The theories and the code they model.\<close>

  \<^item> \<open>Prelude\<close>: the result type that carries a Go panic, checked slice accesses, the
    fold that stops at the first panic, and facts on lists, maps and words.
  \<^item> \<open>Addressing\<close>: utils/utils\_partition.go. \<open>CoreTypes\<close>, \<open>TxPools\<close>:
    core/ and the message records and framing of message/ and shard/nodes.go.
  \<^item> \<open>Environment\<close>: everything outside the repository as one record of functions (tries,
    bolt, encoders, digests, bit sets), the laws the proofs assume of it, and one environment
    that satisfies them all, on which the witnesses run.
  \<^item> \<open>BlockStorage\<close>: storage/storage.go, with the interface \<open>block_store\<close>.
    \<open>StateTrie\<close>: execution in chain/blockchain.go and the ledger of balances it refines.
    \<open>Chain\<close>, \<open>ChainProps\<close>: production, validation, append, genesis, restart and
    installation of accounts; \<open>chainFrom\<close> is every chain these can build on a given store,
    \<open>chainReach\<close> on any store without a newest block.
    \<open>MerkleProofs\<close>, \<open>MerkleProps\<close>: chain/merkleproof.go.
    \<open>Queries\<close>: query/, the queries on the database of a node.
  \<^item> \<open>Graphs\<close>, \<open>CLPA\<close>, \<open>CLPAProps\<close>, \<open>PartitionProps\<close>: partition/,
    the account graph, label propagation and the partition of AERO.
  \<^item> \<open>PbftNode\<close>, \<open>PbftCore\<close>: consensus\_shard/pbft\_all/, the node's state and helpers,
    the three stages, catching up, view change, proposing and the monitor.
    \<open>InsideModules\<close>: the four modules that plug into the consensus and the transfer of
    accounts. \<open>OutsideModules\<close>: the messages that do not belong to the consensus, the
    dispatch and the node as a transition system (\<open>nodeStep\<close>, \<open>nodeReach\<close>).
    \<open>PbftInvariants\<close>: the interface \<open>consensus_module\<close> between the two, interpreted on
    the four modules, and what every step preserves. \<open>PbftProps\<close>, \<open>ConsensusProps\<close>,
    \<open>TransferProps\<close>: their properties.
  \<^item> \<open>Injection\<close>, \<open>InjectionProps\<close>: supervisor/committee/committee\_relay.go.
    \<open>BrokerCommittee\<close>, \<open>BrokerProps\<close>: committee\_broker.go and broker/broker.go.
    \<open>CLPACommittee\<close>, \<open>CLPABrokerCommittee\<close>, \<open>EpochProps\<close>: committee\_clpa.go and
    committee\_clpa\_broker.go with their loops as transition systems.
  \<^item> \<open>Measures\<close>, \<open>Latencies\<close>, \<open>MeasureProps\<close>: supervisor/measure/.
    \<open>Supervisor\<close>, \<open>SupervisorProps\<close>: supervisor/supervisor.go and supervisor/signal/.
  \<^item> \<open>Network\<close>: networks/ and the reading loops of nodes and supervisor.
    \<open>Deployment\<close>, \<open>DeploymentProps\<close>: params/, main.go and build/.
    \<open>Vrf\<close>: shard/vrf/. \<open>SystemProps\<close>: the supervisor and the nodes as they are started.

  \<^bold>\<open>What the properties show.\<close>

  \<^item> Chain: a generated block is valid, is appended and commits to the balances its
    transactions produce; replicas agree, whether they execute the block or have its state; execution conserves value and keeps balances
    non-negative; every reachable chain is stored as a linked history, is what a restart
    gives back when the state database has its root, and is what the queries return; a search
    finds the newest block with the transaction and a proof that verifies.
  \<^item> Consensus: what a commit message does on every branch; no digest is committed twice; the
    request pool holds true digests in every reachable state; a follower with the leader's
    view follows its round; a view changes only by a quorum; quorums intersect; and the
    faults the protocol has: one sender can fill a quorum.
  \<^item> Sharding: relaying routes each transaction once, transfers move accounts with
    their balances and lose no pending transaction, and the two halves of a cross-shard
    transaction keep the sum of two balances exactly when the sender could pay.
  \<^item> Partition: the counters are a recount, the incremental update keeps them, label
    propagation returns and reports exactly its moves, AERO applies and reports exactly the
    agent's migrations.
  \<^item> Supervisor: injection sends every transaction once, brokers split and confirm, the epoch
    barrier of the CLPA committee holds under every interleaving, counters are sums over the
    reports, closing never fails, and the shards are stopped once, after the committee's
    sending control has returned, exactly when they are quiet.
  \<^item> Start and network: the start scripts start every node, messages are cut as they were
    sent, writing returns unless the bandwidth is zero, and the supervisor's broker
    committees get no confirmation from the nodes that are started beside them.

  \<^bold>\<open>Interfaces.\<close> Each locale states what a client relies on and is interpreted on the
  model's own definitions in the theory that provides them: \<open>block_store\<close>, the pools
  \<open>fifo_pool\<close> and \<open>capped_pool\<close> of \<open>TxPools\<close>, \<open>consensus_module\<close>, and
  \<open>plain_module\<close>, a module that reports no broker transactions.

  \<^bold>\<open>Bounds and fuel.\<close> Loops over lists are structural. The CLPA committee repartitions at
  most 200 times, as the code does; its waits are steps of a transition system that can be
  repeated. Loops of the network that may run for ever (waiting for tokens, draining a buffer)
  are partial functions with \<open>None\<close> for not returning, and that they return is proved
  where it holds. Words keep the width of the code: heights and
  sequence numbers wrap at \<open>2\<^sup>64\<close>, views and epochs at \<open>2\<^sup>31\<close>, and theorems that
  need no wrap-around say so.

  \<^bold>\<open>Hypotheses.\<close> The laws of the environment are documented behaviour of the libraries. Hash
  collisions are excluded where they matter, for the hashes at hand: an appended block has a
  hash new to the store (\<open>fresh\<close>), a state root a replica already has stands for one state
  (\<open>uniqueRoot\<close>), the digests of broker messages differ.

  \<^bold>\<open>Abstractions.\<close> A handler is one step: its critical sections are not interleaved with
  another handler's, but handlers and loops interleave freely. Iteration over a Go map takes
  the order as an argument. Clocks are arguments. Scores and measurements are over an
  abstract number type, since no property depends on rounding. Vote sets are keyed by the
  addresses of decoded messages, as in the code.

  \<^bold>\<open>Not modelled.\<close> Sockets, files, goroutine scheduling inside a handler and log lines
  (pbft\_log, supervisor\_log, printing) are I/O. The encoders (gob, JSON, RLP), hashes,
  tries, the key-value store, the token bucket, signatures and the Python agent of AERO
  are parameters with their documented laws. \<open>rlpHash\<close> and the message type \<open>Reply\<close>
  are called by nothing. The broker variants of the account transfer repeat the operations
  of the relay variant word for word and share their definitions.
\<close>

end
